theory Spec2Isabelle
  imports Main "HOL-Library.Sublist" "HOL-Library.AList"
begin

section \<open>Text helpers\<close>

text \<open>
  Python strings are modelled as \<open>string\<close>. An optional string argument
  (\<^verbatim>\<open>engine_cmd: str = None\<close>) is a \<open>string option\<close>; Python's truth test
  \<^verbatim>\<open>if x:\<close> on such an argument is false for \<^verbatim>\<open>None\<close> and for the empty string.
\<close>

definition newline :: char where
  "newline = CHR 0x0A"

fun truthy :: "string option \<Rightarrow> bool" where
  "truthy None = False"
| "truthy (Some s) = (s \<noteq> [])"

text \<open>\<^verbatim>\<open>'\n'.join(job_script)\<close>\<close>

fun join_nl :: "string list \<Rightarrow> string" where
  "join_nl [] = []"
| "join_nl [x] = x"
| "join_nl (x # y # ys) = x @ newline # join_nl (y # ys)"

text \<open>
  The lines of a text, as \<^verbatim>\<open>text.split('\n')\<close> gives them: the empty text has the one
  line \<open>''''\<close>, and a text of \<open>n\<close> newlines has \<open>n + 1\<close> lines.
\<close>

fun lines_of :: "string \<Rightarrow> string list" where
  "lines_of [] = [[]]"
| "lines_of (c # cs) =
     (if c = newline then [] # lines_of cs
      else (case lines_of cs of [] \<Rightarrow> [[c]] | l # ls \<Rightarrow> (c # l) # ls))"

text \<open>
  The format \<^verbatim>\<open>{np:d}\<close> of an \<^verbatim>\<open>int\<close>: decimal digits, most significant first, with a
  leading minus sign for a negative number.
\<close>

definition digit_char :: "nat \<Rightarrow> char" where
  "digit_char d = ''0123456789'' ! d"

fun dec :: "nat \<Rightarrow> string" where
  "dec n = (if n < 10 then [digit_char n] else dec (n div 10) @ [digit_char (n mod 10)])"

declare dec.simps [simp del]

definition fmt_d :: "int \<Rightarrow> string" where
  "fmt_d i = (if i < 0 then CHR ''-'' # dec (nat (- i)) else dec (nat i))"


section \<open>The job-script builder (\<^verbatim>\<open>assemable_job_cmd\<close>, common/task.py)\<close>

definition job_script_first_line :: string where
  "job_script_first_line = ''#!/bin/bash''"

definition remote_job_script_last_line :: string where
  "remote_job_script_last_line = ''touch Done''"

text \<open>\<^verbatim>\<open>if block: job_script.append(block)\<close>\<close>

fun append_if :: "string option \<Rightarrow> string list" where
  "append_if None = []"
| "append_if (Some s) = (if s \<noteq> [] then [s] else [])"

text \<open>
  The launcher of the parallel branch: \<^verbatim>\<open>if not mpi_path: mpi_path = 'mpirun'\<close>.
\<close>

fun launcher :: "string option \<Rightarrow> string" where
  "launcher None = ''mpirun''"
| "launcher (Some p) = (if p \<noteq> [] then p else ''mpirun'')"

text \<open>
  Lines 234 to 240: what the builder appends for the command. Nothing for an absent or
  empty command; otherwise one entry, the launcher invocation when \<open>np > 1\<close> and the
  process-id echoing subshell when not.
\<close>

fun execution_line :: "string option \<Rightarrow> int \<Rightarrow> string option \<Rightarrow> string list" where
  "execution_line None np mpi_path = []"
| "execution_line (Some engine_cmd) np mpi_path =
     (if engine_cmd = [] then []
      else if np > 1 then [launcher mpi_path @ '' -np '' @ fmt_d np @ '' '' @ engine_cmd]
      else [''bash -c 'echo $$;  '' @ engine_cmd @ [CHR 0x27]])"

text \<open>The list \<^verbatim>\<open>job_script\<close> as it stands before the join.\<close>

definition job_script_entries ::
  "string option \<Rightarrow> int \<Rightarrow> string option \<Rightarrow> string option \<Rightarrow> bool \<Rightarrow>
   string option \<Rightarrow> string option \<Rightarrow> string option \<Rightarrow> string list" where
  "job_script_entries engine_cmd np cd_path mpi_path remote
       scheduler_block module_load_block extra_block =
     [job_script_first_line]
     @ (if remote then append_if scheduler_block @ append_if module_load_block else [])
     @ (case cd_path of None \<Rightarrow> []
        | Some p \<Rightarrow> if p \<noteq> [] then [''cd '' @ p @ '';''] else [])
     @ execution_line engine_cmd np mpi_path
     @ append_if extra_block
     @ (if remote then [remote_job_script_last_line] else [])"

definition assemable_job_cmd ::
  "string option \<Rightarrow> int \<Rightarrow> string option \<Rightarrow> string option \<Rightarrow> bool \<Rightarrow>
   string option \<Rightarrow> string option \<Rightarrow> string option \<Rightarrow> string" where
  "assemable_job_cmd engine_cmd np cd_path mpi_path remote
       scheduler_block module_load_block extra_block =
     join_nl (job_script_entries engine_cmd np cd_path mpi_path remote
       scheduler_block module_load_block extra_block)"

text \<open>
  Whether a text handed in by the caller (absent, or a string) has a given line.
\<close>

fun line_in :: "string \<Rightarrow> string option \<Rightarrow> bool" where
  "line_in l None = False"
| "line_in l (Some s) = (l \<in> set (lines_of s))"


section \<open>Lines of a joined script\<close>

lemma lines_of_ne [simp]: "lines_of s \<noteq> []"
  by (induction s) (auto split: list.splits)

lemma lines_of_append:
  "lines_of (a @ b) = butlast (lines_of a) @ [last (lines_of a) @ hd (lines_of b)] @ tl (lines_of b)"
proof (induction a)
  case Nil
  then show ?case by (cases "lines_of b") (use lines_of_ne [of b] in auto)
next
  case (Cons c cs)
  show ?case
  proof (cases "c = newline")
    case True
    then show ?thesis using Cons by simp
  next
    case False
    obtain l ls where L: "lines_of cs = l # ls" by (cases "lines_of cs") (use lines_of_ne [of cs] in auto)
    show ?thesis using False Cons L by (cases ls rule: rev_cases) (auto split: list.splits)
  qed
qed

lemma lines_of_append_newline:
  "lines_of (a @ newline # b) = lines_of a @ lines_of b"
  by (induction a) (auto split: list.splits)

lemma lines_of_join_nl:
  "bs \<noteq> [] \<Longrightarrow> lines_of (join_nl bs) = concat (map lines_of bs)"
  by (induction bs rule: join_nl.induct) (auto simp: lines_of_append_newline)

lemma lines_of_no_newline: "newline \<notin> set s \<Longrightarrow> lines_of s = [s]"
  by (induction s) auto

lemma line_of_append_cases:
  assumes "l \<in> set (lines_of (a @ b))"
  shows "l \<in> set (butlast (lines_of a)) \<or> l = last (lines_of a) @ hd (lines_of b)
           \<or> l \<in> set (tl (lines_of b))"
  using assms by (auto simp: lines_of_append)

lemma line_prefix_literal:
  assumes "newline \<notin> set pre" "l \<in> set (lines_of (pre @ s))"
  shows "(\<exists>x. l = pre @ x) \<or> l \<in> set (lines_of s)"
proof -
  have "lines_of pre = [pre]" using assms(1) by (rule lines_of_no_newline)
  with line_of_append_cases [OF assms(2)] show ?thesis
    by (auto dest: list.set_sel(2) [rotated])
qed

lemma line_suffix_literal:
  assumes "newline \<notin> set suf" "l \<in> set (lines_of (s @ suf))"
  shows "(\<exists>x. l = x @ suf) \<or> l \<in> set (lines_of s)"
proof -
  have "lines_of suf = [suf]" using assms(1) by (rule lines_of_no_newline)
  with line_of_append_cases [OF assms(2)] show ?thesis
    by (auto dest: in_set_butlastD)
qed

lemma line_middle_literal:
  assumes "newline \<notin> set mid" "l \<in> set (lines_of (a @ mid @ b))"
  shows "(\<exists>x y. l = x @ mid @ y) \<or> l \<in> set (lines_of a) \<or> l \<in> set (lines_of b)"
proof -
  from line_of_append_cases [OF assms(2)]
  consider "l \<in> set (butlast (lines_of a))" | "l = last (lines_of a) @ hd (lines_of (mid @ b))"
    | "l \<in> set (tl (lines_of (mid @ b)))" by blast
  then show ?thesis
  proof cases
    case 1
    then show ?thesis by (auto dest: in_set_butlastD)
  next
    case 2
    have M: "lines_of mid = [mid]" using assms(1) by (rule lines_of_no_newline)
    have "hd (lines_of (mid @ b)) = mid @ hd (lines_of b)"
      by (simp add: lines_of_append [of mid b] M)
    with 2 show ?thesis by blast
  next
    case 3
    have M: "lines_of mid = [mid]" using assms(1) by (rule lines_of_no_newline)
    have "tl (lines_of (mid @ b)) = tl (lines_of b)"
      by (simp add: lines_of_append [of mid b] M)
    with 3 show ?thesis by (auto dest: list.set_sel(2) [rotated])
  qed
qed

lemma dec_chars: "set (dec n) \<subseteq> set ''0123456789''"
proof (induction n rule: dec.induct)
  case (1 n)
  show ?case
  proof (cases "n < 10")
    case True
    then have "digit_char n \<in> set ''0123456789''"
      unfolding digit_char_def by (intro nth_mem) simp
    with True show ?thesis by (subst dec.simps) simp
  next
    case False
    have "n mod 10 < 10" by simp
    then have "digit_char (n mod 10) \<in> set ''0123456789''"
      unfolding digit_char_def by (intro nth_mem) simp
    with False 1 show ?thesis by (subst dec.simps) simp
  qed
qed

lemma fmt_d_no_newline: "newline \<notin> set (fmt_d i)"
  using dec_chars [of "nat i"] dec_chars [of "nat (- i)"]
  by (auto simp: fmt_d_def newline_def)

section \<open>First line, last line and sentinel of the job script\<close>

lemma sentinel_last: "remote_job_script_last_line = x @ [c] \<Longrightarrow> c = CHR ''e''"
  by (drule arg_cong [where f = last]) (simp add: remote_job_script_last_line_def)

lemma sentinel_first: "remote_job_script_last_line = c # x \<Longrightarrow> c = CHR ''t''"
  by (simp add: remote_job_script_last_line_def)

lemma sentinel_not_cd:
  assumes "remote_job_script_last_line \<in> set (lines_of (''cd '' @ p @ '';''))"
  shows "remote_job_script_last_line \<in> set (lines_of p)"
proof -
  have n1: "newline \<notin> set ''cd ''" by (simp add: newline_def)
  have n2: "newline \<notin> set '';''" by (simp add: newline_def)
  from line_prefix_literal [OF n1 assms]
  have "remote_job_script_last_line \<in> set (lines_of (p @ '';''))"
    by (auto dest: sentinel_first)
  from line_suffix_literal [OF n2 this]
  show ?thesis
    by (auto dest: sentinel_last)
qed

lemma sentinel_not_subshell:
  assumes "remote_job_script_last_line \<in> set (lines_of (''bash -c 'echo $$;  '' @ c @ [CHR 0x27]))"
  shows "remote_job_script_last_line \<in> set (lines_of c)"
proof -
  have n1: "newline \<notin> set ''bash -c 'echo $$;  ''" by (simp add: newline_def)
  have n2: "newline \<notin> set [CHR 0x27]" by (simp add: newline_def)
  from line_prefix_literal [OF n1 assms]
  have "remote_job_script_last_line \<in> set (lines_of (c @ [CHR 0x27]))"
    by (auto dest: sentinel_first)
  from line_suffix_literal [OF n2 this]
  show ?thesis
    by (auto dest: sentinel_last)
qed

lemma sentinel_no_dash: "CHR ''-'' \<notin> set remote_job_script_last_line"
  by (simp add: remote_job_script_last_line_def)

lemma sentinel_not_launcher_line:
  assumes "remote_job_script_last_line \<in> set (lines_of (l @ '' -np '' @ fmt_d np @ '' '' @ c))"
  shows "remote_job_script_last_line \<in> set (lines_of l) \<or> remote_job_script_last_line \<in> set (lines_of c)"
proof -
  have nn: "newline \<notin> set ('' -np '' @ fmt_d np @ '' '')"
    using fmt_d_no_newline [of np] by (simp add: newline_def)
  have "l @ '' -np '' @ fmt_d np @ '' '' @ c = l @ ('' -np '' @ fmt_d np @ '' '') @ c" by simp
  with assms have "remote_job_script_last_line \<in> set (lines_of (l @ ('' -np '' @ fmt_d np @ '' '') @ c))"
    by simp
  from line_middle_literal [OF nn this]
  show ?thesis
  proof (elim disjE exE)
    fix x y assume eq: "remote_job_script_last_line = x @ ('' -np '' @ fmt_d np @ '' '') @ y"
    have "CHR ''-'' \<in> set (x @ ('' -np '' @ fmt_d np @ '' '') @ y)" by simp
    then have "CHR ''-'' \<in> set remote_job_script_last_line" unfolding eq [symmetric] .
    then show ?thesis using sentinel_no_dash by simp
  qed auto
qed

lemma mpirun_lines: "lines_of ''mpirun'' = [''mpirun'']"
  by (simp add: newline_def)

lemma sentinel_not_mpirun: "remote_job_script_last_line \<notin> set (lines_of ''mpirun'')"
  unfolding mpirun_lines by (simp add: remote_job_script_last_line_def)

lemma sentinel_not_launcher:
  assumes "remote_job_script_last_line \<in> set (lines_of (launcher m))"
  shows "line_in remote_job_script_last_line m"
proof (cases m)
  case None
  with assms sentinel_not_mpirun show ?thesis by (simp del: lines_of.simps)
next
  case (Some p)
  show ?thesis
  proof (cases "p = []")
    case True
    with assms Some sentinel_not_mpirun show ?thesis by (simp del: lines_of.simps)
  next
    case False
    with assms Some show ?thesis by simp
  qed
qed

lemma sentinel_not_in_execution_line:
  assumes "e \<in> set (execution_line engine_cmd np mpi_path)"
    and "remote_job_script_last_line \<in> set (lines_of e)"
  shows "line_in remote_job_script_last_line engine_cmd \<or> line_in remote_job_script_last_line mpi_path"
proof (cases engine_cmd)
  case None
  with assms show ?thesis by simp
next
  case (Some c)
  show ?thesis
  proof (cases "1 < np")
    case True
    with assms(1) Some have "e = launcher mpi_path @ '' -np '' @ fmt_d np @ '' '' @ c"
      by (simp split: if_splits)
    with assms(2) have "remote_job_script_last_line \<in>
        set (lines_of (launcher mpi_path @ '' -np '' @ fmt_d np @ '' '' @ c))"
      by (simp only:)
    from sentinel_not_launcher_line [OF this] show ?thesis
      using Some sentinel_not_launcher by auto
  next
    case False
    with assms(1) Some have "e = ''bash -c 'echo $$;  '' @ c @ [CHR 0x27]"
      by (simp split: if_splits)
    with assms(2) have "remote_job_script_last_line \<in>
        set (lines_of (''bash -c 'echo $$;  '' @ c @ [CHR 0x27]))"
      by (simp only:)
    from sentinel_not_subshell [OF this] show ?thesis using Some by simp
  qed
qed

lemma sentinel_not_in_append_if:
  "e \<in> set (append_if b) \<Longrightarrow> remote_job_script_last_line \<in> set (lines_of e)
     \<Longrightarrow> line_in remote_job_script_last_line b"
  by (cases b) (auto split: if_splits)

lemma entries_ne: "job_script_entries ec np cd mp r sb mb eb \<noteq> []"
  by (simp add: job_script_entries_def)

lemma first_line_lines: "lines_of job_script_first_line = [job_script_first_line]"
  by (simp add: job_script_first_line_def newline_def)

lemma last_line_lines: "lines_of remote_job_script_last_line = [remote_job_script_last_line]"
  by (simp add: remote_job_script_last_line_def newline_def)

lemma sentinel_not_first_line: "remote_job_script_last_line \<notin> set (lines_of job_script_first_line)"
  unfolding first_line_lines by (simp add: job_script_first_line_def remote_job_script_last_line_def)

lemma script_lines:
  "lines_of (assemable_job_cmd ec np cd mp r sb mb eb)
     = concat (map lines_of (job_script_entries ec np cd mp r sb mb eb))"
  unfolding assemable_job_cmd_def by (rule lines_of_join_nl [OF entries_ne])

lemma script_first_line:
  "hd (lines_of (assemable_job_cmd ec np cd mp r sb mb eb)) = job_script_first_line"
  unfolding script_lines by (simp add: job_script_entries_def first_line_lines del: lines_of.simps)

lemma script_last_line:
  "r \<Longrightarrow> last (lines_of (assemable_job_cmd ec np cd mp r sb mb eb)) = remote_job_script_last_line"
  unfolding script_lines by (simp add: job_script_entries_def last_line_lines del: lines_of.simps)

lemma local_entries_cases:
  assumes "e \<in> set (job_script_entries ec np cd mp False sb mb eb)"
  shows "e = job_script_first_line \<or> (\<exists>p. cd = Some p \<and> e = ''cd '' @ p @ '';'')
     \<or> e \<in> set (execution_line ec np mp) \<or> e \<in> set (append_if eb)"
  using assms unfolding job_script_entries_def
  by (cases cd) (auto split: if_splits)

text \<open>
  Claim C1, as the code has it. The first line of every assembled script is the
  interpreter directive. With \<open>remote\<close> set, the last line is the sentinel command
  \<^verbatim>\<open>touch Done\<close>. With \<open>remote\<close> unset the builder adds no sentinel of its own: the
  script has a line \<^verbatim>\<open>touch Done\<close> only when a text of the caller (working directory,
  launcher path, command or extra block) has that line, since those texts are inserted
  as they are.
\<close>

theorem job_script_first_last_sentinel:
  "hd (lines_of (assemable_job_cmd ec np cd mp r sb mb eb)) = job_script_first_line
   \<and> (r \<longrightarrow> last (lines_of (assemable_job_cmd ec np cd mp r sb mb eb))
               = remote_job_script_last_line)
   \<and> (\<not> r \<and> \<not> line_in remote_job_script_last_line cd
       \<and> \<not> line_in remote_job_script_last_line mp
       \<and> \<not> line_in remote_job_script_last_line ec
       \<and> \<not> line_in remote_job_script_last_line eb
      \<longrightarrow> remote_job_script_last_line \<notin> set (lines_of (assemable_job_cmd ec np cd mp r sb mb eb)))"
proof (intro conjI impI)
  show "hd (lines_of (assemable_job_cmd ec np cd mp r sb mb eb)) = job_script_first_line"
    by (rule script_first_line)
next
  assume r
  then show "last (lines_of (assemable_job_cmd ec np cd mp r sb mb eb)) = remote_job_script_last_line"
    by (rule script_last_line)
next
  assume H: "\<not> r \<and> \<not> line_in remote_job_script_last_line cd
       \<and> \<not> line_in remote_job_script_last_line mp
       \<and> \<not> line_in remote_job_script_last_line ec
       \<and> \<not> line_in remote_job_script_last_line eb"
  show "remote_job_script_last_line \<notin> set (lines_of (assemable_job_cmd ec np cd mp r sb mb eb))"
  proof
    assume "remote_job_script_last_line \<in> set (lines_of (assemable_job_cmd ec np cd mp r sb mb eb))"
    then obtain e where e: "e \<in> set (job_script_entries ec np cd mp r sb mb eb)"
        "remote_job_script_last_line \<in> set (lines_of e)"
      unfolding script_lines by auto
    from e(1) H have "e \<in> set (job_script_entries ec np cd mp False sb mb eb)" by simp
    from local_entries_cases [OF this]
    consider "e = job_script_first_line"
      | p where "cd = Some p" "e = ''cd '' @ p @ '';''"
      | "e \<in> set (execution_line ec np mp)"
      | "e \<in> set (append_if eb)"
      by blast
    then show False
    proof cases
      case 1
      with e(2) sentinel_not_first_line show False by simp
    next
      case 2
      from e(2) have "remote_job_script_last_line \<in> set (lines_of (''cd '' @ p @ '';''))"
        unfolding 2(2) .
      from sentinel_not_cd [OF this] 2(1) H show False by simp
    next
      case 3
      from sentinel_not_in_execution_line [OF 3 e(2)] H show False by auto
    next
      case 4
      from sentinel_not_in_append_if [OF 4 e(2)] H show False by auto
    qed
  qed
qed

theorem job_script_first_last_sentinel_witness:
  "hd (lines_of (assemable_job_cmd (Some ''nwchem gs.nwi > gs.nwo'') 4 (Some ''/p/nwchem/GS'') None
         True None (Some ''module load nwchem'') None)) = job_script_first_line
   \<and> last (lines_of (assemable_job_cmd (Some ''nwchem gs.nwi > gs.nwo'') 4 (Some ''/p/nwchem/GS'') None
         True None (Some ''module load nwchem'') None)) = remote_job_script_last_line
   \<and> remote_job_script_last_line \<notin> set (lines_of (assemable_job_cmd (Some ''nwchem gs.nwi > gs.nwo'') 1
         (Some ''/p/nwchem/GS'') (Some ''mpirun'') False None None (Some ''echo finished'')))"
proof -
  have pre: "\<not> False \<and> \<not> line_in remote_job_script_last_line (Some ''/p/nwchem/GS'')
       \<and> \<not> line_in remote_job_script_last_line (Some ''mpirun'')
       \<and> \<not> line_in remote_job_script_last_line (Some ''nwchem gs.nwi > gs.nwo'')
       \<and> \<not> line_in remote_job_script_last_line (Some ''echo finished'')"
    by code_simp
  note a = job_script_first_last_sentinel [of "Some ''nwchem gs.nwi > gs.nwo''" 4
      "Some ''/p/nwchem/GS''" None True None "Some ''module load nwchem''" None]
  note b = job_script_first_last_sentinel [of "Some ''nwchem gs.nwi > gs.nwo''" 1
      "Some ''/p/nwchem/GS''" "Some ''mpirun''" False None None "Some ''echo finished''"]
  from a have 1: "hd (lines_of (assemable_job_cmd (Some ''nwchem gs.nwi > gs.nwo'') 4 (Some ''/p/nwchem/GS'') None
         True None (Some ''module load nwchem'') None)) = job_script_first_line" by (rule conjunct1)
  from a have 2: "last (lines_of (assemable_job_cmd (Some ''nwchem gs.nwi > gs.nwo'') 4 (Some ''/p/nwchem/GS'') None
         True None (Some ''module load nwchem'') None)) = remote_job_script_last_line"
    by (elim conjE) (erule mp, rule TrueI)
  from b pre have 3: "remote_job_script_last_line \<notin> set (lines_of (assemable_job_cmd (Some ''nwchem gs.nwi > gs.nwo'') 1
         (Some ''/p/nwchem/GS'') (Some ''mpirun'') False None None (Some ''echo finished'')))"
    by (elim conjE) (erule mp, intro conjI)
  from 1 2 3 show ?thesis by (intro conjI)
qed

text \<open>
  The claim as worded (no sentinel anywhere in a script built with \<open>remote\<close> unset, for
  any optional block) fails when the caller's extra block is the sentinel command:
  \<^verbatim>\<open>assemable_job_cmd(extra_block='touch Done')\<close> is the directive followed by
  \<^verbatim>\<open>touch Done\<close>.
\<close>

theorem job_script_sentinel_counterexample:
  "remote_job_script_last_line
     \<in> set (lines_of (assemable_job_cmd None 1 None None False None None (Some ''touch Done'')))"
  by code_simp


section \<open>The execution line\<close>

lemma sublist_skip_head:
  assumes "c \<notin> set xs" "sublist xs (c # ys)"
  shows "sublist xs ys"
proof (cases xs)
  case Nil
  then show ?thesis by simp
next
  case (Cons x xs')
  with assms(1) have "\<not> prefix xs (c # ys)" by auto
  with assms(2) show ?thesis by (simp add: sublist_Cons_right)
qed

lemma sublist_skip_prefix:
  "set pre \<inter> set xs = {} \<Longrightarrow> sublist xs (pre @ ys) \<Longrightarrow> sublist xs ys"
  by (induction pre) (auto dest: sublist_skip_head)

lemma sublist_skip_suffix:
  assumes "set suf \<inter> set xs = {}" "sublist xs (ys @ suf)"
  shows "sublist xs ys"
proof -
  from assms(2) have "sublist (rev xs) (rev (ys @ suf))"
    by (simp only: sublist_rev)
  then have "sublist (rev xs) (rev suf @ rev ys)" by simp
  moreover from assms(1) have "set (rev suf) \<inter> set (rev xs) = {}" by simp
  ultimately have "sublist (rev xs) (rev ys)"
    by (rule sublist_skip_prefix [rotated])
  then show ?thesis by (simp only: sublist_rev)
qed

lemma subshell_prefix_no_mpirun: "set ''bash -c 'echo $$;  '' \<inter> set ''mpirun'' = {}"
  by simp

lemma subshell_suffix_no_mpirun: "set [CHR 0x27] \<inter> set ''mpirun'' = {}"
  by simp

lemma mpirun_in_subshell:
  "sublist ''mpirun'' (''bash -c 'echo $$;  '' @ c @ [CHR 0x27]) \<longleftrightarrow> sublist ''mpirun'' c"
proof
  assume "sublist ''mpirun'' (''bash -c 'echo $$;  '' @ c @ [CHR 0x27])"
  with subshell_prefix_no_mpirun have "sublist ''mpirun'' (c @ [CHR 0x27])"
    by (rule sublist_skip_prefix)
  with subshell_suffix_no_mpirun show "sublist ''mpirun'' c"
    by (rule sublist_skip_suffix)
next
  assume a: "sublist ''mpirun'' c"
  then obtain ps ss where "c = ps @ ''mpirun'' @ ss" unfolding sublist_def by blast
  then have "''bash -c 'echo $$;  '' @ c @ [CHR 0x27]
      = (''bash -c 'echo $$;  '' @ ps) @ ''mpirun'' @ (ss @ [CHR 0x27])" by simp
  then show "sublist ''mpirun'' (''bash -c 'echo $$;  '' @ c @ [CHR 0x27])"
    unfolding sublist_def by blast
qed

lemma launcher_line_has_launcher:
  "sublist l (l @ '' -np '' @ n @ '' '' @ c)"
  by (rule sublist_append_rightI)

lemma launcher_line_has_count:
  "sublist (''-np '' @ n) (l @ '' -np '' @ n @ '' '' @ c)"
proof -
  have "sublist (''-np '' @ n) ((l @ '' '') @ (''-np '' @ n) @ ('' '' @ c))"
    by (rule sublist_appendI)
  then show ?thesis by simp
qed

lemma fmt_d_4: "fmt_d 4 = ''4''"
  by (simp add: fmt_d_def dec.simps digit_char_def)

lemma no_mpirun_in_cmd: "\<not> sublist ''mpirun'' ''nwchem gs.nwi''"
  by (simp add: sublist_Cons_right)

lemma launcher_fallback: "\<not> truthy mpi_path \<Longrightarrow> launcher mpi_path = ''mpirun''"
  by (cases mpi_path) auto

text \<open>
  The entry for the command in the script: whatever the working directory, the blocks and
  the remote flag, the entries of the script are those of the script built without a
  command, with the entries of the command put in after the directive, the blocks and
  the working-directory line, before the extra block and the sentinel.
\<close>

lemma entries_with_command:
  "\<exists>H. \<forall>cmd. job_script_entries cmd np cd_path mpi_path remote sb mb eb
           = H @ execution_line cmd np mpi_path
               @ append_if eb @ (if remote then [remote_job_script_last_line] else [])"
  unfolding job_script_entries_def
  by (rule exI [of _ "[job_script_first_line]
        @ (if remote then append_if sb @ append_if mb else [])
        @ (case cd_path of None \<Rightarrow> [] | Some p \<Rightarrow> if p \<noteq> [] then [''cd '' @ p @ '';''] else [])"])
     simp

lemma join_nl_3: "join_nl [a, b, c] = a @ [newline] @ b @ [newline] @ c"
  by simp

lemma join_nl_5:
  "join_nl [a, b, c, d, e] = a @ [newline] @ b @ [newline] @ c @ [newline] @ d @ [newline] @ e"
  by simp

text \<open>
  Claim C2, as the code has it. For a non-empty command, and any working directory, blocks
  and remote flag, the builder writes one entry \<open>X\<close> for the command into the script it
  builds without one: after the head \<open>H\<close> (directive, blocks, working-directory line) and
  before the extra block and the sentinel. With more than one process \<open>X\<close> is the launcher,
  then \<^verbatim>\<open>-np\<close> with the process count in decimal, then the command; the launcher is the
  given launcher path when there is one and it is not empty, and \<^verbatim>\<open>mpirun\<close> otherwise; so
  \<open>X\<close> contains the launcher and \<^verbatim>\<open>-np <count>\<close>. With one process (or fewer) \<open>X\<close> is the
  subshell \<^verbatim>\<open>bash -c 'echo $$;  <command>'\<close>: the builder puts no launcher in front, and \<open>X\<close>
  contains \<^verbatim>\<open>mpirun\<close> exactly when the command itself does.
\<close>

theorem execution_line_form:
  assumes ne: "engine_cmd \<noteq> []"
  shows "\<exists>H X.
      job_script_entries None np cd_path mpi_path remote sb mb eb
        = H @ append_if eb @ (if remote then [remote_job_script_last_line] else [])
    \<and> job_script_entries (Some engine_cmd) np cd_path mpi_path remote sb mb eb
        = H @ [X] @ append_if eb @ (if remote then [remote_job_script_last_line] else [])
    \<and> assemable_job_cmd (Some engine_cmd) np cd_path mpi_path remote sb mb eb
        = join_nl (H @ [X] @ append_if eb @ (if remote then [remote_job_script_last_line] else []))
    \<and> (1 < np \<and> mpi_path = Some p \<and> p \<noteq> [] \<longrightarrow>
          X = p @ '' -np '' @ fmt_d np @ '' '' @ engine_cmd
          \<and> sublist p X \<and> sublist (''-np '' @ fmt_d np) X)
    \<and> (1 < np \<and> \<not> truthy mpi_path \<longrightarrow>
          X = ''mpirun -np '' @ fmt_d np @ '' '' @ engine_cmd
          \<and> sublist ''mpirun'' X \<and> sublist (''-np '' @ fmt_d np) X)
    \<and> (np \<le> 1 \<longrightarrow>
          X = ''bash -c 'echo $$;  '' @ engine_cmd @ [CHR 0x27]
          \<and> (sublist ''mpirun'' X \<longleftrightarrow> sublist ''mpirun'' engine_cmd))"
proof -
  let ?T = "append_if eb @ (if remote then [remote_job_script_last_line] else [])"
  from entries_with_command [of np cd_path mpi_path remote sb mb eb]
  obtain H where H: "\<And>cmd. job_script_entries cmd np cd_path mpi_path remote sb mb eb
                       = H @ execution_line cmd np mpi_path @ ?T"
    by blast
  define X where "X = (if 1 < np then launcher mpi_path @ '' -np '' @ fmt_d np @ '' '' @ engine_cmd
                       else ''bash -c 'echo $$;  '' @ engine_cmd @ [CHR 0x27])"
  from ne have ex: "execution_line (Some engine_cmd) np mpi_path = [X]"
    by (simp add: X_def)
  have 1: "job_script_entries None np cd_path mpi_path remote sb mb eb = H @ ?T"
    using H [of None] by simp
  have 2: "job_script_entries (Some engine_cmd) np cd_path mpi_path remote sb mb eb = H @ [X] @ ?T"
    using H [of "Some engine_cmd"] by (simp only: ex)
  have 3: "assemable_job_cmd (Some engine_cmd) np cd_path mpi_path remote sb mb eb
             = join_nl (H @ [X] @ ?T)"
    unfolding assemable_job_cmd_def by (simp only: 2)
  have 4: "1 < np \<and> mpi_path = Some p \<and> p \<noteq> [] \<longrightarrow>
          X = p @ '' -np '' @ fmt_d np @ '' '' @ engine_cmd
          \<and> sublist p X \<and> sublist (''-np '' @ fmt_d np) X"
  proof (intro impI)
    assume a: "1 < np \<and> mpi_path = Some p \<and> p \<noteq> []"
    then have X: "X = p @ '' -np '' @ fmt_d np @ '' '' @ engine_cmd"
      by (simp add: X_def)
    show "X = p @ '' -np '' @ fmt_d np @ '' '' @ engine_cmd
          \<and> sublist p X \<and> sublist (''-np '' @ fmt_d np) X"
      unfolding X by (intro conjI refl launcher_line_has_launcher launcher_line_has_count)
  qed
  have 5: "1 < np \<and> \<not> truthy mpi_path \<longrightarrow>
          X = ''mpirun -np '' @ fmt_d np @ '' '' @ engine_cmd
          \<and> sublist ''mpirun'' X \<and> sublist (''-np '' @ fmt_d np) X"
  proof (intro impI)
    assume a: "1 < np \<and> \<not> truthy mpi_path"
    then have l: "launcher mpi_path = ''mpirun''" by (simp add: launcher_fallback)
    with a have X: "X = ''mpirun'' @ '' -np '' @ fmt_d np @ '' '' @ engine_cmd"
      by (simp add: X_def)
    have "sublist ''mpirun'' X \<and> sublist (''-np '' @ fmt_d np) X"
      unfolding X by (intro conjI launcher_line_has_launcher launcher_line_has_count)
    moreover from X have "X = ''mpirun -np '' @ fmt_d np @ '' '' @ engine_cmd" by simp
    ultimately show "X = ''mpirun -np '' @ fmt_d np @ '' '' @ engine_cmd
          \<and> sublist ''mpirun'' X \<and> sublist (''-np '' @ fmt_d np) X" by blast
  qed
  have 6: "np \<le> 1 \<longrightarrow>
          X = ''bash -c 'echo $$;  '' @ engine_cmd @ [CHR 0x27]
          \<and> (sublist ''mpirun'' X \<longleftrightarrow> sublist ''mpirun'' engine_cmd)"
  proof (intro impI)
    assume a: "np \<le> 1"
    then have X: "X = ''bash -c 'echo $$;  '' @ engine_cmd @ [CHR 0x27]"
      by (simp add: X_def)
    show "X = ''bash -c 'echo $$;  '' @ engine_cmd @ [CHR 0x27]
          \<and> (sublist ''mpirun'' X \<longleftrightarrow> sublist ''mpirun'' engine_cmd)"
      unfolding X by (intro conjI refl mpirun_in_subshell)
  qed
  from 1 2 3 4 5 6 show ?thesis by blast
qed

text \<open>
  Two calls with a working directory and a launcher path: four processes, and one.
\<close>

theorem execution_line_form_witness:
  "assemable_job_cmd (Some ''nwchem gs.nwi'') 4 (Some ''/p'') (Some ''/usr/bin/mpirun'')
       False None None None
     = ''#!/bin/bash'' @ [newline] @ ''cd /p;'' @ [newline] @ ''/usr/bin/mpirun -np 4 nwchem gs.nwi''
   \<and> assemable_job_cmd (Some ''nwchem gs.nwi'') 1 (Some ''/p'') (Some ''/usr/bin/mpirun'')
       False None None None
     = ''#!/bin/bash'' @ [newline] @ ''cd /p;'' @ [newline]
         @ ''bash -c 'echo $$;  nwchem gs.nwi'' @ [CHR 0x27]
   \<and> \<not> sublist ''mpirun'' (''bash -c 'echo $$;  nwchem gs.nwi'' @ [CHR 0x27])"
proof -
  have ne: "''nwchem gs.nwi'' \<noteq> []" by simp
  have e0: "job_script_entries None np (Some ''/p'') (Some ''/usr/bin/mpirun'') False None None None
              = [''#!/bin/bash'', ''cd /p;'']" for np
    by (simp add: job_script_entries_def job_script_first_line_def)
  have 1: "assemable_job_cmd (Some ''nwchem gs.nwi'') 4 (Some ''/p'') (Some ''/usr/bin/mpirun'')
       False None None None
     = ''#!/bin/bash'' @ [newline] @ ''cd /p;'' @ [newline] @ ''/usr/bin/mpirun -np 4 nwchem gs.nwi''"
  proof -
    from execution_line_form [OF ne, where np = 4 and cd_path = "Some ''/p''"
        and mpi_path = "Some ''/usr/bin/mpirun''" and remote = False and sb = None and mb = None
        and eb = None and p = "''/usr/bin/mpirun''"]
    obtain H X where
      h: "job_script_entries None 4 (Some ''/p'') (Some ''/usr/bin/mpirun'') False None None None
            = H @ append_if None @ (if False then [remote_job_script_last_line] else [])"
      and t: "assemable_job_cmd (Some ''nwchem gs.nwi'') 4 (Some ''/p'') (Some ''/usr/bin/mpirun'')
                False None None None
              = join_nl (H @ [X] @ append_if None @ (if False then [remote_job_script_last_line] else []))"
      and x: "(1::int) < 4 \<and> Some ''/usr/bin/mpirun'' = Some ''/usr/bin/mpirun''
                \<and> ''/usr/bin/mpirun'' \<noteq> [] \<longrightarrow>
              X = ''/usr/bin/mpirun'' @ '' -np '' @ fmt_d 4 @ '' '' @ ''nwchem gs.nwi''
              \<and> sublist ''/usr/bin/mpirun'' X \<and> sublist (''-np '' @ fmt_d 4) X"
      by blast
    from h have H: "H = [''#!/bin/bash'', ''cd /p;'']" by (simp add: e0)
    from x have X: "X = ''/usr/bin/mpirun -np 4 nwchem gs.nwi''" by (simp add: fmt_d_4)
    from t show ?thesis unfolding H X
      by (simp only: join_nl_3 append_if.simps if_False append_Nil2 append.simps)
  qed
  have 2: "assemable_job_cmd (Some ''nwchem gs.nwi'') 1 (Some ''/p'') (Some ''/usr/bin/mpirun'')
       False None None None
     = ''#!/bin/bash'' @ [newline] @ ''cd /p;'' @ [newline]
         @ ''bash -c 'echo $$;  nwchem gs.nwi'' @ [CHR 0x27]"
    and 3: "\<not> sublist ''mpirun'' (''bash -c 'echo $$;  nwchem gs.nwi'' @ [CHR 0x27])"
  proof -
    from execution_line_form [OF ne, where np = 1 and cd_path = "Some ''/p''"
        and mpi_path = "Some ''/usr/bin/mpirun''" and remote = False and sb = None and mb = None
        and eb = None]
    obtain H X where
      h: "job_script_entries None 1 (Some ''/p'') (Some ''/usr/bin/mpirun'') False None None None
            = H @ append_if None @ (if False then [remote_job_script_last_line] else [])"
      and t: "assemable_job_cmd (Some ''nwchem gs.nwi'') 1 (Some ''/p'') (Some ''/usr/bin/mpirun'')
                False None None None
              = join_nl (H @ [X] @ append_if None @ (if False then [remote_job_script_last_line] else []))"
      and x: "(1::int) \<le> 1 \<longrightarrow>
              X = ''bash -c 'echo $$;  '' @ ''nwchem gs.nwi'' @ [CHR 0x27]
              \<and> (sublist ''mpirun'' X \<longleftrightarrow> sublist ''mpirun'' ''nwchem gs.nwi'')"
      by blast
    from h have H: "H = [''#!/bin/bash'', ''cd /p;'']" by (simp add: e0)
    have le: "(1::int) \<le> 1" by simp
    from x le have X0: "X = ''bash -c 'echo $$;  '' @ ''nwchem gs.nwi'' @ [CHR 0x27]"
      and s: "sublist ''mpirun'' X \<longleftrightarrow> sublist ''mpirun'' ''nwchem gs.nwi''"
      by blast+
    from X0 have X: "X = ''bash -c 'echo $$;  nwchem gs.nwi'' @ [CHR 0x27]" by simp
    from t show "assemable_job_cmd (Some ''nwchem gs.nwi'') 1 (Some ''/p'') (Some ''/usr/bin/mpirun'')
       False None None None
     = ''#!/bin/bash'' @ [newline] @ ''cd /p;'' @ [newline]
         @ ''bash -c 'echo $$;  nwchem gs.nwi'' @ [CHR 0x27]"
      unfolding H X by (simp only: join_nl_3 append_if.simps if_False append_Nil2 append.simps)
    from s no_mpirun_in_cmd
    show "\<not> sublist ''mpirun'' (''bash -c 'echo $$;  nwchem gs.nwi'' @ [CHR 0x27])"
      unfolding X by blast
  qed
  from 1 2 3 show ?thesis by (intro conjI)
qed

text \<open>
  The claim as worded (with one process the execution line contains no launcher token)
  fails for a command that names the launcher itself: the command is wrapped as it is.
\<close>

theorem execution_line_launcher_counterexample:
  "job_script_entries (Some ''mpirun nwchem gs.nwi'') 1 (Some ''/p'') None False None None None
     = [''#!/bin/bash'', ''cd /p;'', ''bash -c 'echo $$;  mpirun nwchem gs.nwi'' @ [CHR 0x27]]
   \<and> execution_line (Some ''mpirun nwchem gs.nwi'') 1 None
     = [''bash -c 'echo $$;  mpirun nwchem gs.nwi'' @ [CHR 0x27]]
   \<and> sublist (launcher None) (''bash -c 'echo $$;  mpirun nwchem gs.nwi'' @ [CHR 0x27])"
proof (intro conjI)
  show "job_script_entries (Some ''mpirun nwchem gs.nwi'') 1 (Some ''/p'') None False None None None
     = [''#!/bin/bash'', ''cd /p;'', ''bash -c 'echo $$;  mpirun nwchem gs.nwi'' @ [CHR 0x27]]"
    by (simp add: job_script_entries_def job_script_first_line_def)
  show "execution_line (Some ''mpirun nwchem gs.nwi'') 1 None
     = [''bash -c 'echo $$;  mpirun nwchem gs.nwi'' @ [CHR 0x27]]" by simp
  have "sublist ''mpirun'' (''bash -c 'echo $$;  '' @ ''mpirun'' @ ('' nwchem gs.nwi'' @ [CHR 0x27]))"
    by (rule sublist_appendI)
  then show "sublist (launcher None) (''bash -c 'echo $$;  mpirun nwchem gs.nwi'' @ [CHR 0x27])"
    by simp
qed

text \<open>
  Claim C10, as the code has it. With more than one process and no launcher path (absent
  or empty), and any working directory, blocks and remote flag: for a non-empty command
  the entry the builder writes for it is exactly \<^verbatim>\<open>mpirun -np <count> <command>\<close>, in its
  place after the head \<open>H\<close> of the script and before the extra block and the sentinel; for
  an absent or empty command the builder writes no entry, and the script is the one built
  without a command.
\<close>

theorem mpirun_fallback:
  assumes np: "1 < np" and mp: "\<not> truthy mpi_path"
  shows "\<exists>H.
      job_script_entries None np cd_path mpi_path remote sb mb eb
        = H @ append_if eb @ (if remote then [remote_job_script_last_line] else [])
    \<and> (engine_cmd = Some c \<and> c \<noteq> [] \<longrightarrow>
          job_script_entries engine_cmd np cd_path mpi_path remote sb mb eb
            = H @ [''mpirun -np '' @ fmt_d np @ '' '' @ c]
                @ append_if eb @ (if remote then [remote_job_script_last_line] else [])
          \<and> assemable_job_cmd engine_cmd np cd_path mpi_path remote sb mb eb
            = join_nl (H @ [''mpirun -np '' @ fmt_d np @ '' '' @ c]
                         @ append_if eb @ (if remote then [remote_job_script_last_line] else [])))
    \<and> (\<not> truthy engine_cmd \<longrightarrow>
          job_script_entries engine_cmd np cd_path mpi_path remote sb mb eb
            = job_script_entries None np cd_path mpi_path remote sb mb eb)"
proof -
  let ?T = "append_if eb @ (if remote then [remote_job_script_last_line] else [])"
  from entries_with_command [of np cd_path mpi_path remote sb mb eb]
  obtain H where H: "\<And>cmd. job_script_entries cmd np cd_path mpi_path remote sb mb eb
                       = H @ execution_line cmd np mpi_path @ ?T"
    by blast
  from mp have l: "launcher mpi_path = ''mpirun''" by (rule launcher_fallback)
  have 1: "job_script_entries None np cd_path mpi_path remote sb mb eb = H @ ?T"
    using H [of None] by simp
  have 2: "engine_cmd = Some c \<and> c \<noteq> [] \<longrightarrow>
          job_script_entries engine_cmd np cd_path mpi_path remote sb mb eb
            = H @ [''mpirun -np '' @ fmt_d np @ '' '' @ c] @ ?T
          \<and> assemable_job_cmd engine_cmd np cd_path mpi_path remote sb mb eb
            = join_nl (H @ [''mpirun -np '' @ fmt_d np @ '' '' @ c] @ ?T)"
  proof (intro impI)
    assume a: "engine_cmd = Some c \<and> c \<noteq> []"
    with np have "execution_line engine_cmd np mpi_path = [''mpirun -np '' @ fmt_d np @ '' '' @ c]"
      by (simp add: l)
    with H [of engine_cmd]
    have e: "job_script_entries engine_cmd np cd_path mpi_path remote sb mb eb
            = H @ [''mpirun -np '' @ fmt_d np @ '' '' @ c] @ ?T" by simp
    then show "job_script_entries engine_cmd np cd_path mpi_path remote sb mb eb
            = H @ [''mpirun -np '' @ fmt_d np @ '' '' @ c] @ ?T
          \<and> assemable_job_cmd engine_cmd np cd_path mpi_path remote sb mb eb
            = join_nl (H @ [''mpirun -np '' @ fmt_d np @ '' '' @ c] @ ?T)"
      unfolding assemable_job_cmd_def by (simp only: e)
  qed
  have 3: "\<not> truthy engine_cmd \<longrightarrow>
          job_script_entries engine_cmd np cd_path mpi_path remote sb mb eb
            = job_script_entries None np cd_path mpi_path remote sb mb eb"
  proof (intro impI)
    assume "\<not> truthy engine_cmd"
    then have "execution_line engine_cmd np mpi_path = []" by (cases engine_cmd) auto
    with H [of engine_cmd] 1 show "job_script_entries engine_cmd np cd_path mpi_path remote sb mb eb
            = job_script_entries None np cd_path mpi_path remote sb mb eb" by simp
  qed
  from 1 2 3 show ?thesis by blast
qed

text \<open>
  A remote call with an empty launcher path, a module block and a working directory.
\<close>

theorem mpirun_fallback_witness:
  "assemable_job_cmd (Some ''nwchem gs.nwi'') 4 (Some ''/r/p'') (Some []) True
       None (Some ''module load nwchem'') None
     = ''#!/bin/bash'' @ [newline] @ ''module load nwchem'' @ [newline] @ ''cd /r/p;'' @ [newline]
         @ ''mpirun -np 4 nwchem gs.nwi'' @ [newline] @ ''touch Done''
   \<and> job_script_entries None 4 (Some ''/r/p'') (Some []) True None (Some ''module load nwchem'') None
     = [''#!/bin/bash'', ''module load nwchem'', ''cd /r/p;'', ''touch Done'']"
proof -
  have np: "(1::int) < 4" by simp
  have mp: "\<not> truthy (Some [])" by simp
  have e0: "job_script_entries None 4 (Some ''/r/p'') (Some []) True None
              (Some ''module load nwchem'') None
            = [''#!/bin/bash'', ''module load nwchem'', ''cd /r/p;''] @ [''touch Done'']"
    by (simp add: job_script_entries_def job_script_first_line_def remote_job_script_last_line_def)
  from mpirun_fallback [OF np mp, where cd_path = "Some ''/r/p''" and remote = True and sb = None
      and mb = "Some ''module load nwchem''" and eb = None
      and engine_cmd = "Some ''nwchem gs.nwi''" and c = "''nwchem gs.nwi''"]
  obtain H where
    h: "job_script_entries None 4 (Some ''/r/p'') (Some []) True None (Some ''module load nwchem'') None
          = H @ append_if None @ (if True then [remote_job_script_last_line] else [])"
    and t: "Some ''nwchem gs.nwi'' = Some ''nwchem gs.nwi'' \<and> ''nwchem gs.nwi'' \<noteq> [] \<longrightarrow>
        job_script_entries (Some ''nwchem gs.nwi'') 4 (Some ''/r/p'') (Some []) True None
            (Some ''module load nwchem'') None
          = H @ [''mpirun -np '' @ fmt_d 4 @ '' '' @ ''nwchem gs.nwi'']
              @ append_if None @ (if True then [remote_job_script_last_line] else [])
        \<and> assemable_job_cmd (Some ''nwchem gs.nwi'') 4 (Some ''/r/p'') (Some []) True None
            (Some ''module load nwchem'') None
          = join_nl (H @ [''mpirun -np '' @ fmt_d 4 @ '' '' @ ''nwchem gs.nwi'']
              @ append_if None @ (if True then [remote_job_script_last_line] else []))"
    by blast
  from h have H: "H = [''#!/bin/bash'', ''module load nwchem'', ''cd /r/p;'']"
    unfolding e0 by (simp add: remote_job_script_last_line_def)
  from t have "assemable_job_cmd (Some ''nwchem gs.nwi'') 4 (Some ''/r/p'') (Some []) True None
            (Some ''module load nwchem'') None
          = join_nl ([''#!/bin/bash'', ''module load nwchem'', ''cd /r/p;'']
              @ [''mpirun -np 4 nwchem gs.nwi''] @ [''touch Done''])"
    unfolding H by (simp add: fmt_d_4 remote_job_script_last_line_def del: join_nl.simps)
  then have 1: "assemable_job_cmd (Some ''nwchem gs.nwi'') 4 (Some ''/r/p'') (Some []) True
       None (Some ''module load nwchem'') None
     = ''#!/bin/bash'' @ [newline] @ ''module load nwchem'' @ [newline] @ ''cd /r/p;'' @ [newline]
         @ ''mpirun -np 4 nwchem gs.nwi'' @ [newline] @ ''touch Done''"
    by (simp only: append.simps join_nl_5)
  from e0 have 2: "job_script_entries None 4 (Some ''/r/p'') (Some []) True None
       (Some ''module load nwchem'') None
     = [''#!/bin/bash'', ''module load nwchem'', ''cd /r/p;'', ''touch Done'']" by simp
  from 1 2 show ?thesis by (intro conjI)
qed

text \<open>
  The claim as worded (for every call with more than one process and no launcher path)
  fails for an empty or an absent command: the builder tests the command first
  (\<^verbatim>\<open>if engine_cmd:\<close>) and writes no execution line, so the script has no line
  \<^verbatim>\<open>mpirun -np 4 \<close>.
\<close>

theorem mpirun_fallback_counterexample:
  "assemable_job_cmd (Some []) 4 (Some ''/p'') None False None None None
     = ''#!/bin/bash'' @ [newline] @ ''cd /p;''
   \<and> ''mpirun -np 4 '' \<notin> set (job_script_entries (Some []) 4 (Some ''/p'') None False None None None)
   \<and> assemable_job_cmd None 4 None None False None None None = ''#!/bin/bash''"
  by (simp add: assemable_job_cmd_def job_script_entries_def job_script_first_line_def)


section \<open>Python values, dictionaries and errors\<close>

type_synonym addr = nat

datatype pyval = PyNone | PyBool bool | PyInt int | PyFloat int int | PyStr string | PyRef addr

type_synonym items = "(string \<times> pyval) list"

fun dict_get :: "items \<Rightarrow> string \<Rightarrow> pyval \<Rightarrow> pyval" where
  "dict_get d k dflt = (case map_of d k of None \<Rightarrow> dflt | Some v \<Rightarrow> v)"

datatype input_problem = UnknownBasisType pyval | UnknownXc | UnknownBasis | MoOutOfRange

datatype error =
    TaskFailed string
  | InputError input_problem
  | KeyError string
  | TypeError
  | AttributeError
  | ValueError
  | IndexError
  | UnboundLocalError
  | RecursionError
  | NoSuchObject
  | EngineError string

fun is_TaskSetupError :: "error \<Rightarrow> bool" where
  "is_TaskSetupError (InputError _) = True"
| "is_TaskSetupError _ = False"

record task_state =
  input_created :: bool
  input_saved :: bool

record TaskInfo =
  name :: string
  engine :: string
  path :: string
  param :: addr
  engine_param :: addr
  input :: addr
  ti_output :: addr
  local :: items
  network :: items
  state :: task_state

record network_login =
  hostname :: string
  username :: string
  password :: string
  port :: int
  login_remote_path :: string

type_synonym lsconfig = "(string \<times> (string \<times> string) list) list"

record task_class =
  cls_id :: string
  BASH_filename :: string

record task =
  lsconfig :: lsconfig
  task_info :: TaskInfo
  task_name :: string
  dependent_tasks :: "TaskInfo list option"
  directory :: string
  project_dir :: string
  engine_name :: string
  engine_path :: string
  mpi_path :: string
  python_path :: string
  submit_network :: "network_login option"


text \<open>
  The body of class \<^verbatim>\<open>Task\<close> runs once, when the module is imported:
  \<^verbatim>\<open>id = str(uuid.uuid4())\<close> and \<^verbatim>\<open>BASH_filename = f'ls_job_script_{id}.sh'\<close> are class
  attributes. The argument is the identifier \<^verbatim>\<open>uuid4\<close> drew at that moment.
\<close>

definition Task_class :: "string \<Rightarrow> task_class" where
  "Task_class uuid4 = \<lparr>cls_id = uuid4, BASH_filename = ''ls_job_script_'' @ uuid4 @ ''.sh''\<rparr>"

text \<open>
  \<^verbatim>\<open>self.id\<close> and \<^verbatim>\<open>self.BASH_filename\<close>: no method assigns these attributes on an instance,
  so the lookup on any instance (of \<^verbatim>\<open>Task\<close> or of a subclass) finds the class attribute.
\<close>

definition get_id :: "task_class \<Rightarrow> 'a task_scheme \<Rightarrow> string" where
  "get_id cls self = cls_id cls"

definition get_BASH_filename :: "task_class \<Rightarrow> 'a task_scheme \<Rightarrow> string" where
  "get_BASH_filename cls self = BASH_filename cls"

text \<open>\<^verbatim>\<open>lsconfig[section]\<close>, a \<^verbatim>\<open>KeyError\<close> when the section is missing.\<close>

definition config_section :: "lsconfig \<Rightarrow> string \<Rightarrow> error + (string \<times> string) list" where
  "config_section cfg s = (case map_of cfg s of None \<Rightarrow> Inl (KeyError s) | Some sec \<Rightarrow> Inr sec)"

definition section_get :: "(string \<times> string) list \<Rightarrow> string \<Rightarrow> string \<Rightarrow> string" where
  "section_get sec k dflt = (case map_of sec k of None \<Rightarrow> dflt | Some v \<Rightarrow> v)"

text \<open>\<^verbatim>\<open>Task.__init__\<close>\<close>

definition Task_init :: "lsconfig \<Rightarrow> TaskInfo \<Rightarrow> TaskInfo list option \<Rightarrow> error + task" where
  "Task_init cfg ti deps =
     (case config_section cfg ''engine'' of Inl e \<Rightarrow> Inl e | Inr eng \<Rightarrow>
     (case config_section cfg ''mpi'' of Inl e \<Rightarrow> Inl e | Inr mpi \<Rightarrow>
     (case config_section cfg ''programs'' of Inl e \<Rightarrow> Inl e | Inr progs \<Rightarrow>
        Inr \<lparr>lsconfig = cfg,
             task_info = ti,
             task_name = name ti,
             dependent_tasks = deps,
             directory = path ti,
             project_dir = path ti,
             engine_name = engine ti,
             engine_path = section_get eng (engine ti) (engine ti),
             mpi_path = section_get mpi (engine ti @ ''_mpi'') (section_get mpi ''mpirun'' ''mpirun''),
             python_path = section_get progs ''python'' ''python'',
             submit_network = None\<rparr>)))"

text \<open>\<^verbatim>\<open>connect_to_network\<close> sets the attribute \<^verbatim>\<open>submit_network\<close>.\<close>

definition connect_to_network :: "network_login \<Rightarrow> 'a task_scheme \<Rightarrow> 'a task_scheme" where
  "connect_to_network login self = self\<lparr>submit_network := Some login\<rparr>"

text \<open>
  \<^verbatim>\<open>create_input\<close> and \<^verbatim>\<open>save_input\<close>. The abstract methods \<^verbatim>\<open>create_template\<close> and
  \<^verbatim>\<open>write_input\<close> are arguments: a method takes the task and gives the task as it leaves
  it, with the exception it raised, if any. An exception of the method passes through the
  caller, which has no handler.
\<close>

definition set_input_created :: "'a task_scheme \<Rightarrow> 'a task_scheme" where
  "set_input_created self =
     self\<lparr>task_info := (task_info self)\<lparr>state := (state (task_info self))\<lparr>input_created := True\<rparr>\<rparr>\<rparr>"

definition set_input_saved :: "'a task_scheme \<Rightarrow> 'a task_scheme" where
  "set_input_saved self =
     self\<lparr>task_info := (task_info self)\<lparr>state := (state (task_info self))\<lparr>input_saved := True\<rparr>\<rparr>\<rparr>"

definition create_input ::
  "('a task_scheme \<Rightarrow> error option \<times> 'a task_scheme) \<Rightarrow> 'a task_scheme
     \<Rightarrow> error option \<times> 'a task_scheme" where
  "create_input create_template self = create_template (set_input_created self)"

definition save_input ::
  "('a task_scheme \<Rightarrow> error option \<times> 'a task_scheme) \<Rightarrow> 'a task_scheme
     \<Rightarrow> error option \<times> 'a task_scheme" where
  "save_input write_input self = write_input (set_input_saved self)"

text \<open>
  \<^verbatim>\<open>check_prerequisite(self, *_)\<close>: the arguments are ignored and the result is
  \<^verbatim>\<open>True\<close>. No class of the engine module overrides the method.
\<close>

definition check_prerequisite :: "'a task_scheme \<Rightarrow> pyval list \<Rightarrow> bool" where
  "check_prerequisite self args = True"

text \<open>\<^verbatim>\<open>check_output\<close>\<close>

definition check_output :: "'a task_scheme \<Rightarrow> error + bool" where
  "check_output self =
     (let check = (if submit_network self \<noteq> None
                   then dict_get (network (task_info self)) ''sub_returncode'' PyNone
                   else dict_get (local (task_info self)) ''returncode'' PyNone)
      in if check = PyNone then Inl (TaskFailed ''Job not completed.'') else Inr True)"

text \<open>
  The execution record \<^verbatim>\<open>check_output\<close> is about: the network record when a network
  submission exists, the local record otherwise; and its return code, if one is recorded
  (a key that is absent, or holds \<^verbatim>\<open>None\<close>, is no return code).
\<close>

definition selected_returncode :: "'a task_scheme \<Rightarrow> pyval option" where
  "selected_returncode self =
     (case submit_network self of
        Some _ \<Rightarrow> map_of (network (task_info self)) ''sub_returncode''
      | None \<Rightarrow> map_of (local (task_info self)) ''returncode'')"

definition has_returncode :: "'a task_scheme \<Rightarrow> bool" where
  "has_returncode self = (selected_returncode self \<noteq> None \<and> selected_returncode self \<noteq> Some PyNone)"

text \<open>\<^verbatim>\<open>write_job_script\<close>: the file the job script is written to.\<close>

definition bash_file :: "task_class \<Rightarrow> 'a task_scheme \<Rightarrow> string" where
  "bash_file cls self = directory self @ ''/'' @ get_BASH_filename cls self"


section \<open>The NWChem task table (\<^verbatim>\<open>nwchem_data\<close>, engines/nwchem/nwchem_task.py)\<close>

record task_data =
  inp :: string
  out_log :: string
  dir :: "string option"
  file_name :: "string option"
  req :: "string list option"
  check_list :: "string list option"
  spectra_file :: "string list option"
  spec_dir_path :: "string option"

datatype nwchem_entry = Entry task_data | Plain string

definition nwchem_check_list :: "string list" where
  "nwchem_check_list = [''Converged'', ''Fermi level:'', ''Total:'']"

fun nwchem_data :: "string \<Rightarrow> nwchem_entry option" where
  "nwchem_data k =
    (if k = ''ground_state'' then Some (Entry
       \<lparr>inp = ''nwchem/GS/gs.nwi'', out_log = ''nwchem/GS/gs.nwo'', dir = Some ''GS'',
        file_name = Some ''gs'', req = Some [''coordinate.xyz'', ''nwchem/restart''],
        check_list = Some nwchem_check_list, spectra_file = None, spec_dir_path = None\<rparr>)
     else if k = ''rt_tddft'' then Some (Entry
       \<lparr>inp = ''nwchem/TD_Delta/td.nwi'', out_log = ''td.nwo'', dir = None,
        file_name = Some ''td'', req = None,
        check_list = None, spectra_file = None, spec_dir_path = None\<rparr>)
     else if k = ''rt_tddft_delta'' then Some (Entry
       \<lparr>inp = ''nwchem/TD_Delta/td.nwi'', out_log = ''nwchem/TD_Delta/td.nwo'', dir = Some ''TD_Delta'',
        file_name = Some ''td'', req = Some [''coordinate.xyz'', ''nwchem/restart''],
        check_list = Some nwchem_check_list, spectra_file = None, spec_dir_path = None\<rparr>)
     else if k = ''rt_tddft_laser'' then Some (Entry
       \<lparr>inp = ''nwchem/TD_Laser/tdlaser.nwi'', out_log = ''nwchem/TD_Laser/tdlaser.nwo'',
        dir = Some ''TD_Laser'', file_name = Some ''tdlaser'',
        req = Some [''coordinate.xyz'', ''nwchem/restart''],
        check_list = Some nwchem_check_list, spectra_file = None, spec_dir_path = None\<rparr>)
     else if k = ''spectrum'' then Some (Entry
       \<lparr>inp = ''nwchem/TD_Delta/td.nwi'', out_log = ''nwchem/TD_Delta/td.nwo'', dir = Some ''spectrum'',
        file_name = None, req = Some [''nwchem/TD_Delta/td.nwo''],
        check_list = Some nwchem_check_list,
        spectra_file = Some [''nwchem/Spectrum/spec_x.dat'', ''nwchem/Spectrum/spec_y.dat'',
                             ''nwchem/Spectrum/spec_z.dat''],
        spec_dir_path = Some ''nwchem/Spectrum''\<rparr>)
     else if k = ''mo_population'' then Some (Entry
       \<lparr>inp = ''nwchem/TD_Delta/td.nwi'', out_log = ''nwchem/TD_Delta/td.nwo'',
        dir = Some ''mo_population'', file_name = None, req = Some [''nwchem/TD_Delta/td.nwo''],
        check_list = None, spectra_file = None, spec_dir_path = None\<rparr>)
     else if k = ''restart'' then Some (Plain ''nwchem/restart'')
     else None)"

declare nwchem_data.simps [simp del]

text \<open>The artifacts the table declares as required for a task name (its \<^verbatim>\<open>'req'\<close> list).\<close>

definition required_artifacts :: "string \<Rightarrow> string list" where
  "required_artifacts k =
     (case nwchem_data k of Some (Entry d) \<Rightarrow> (case req d of Some rs \<Rightarrow> rs | None \<Rightarrow> [])
      | _ \<Rightarrow> [])"

section \<open>Example values\<close>

definition example_lsconfig :: lsconfig where
  "example_lsconfig =
     [(''engine'', [(''nwchem'', ''/opt/nwchem/bin/nwchem'')]),
      (''mpi'', [(''mpirun'', ''/usr/bin/mpirun'')]),
      (''programs'', [])]"

definition example_gs_info :: TaskInfo where
  "example_gs_info =
     \<lparr>name = ''ground_state'', engine = ''nwchem'', path = ''/home/u/proj'',
      param = 0, engine_param = 1, input = 2, ti_output = 3,
      local = [], network = [],
      state = \<lparr>input_created = False, input_saved = False\<rparr>\<rparr>"

definition example_td_info :: TaskInfo where
  "example_td_info =
     \<lparr>name = ''rt_tddft'', engine = ''nwchem'', path = ''/home/u/proj'',
      param = 4, engine_param = 5, input = 6, ti_output = 7,
      local = [], network = [],
      state = \<lparr>input_created = False, input_saved = False\<rparr>\<rparr>"


section \<open>The base task: completion check, identity, setup flags, prerequisites\<close>

text \<open>
  Claim C5. The completion check raises \<^verbatim>\<open>TaskFailed("Job not completed.")\<close> exactly when
  the selected execution record has no return code, and returns \<^verbatim>\<open>True\<close> otherwise.
\<close>

theorem check_output_iff:
  "(check_output self = Inl (TaskFailed ''Job not completed.'') \<longleftrightarrow> \<not> has_returncode self)
   \<and> (check_output self = Inr True \<longleftrightarrow> has_returncode self)"
  by (cases "submit_network self")
     (auto simp: check_output_def has_returncode_def selected_returncode_def Let_def
           split: option.splits)

lemma example_gs_init:
  "Task_init example_lsconfig example_gs_info None =
     Inr \<lparr>lsconfig = example_lsconfig, task_info = example_gs_info, task_name = ''ground_state'',
          dependent_tasks = None, directory = ''/home/u/proj'', project_dir = ''/home/u/proj'',
          engine_name = ''nwchem'', engine_path = ''/opt/nwchem/bin/nwchem'',
          mpi_path = ''/usr/bin/mpirun'', python_path = ''python'', submit_network = None\<rparr>"
  by (simp add: Task_init_def config_section_def section_get_def example_lsconfig_def
      example_gs_info_def)

lemma example_td_init:
  "Task_init example_lsconfig example_td_info None =
     Inr \<lparr>lsconfig = example_lsconfig, task_info = example_td_info, task_name = ''rt_tddft'',
          dependent_tasks = None, directory = ''/home/u/proj'', project_dir = ''/home/u/proj'',
          engine_name = ''nwchem'', engine_path = ''/opt/nwchem/bin/nwchem'',
          mpi_path = ''/usr/bin/mpirun'', python_path = ''python'', submit_network = None\<rparr>"
  by (simp add: Task_init_def config_section_def section_get_def example_lsconfig_def
      example_td_info_def)

text \<open>
  Claim C8, as the code has it. The identifier and the job-script file name are made once,
  when the class is defined, and every instance reads them from the class: any two
  instances have the same identifier and the same file name
  \<^verbatim>\<open>ls_job_script_<id>.sh\<close>, and the lifecycle calls leave both as they are.
\<close>

theorem task_id_shared:
  "get_id cls t1 = get_id cls t2
   \<and> get_BASH_filename cls t1 = get_BASH_filename cls t2
   \<and> get_BASH_filename (Task_class u) t1 = ''ls_job_script_'' @ get_id (Task_class u) t1 @ ''.sh''
   \<and> get_id cls (snd (create_input ct t1)) = get_id cls t1
   \<and> get_id cls (snd (save_input wi t1)) = get_id cls t1
   \<and> get_id cls (connect_to_network login t1) = get_id cls t1"
  by (simp add: get_id_def get_BASH_filename_def Task_class_def)

text \<open>
  The claim as worded (distinct instances have distinct identifiers and distinct job-script
  file names) fails for a ground-state task and a time-propagation task of one project.
\<close>

theorem task_id_distinct_counterexample:
  "\<not> isl (Task_init example_lsconfig example_gs_info None)
   \<and> \<not> isl (Task_init example_lsconfig example_td_info None)
   \<and> projr (Task_init example_lsconfig example_gs_info None)
       \<noteq> projr (Task_init example_lsconfig example_td_info None)
   \<and> get_id (Task_class ''9f1c'') (projr (Task_init example_lsconfig example_gs_info None))
       = get_id (Task_class ''9f1c'') (projr (Task_init example_lsconfig example_td_info None))
   \<and> bash_file (Task_class ''9f1c'') (projr (Task_init example_lsconfig example_gs_info None))
       = bash_file (Task_class ''9f1c'') (projr (Task_init example_lsconfig example_td_info None))"
  unfolding example_gs_init example_td_init
  by (simp add: get_id_def bash_file_def get_BASH_filename_def)

text \<open>
  Claim C7 on the code: \<^verbatim>\<open>create_input\<close> sets \<^verbatim>\<open>input_created\<close> before it calls
  \<^verbatim>\<open>create_template\<close>, and \<^verbatim>\<open>save_input\<close> sets \<^verbatim>\<open>input_saved\<close> before it calls
  \<^verbatim>\<open>write_input\<close>. When the called method raises at once (leaving the task as it found it),
  the exception reaches the caller and the flag is set all the same.
\<close>

theorem setup_flags_set_on_failure:
  "create_input (\<lambda>s. (Some e, s)) self = (Some e, set_input_created self)
   \<and> input_created (state (task_info (snd (create_input (\<lambda>s. (Some e, s)) self))))
   \<and> save_input (\<lambda>s. (Some e, s)) self = (Some e, set_input_saved self)
   \<and> input_saved (state (task_info (snd (save_input (\<lambda>s. (Some e, s)) self))))"
  by (simp add: create_input_def save_input_def set_input_created_def set_input_saved_def)

text \<open>
  Claim C4 on the code: \<^verbatim>\<open>check_prerequisite\<close> reports success whatever the task and the
  substrate. For the ground-state task, whose table entry requires \<^verbatim>\<open>coordinate.xyz\<close> and
  \<^verbatim>\<open>nwchem/restart\<close>, it reports success also when no file is present at all.
\<close>

theorem check_prerequisite_always_succeeds:
  "check_prerequisite self args
   \<and> required_artifacts ''ground_state'' = [''coordinate.xyz'', ''nwchem/restart'']
   \<and> check_prerequisite (projr (Task_init example_lsconfig example_gs_info None)) [PyBool False]
   \<and> check_prerequisite (projr (Task_init example_lsconfig example_gs_info None)) [PyBool True]"
  by (simp add: check_prerequisite_def required_artifacts_def nwchem_data.simps)


section \<open>Ground-state parameters (\<^verbatim>\<open>format_gs_param\<close>, engines/nwchem/nwchem_task.py)\<close>

text \<open>
  The dictionary \<^verbatim>\<open>gs_input\<close> the function returns:
  \<^verbatim>\<open>{'dft': {'xc': .., 'convergence': {'energy': .., 'density': ..}, 'iterations': ..},
    'basis': ..}\<close>.
\<close>

record gs_input =
  dft_xc :: pyval
  dft_convergence_energy :: pyval
  dft_convergence_density :: pyval
  dft_iterations :: pyval
  basis :: pyval

text \<open>
  The table \<^verbatim>\<open>nwchem_gs_param_data\<close> is imported from a module outside these sources; its
  accepted names, \<^verbatim>\<open>param_data['xc']['values']\<close> and \<^verbatim>\<open>param_data['basis']['values']\<close>,
  are the first two arguments. \<^verbatim>\<open>x not in values\<close> on a list of strings holds for every
  value that is not one of these strings. The defaults \<^verbatim>\<open>1e-5\<close> and \<^verbatim>\<open>1e-7\<close> are
  written \<open>PyFloat 1 (-5)\<close> and \<open>PyFloat 1 (-7)\<close>.
\<close>

definition format_gs_param :: "string list \<Rightarrow> string list \<Rightarrow> items \<Rightarrow> error + gs_input" where
  "format_gs_param xc_values basis_values gen_dict =
     (let basis_type = dict_get gen_dict ''basis_type'' PyNone in
      if basis_type \<noteq> PyStr ''gaussian'' then Inl (InputError (UnknownBasisType basis_type))
      else
        let xc = dict_get gen_dict ''xc'' PyNone in
        if xc \<notin> set (map PyStr xc_values) then Inl (InputError UnknownXc)
        else
          let basis = dict_get gen_dict ''basis'' PyNone in
          if basis \<notin> set (map PyStr basis_values) then Inl (InputError UnknownBasis)
          else
            Inr \<lparr>dft_xc = xc,
                 dft_convergence_energy = dict_get gen_dict ''energy_conv'' (PyFloat 1 (- 5)),
                 dft_convergence_density = dict_get gen_dict ''density_conv'' (PyFloat 1 (- 7)),
                 dft_iterations = dict_get gen_dict ''max_iter'' PyNone,
                 basis = basis\<rparr>)"

text \<open>The parameter values the engine accepts.\<close>

definition gs_param_accepted :: "string list \<Rightarrow> string list \<Rightarrow> items \<Rightarrow> bool" where
  "gs_param_accepted xc_values basis_values gen_dict =
     (dict_get gen_dict ''basis_type'' PyNone = PyStr ''gaussian''
      \<and> dict_get gen_dict ''xc'' PyNone \<in> set (map PyStr xc_values)
      \<and> dict_get gen_dict ''basis'' PyNone \<in> set (map PyStr basis_values))"

definition example_gs_param :: items where
  "example_gs_param =
     [(''basis_type'', PyStr ''gaussian''), (''xc'', PyStr ''PBE0''), (''basis'', PyStr ''6-31G''),
      (''max_iter'', PyInt 300)]"

lemma format_gs_param_rejects:
  "\<not> gs_param_accepted xv bv d \<Longrightarrow> \<exists>p. format_gs_param xv bv d = Inl (InputError p)"
  by (auto simp: gs_param_accepted_def format_gs_param_def Let_def)

lemma format_gs_param_accepts:
  "gs_param_accepted xv bv d \<Longrightarrow> \<exists>g. format_gs_param xv bv d = Inr g"
  by (auto simp: gs_param_accepted_def format_gs_param_def Let_def)

text \<open>
  Claim C6. \<^verbatim>\<open>format_gs_param\<close> raises \<^verbatim>\<open>InputError\<close>, a \<^verbatim>\<open>TaskSetupError\<close>, exactly when
  the basis type is not \<^verbatim>\<open>'gaussian'\<close>, or the functional is not an accepted one, or the
  basis is not an accepted one; it raises nothing else, and for accepted values it returns
  the engine parameters.
\<close>

theorem format_gs_param_validation:
  "((\<exists>p. format_gs_param xv bv d = Inl (InputError p)) \<longleftrightarrow> \<not> gs_param_accepted xv bv d)
   \<and> ((\<exists>g. format_gs_param xv bv d = Inr g) \<longleftrightarrow> gs_param_accepted xv bv d)
   \<and> (\<forall>e. format_gs_param xv bv d = Inl e \<longrightarrow> is_TaskSetupError e)"
proof (intro conjI allI impI)
  show "(\<exists>p. format_gs_param xv bv d = Inl (InputError p)) \<longleftrightarrow> \<not> gs_param_accepted xv bv d"
    using format_gs_param_rejects [of xv bv d] format_gs_param_accepts [of xv bv d] by auto
  show "(\<exists>g. format_gs_param xv bv d = Inr g) \<longleftrightarrow> gs_param_accepted xv bv d"
    using format_gs_param_rejects [of xv bv d] format_gs_param_accepts [of xv bv d]
    by (cases "gs_param_accepted xv bv d") auto
next
  fix e assume "format_gs_param xv bv d = Inl e"
  then show "is_TaskSetupError e"
    by (auto simp: format_gs_param_def Let_def split: if_splits)
qed

theorem format_gs_param_validation_witness:
  "format_gs_param [''PBE0'', ''B3LYP''] [''6-31G''] example_gs_param
     = Inr \<lparr>dft_xc = PyStr ''PBE0'', dft_convergence_energy = PyFloat 1 (- 5),
            dft_convergence_density = PyFloat 1 (- 7), dft_iterations = PyInt 300,
            basis = PyStr ''6-31G''\<rparr>
   \<and> format_gs_param [''B3LYP''] [''6-31G''] example_gs_param = Inl (InputError UnknownXc)
   \<and> is_TaskSetupError (InputError UnknownXc)"
proof -
  have 1: "format_gs_param [''PBE0'', ''B3LYP''] [''6-31G''] example_gs_param
     = Inr \<lparr>dft_xc = PyStr ''PBE0'', dft_convergence_energy = PyFloat 1 (- 5),
            dft_convergence_density = PyFloat 1 (- 7), dft_iterations = PyInt 300,
            basis = PyStr ''6-31G''\<rparr>"
    by (simp add: format_gs_param_def example_gs_param_def)
  have 2: "format_gs_param [''B3LYP''] [''6-31G''] example_gs_param = Inl (InputError UnknownXc)"
    by (simp add: format_gs_param_def example_gs_param_def)
  from format_gs_param_validation [of "[''B3LYP'']" "[''6-31G'']" example_gs_param] 2
  have 3: "is_TaskSetupError (InputError UnknownXc)" by blast
  from 1 2 3 show ?thesis by (intro conjI)
qed


section \<open>Decimal numerals are read back\<close>

definition digit_val :: "char \<Rightarrow> nat" where
  "digit_val c = of_char c - 48"

definition undec :: "string \<Rightarrow> nat" where
  "undec s = foldl (\<lambda>a c. 10 * a + digit_val c) 0 s"

lemma digit_val_all: "\<forall>d \<in> set [0..<10]. digit_val (digit_char d) = d"
  by code_simp

lemma digit_val_digit_char: "d < 10 \<Longrightarrow> digit_val (digit_char d) = d"
  using digit_val_all by simp

lemma undec_dec: "undec (dec n) = n"
proof (induction n rule: dec.induct)
  case (1 n)
  show ?case
  proof (cases "n < 10")
    case True
    then show ?thesis
      by (subst dec.simps) (simp add: undec_def digit_val_digit_char)
  next
    case False
    with 1 have "undec (dec (n div 10)) = n div 10" by simp
    with False show ?thesis
      by (subst dec.simps) (simp add: undec_def digit_val_digit_char)
  qed
qed

lemma dec_inj: "dec n = dec m \<Longrightarrow> n = m"
  by (metis undec_dec)


section \<open>Task directories\<close>

text \<open>
  A path is the string \<^verbatim>\<open>str(path)\<close>; the file system is the list of the directories that
  exist.

  Modelled from the spec: \<^verbatim>\<open>get_new_directory\<close> (imported from
  \<^verbatim>\<open>litesoph.common.utils\<close>, which is not among the sources). The spec gives the naming
  convention \<^verbatim>\<open><project>/<engine>/<task_type>[_<n>]\<close>, "where \<^verbatim>\<open>_<n>\<close> is appended only when
  the canonical name already exists, \<^verbatim>\<open>n\<close> starting at the next unused integer": the
  canonical path when no directory of that name exists, else the sibling with the least
  \<open>n \<ge> 1\<close> that names no existing directory. Among \<open>length fs + 1\<close> sibling names one is
  unused, so the search is bounded. The function names a directory; it creates none.
\<close>

definition sibling :: "string \<Rightarrow> nat \<Rightarrow> string" where
  "sibling p n = p @ ''_'' @ dec n"

definition sibling_numbers :: "string list \<Rightarrow> nat list" where
  "sibling_numbers fs = [1 ..< length fs + 2]"

definition get_new_directory :: "string list \<Rightarrow> string \<Rightarrow> string option" where
  "get_new_directory fs p =
     (if p \<notin> set fs then Some p
      else map_option (sibling p) (find (\<lambda>n. sibling p n \<notin> set fs) (sibling_numbers fs)))"

text \<open>
  \<^verbatim>\<open>create_engine\<close>, lines 87 and 88: \<^verbatim>\<open>task_dir = self.project_dir / 'nwchem' /
  self.task_name\<close> and \<^verbatim>\<open>self.task_dir = get_new_directory(task_dir)\<close>. A path is the
  string \<^verbatim>\<open>pathlib\<close> prints for it; the project directory is taken absolute and in
  \<^verbatim>\<open>pathlib\<close>'s normal form (no trailing slash, and not the root), and the task name is one
  path component, so that \<^verbatim>\<open>/\<close> on paths is the concatenation with a slash.
\<close>

definition canonical_task_dir :: "string \<Rightarrow> string \<Rightarrow> string" where
  "canonical_task_dir proj tname = proj @ ''/'' @ ''nwchem'' @ ''/'' @ tname"

definition assign_task_dir :: "string list \<Rightarrow> string \<Rightarrow> string \<Rightarrow> string option" where
  "assign_task_dir fs proj tname = get_new_directory fs (canonical_task_dir proj tname)"

text \<open>
  \<^verbatim>\<open>write_input\<close> creates the task directory when it does not exist
  (\<^verbatim>\<open>create_directory\<close>, that is \<^verbatim>\<open>os.makedirs\<close>, which creates the missing parents too).
\<close>

fun parents :: "string \<Rightarrow> string \<Rightarrow> string list" where
  "parents seen [] = []"
| "parents seen (c # cs) =
     (if c = CHR ''/'' \<and> seen \<noteq> [] then [seen] else []) @ parents (seen @ [c]) cs"

definition makedirs :: "string list \<Rightarrow> string \<Rightarrow> string list" where
  "makedirs fs d = d # filter (\<lambda>q. q \<notin> set fs) (parents [] d) @ fs"

definition write_input_dir :: "string list \<Rightarrow> string \<Rightarrow> string list" where
  "write_input_dir fs task_dir = (if task_dir \<notin> set fs then makedirs fs task_dir else fs)"

text \<open>
  A run that instantiates one task per name of a list, in order, in one project. In
  \<open>run_with_inputs\<close> the input of each task is written before the next task is
  instantiated; in \<open>run_instantiate_only\<close> no input is written in between, so the file
  system stays as it was. Both give the directories assigned, in order.
\<close>

fun run_with_inputs :: "string list \<Rightarrow> string \<Rightarrow> string list \<Rightarrow> string list option" where
  "run_with_inputs fs proj [] = Some []"
| "run_with_inputs fs proj (t # ts) =
     (case assign_task_dir fs proj t of None \<Rightarrow> None
      | Some d \<Rightarrow> map_option ((#) d) (run_with_inputs (write_input_dir fs d) proj ts))"

fun run_instantiate_only :: "string list \<Rightarrow> string \<Rightarrow> string list \<Rightarrow> string list option" where
  "run_instantiate_only fs proj [] = Some []"
| "run_instantiate_only fs proj (t # ts) =
     (case assign_task_dir fs proj t of None \<Rightarrow> None
      | Some d \<Rightarrow> map_option ((#) d) (run_instantiate_only fs proj ts))"

lemma sibling_inj: "sibling p n = sibling p m \<Longrightarrow> n = m"
  by (simp add: sibling_def dec_inj)

lemma sibling_not_canonical: "sibling p n \<noteq> p"
  by (simp add: sibling_def)

lemma find_Some_holds: "find P xs = Some x \<Longrightarrow> P x \<and> x \<in> set xs"
  by (induction xs) (auto split: if_splits)

lemma set_sibling_numbers: "set (sibling_numbers fs) = {1 ..< length fs + 2}"
  unfolding sibling_numbers_def by (simp only: set_upt)

lemma unused_sibling_exists:
  "\<exists>n \<in> set (sibling_numbers fs). sibling p n \<notin> set fs"
proof (rule ccontr)
  assume "\<not> (\<exists>n \<in> set (sibling_numbers fs). sibling p n \<notin> set fs)"
  then have sub: "sibling p ` {1 ..< length fs + 2} \<subseteq> set fs"
    unfolding set_sibling_numbers by blast
  have "inj_on (sibling p) {1 ..< length fs + 2}"
    by (rule inj_onI) (rule sibling_inj)
  then have "card (sibling p ` {1 ..< length fs + 2}) = card {1 ..< length fs + 2}"
    by (rule card_image)
  then have "card (sibling p ` {1 ..< length fs + 2}) = length fs + 1" by simp
  moreover have "card (sibling p ` {1 ..< length fs + 2}) \<le> card (set fs)"
    using sub by (intro card_mono) auto
  moreover have "card (set fs) \<le> length fs" by (rule card_length)
  ultimately show False by simp
qed

lemma get_new_directory_total: "\<exists>d. get_new_directory fs p = Some d"
proof (cases "p \<in> set fs")
  case False
  then show ?thesis by (simp add: get_new_directory_def)
next
  case True
  from unused_sibling_exists [of fs p]
  have "find (\<lambda>n. sibling p n \<notin> set fs) (sibling_numbers fs) \<noteq> None"
    by (simp only: find_None_iff) blast
  with True show ?thesis by (auto simp: get_new_directory_def)
qed

lemma get_new_directory_fresh: "get_new_directory fs p = Some d \<Longrightarrow> d \<notin> set fs"
  by (auto simp: get_new_directory_def split: if_splits dest: find_Some_holds)

lemma get_new_directory_canonical:
  "p \<notin> set fs \<Longrightarrow> get_new_directory fs p = Some p"
  by (simp add: get_new_directory_def)

lemma get_new_directory_sibling:
  assumes "p \<in> set fs" "get_new_directory fs p = Some d"
  shows "d \<noteq> p \<and> (\<exists>n\<ge>1. d = sibling p n)"
proof -
  from assms obtain n where n: "find (\<lambda>n. sibling p n \<notin> set fs) (sibling_numbers fs) = Some n"
    and d: "d = sibling p n"
    by (auto simp: get_new_directory_def)
  from find_Some_holds [OF n] have "1 \<le> n" unfolding set_sibling_numbers by simp
  with d sibling_not_canonical [of p n] show ?thesis by auto
qed

lemma write_input_dir_creates: "d \<in> set (write_input_dir fs d)"
  by (simp add: write_input_dir_def makedirs_def)

lemma write_input_dir_keeps: "set fs \<subseteq> set (write_input_dir fs d)"
  by (auto simp: write_input_dir_def makedirs_def)

lemma run_with_inputs_total: "\<exists>ds. run_with_inputs fs proj ts = Some ds"
proof (induction ts arbitrary: fs)
  case Nil
  show ?case by simp
next
  case (Cons t ts)
  obtain d where d: "assign_task_dir fs proj t = Some d"
    unfolding assign_task_dir_def using get_new_directory_total by blast
  from Cons [of "write_input_dir fs d"] obtain ds
    where "run_with_inputs (write_input_dir fs d) proj ts = Some ds" by blast
  with d show ?case by simp
qed

lemma run_with_inputs_fresh:
  "run_with_inputs fs proj ts = Some ds \<Longrightarrow> set ds \<inter> set fs = {}"
proof (induction ts arbitrary: fs ds)
  case Nil
  then show ?case by simp
next
  case (Cons t ts)
  from Cons.prems obtain d ds' where d: "assign_task_dir fs proj t = Some d"
    and r: "run_with_inputs (write_input_dir fs d) proj ts = Some ds'" and ds: "ds = d # ds'"
    by (auto split: option.splits)
  from d have "d \<notin> set fs" unfolding assign_task_dir_def by (rule get_new_directory_fresh)
  moreover from Cons.IH [OF r] write_input_dir_keeps [of fs d] have "set ds' \<inter> set fs = {}" by blast
  ultimately show ?case using ds by simp
qed

lemma run_with_inputs_distinct:
  "run_with_inputs fs proj ts = Some ds \<Longrightarrow> distinct ds"
proof (induction ts arbitrary: fs ds)
  case Nil
  then show ?case by simp
next
  case (Cons t ts)
  from Cons.prems obtain d ds' where d: "assign_task_dir fs proj t = Some d"
    and r: "run_with_inputs (write_input_dir fs d) proj ts = Some ds'" and ds: "ds = d # ds'"
    by (auto split: option.splits)
  from run_with_inputs_fresh [OF r] write_input_dir_creates [of d fs] have "d \<notin> set ds'" by blast
  with Cons.IH [OF r] ds show ?case by simp
qed

lemma run_with_inputs_length:
  "run_with_inputs fs proj ts = Some ds \<Longrightarrow> length ds = length ts"
  by (induction ts arbitrary: fs ds) (auto split: option.splits)

text \<open>
  Claim C3, as it holds. When the input of each task is written before the next task is
  instantiated, every instantiation is assigned a directory, none of which existed before,
  and the directories are pairwise distinct, whatever the task names (the same name may
  come twice). A single instantiation is assigned the canonical directory when no
  directory of that name exists, and otherwise a sibling that differs from it and from
  every existing directory.
\<close>

theorem task_directories_distinct:
  "(\<exists>ds. run_with_inputs fs proj ts = Some ds \<and> length ds = length ts \<and> distinct ds
          \<and> set ds \<inter> set fs = {})
   \<and> (\<exists>d. assign_task_dir fs proj t = Some d \<and> d \<notin> set fs
          \<and> (canonical_task_dir proj t \<notin> set fs \<longrightarrow> d = canonical_task_dir proj t)
          \<and> (canonical_task_dir proj t \<in> set fs \<longrightarrow> d \<noteq> canonical_task_dir proj t))"
proof
  obtain ds where ds: "run_with_inputs fs proj ts = Some ds"
    using run_with_inputs_total by blast
  from ds run_with_inputs_length [OF ds] run_with_inputs_distinct [OF ds] run_with_inputs_fresh [OF ds]
  show "\<exists>ds. run_with_inputs fs proj ts = Some ds \<and> length ds = length ts \<and> distinct ds
          \<and> set ds \<inter> set fs = {}" by blast
next
  obtain d where d: "get_new_directory fs (canonical_task_dir proj t) = Some d"
    using get_new_directory_total by blast
  have "d \<notin> set fs" using d by (rule get_new_directory_fresh)
  moreover have "canonical_task_dir proj t \<notin> set fs \<longrightarrow> d = canonical_task_dir proj t"
    using d get_new_directory_canonical [of "canonical_task_dir proj t" fs] by auto
  moreover have "canonical_task_dir proj t \<in> set fs \<longrightarrow> d \<noteq> canonical_task_dir proj t"
    using d get_new_directory_sibling [of "canonical_task_dir proj t" fs d] by auto
  ultimately show "\<exists>d. assign_task_dir fs proj t = Some d \<and> d \<notin> set fs
          \<and> (canonical_task_dir proj t \<notin> set fs \<longrightarrow> d = canonical_task_dir proj t)
          \<and> (canonical_task_dir proj t \<in> set fs \<longrightarrow> d \<noteq> canonical_task_dir proj t)"
    using d unfolding assign_task_dir_def by blast
qed

lemma example_run:
  "run_with_inputs [] ''/p'' [''ground_state'', ''ground_state'', ''rt_tddft'']
     = Some [''/p/nwchem/ground_state'', ''/p/nwchem/ground_state_1'', ''/p/nwchem/rt_tddft'']"
  by code_simp

theorem task_directories_distinct_witness:
  "run_with_inputs [] ''/p'' [''ground_state'', ''ground_state'', ''rt_tddft'']
     = Some [''/p/nwchem/ground_state'', ''/p/nwchem/ground_state_1'', ''/p/nwchem/rt_tddft'']
   \<and> distinct [''/p/nwchem/ground_state'', ''/p/nwchem/ground_state_1'', ''/p/nwchem/rt_tddft'']
   \<and> assign_task_dir [''/p/nwchem/ground_state''] ''/p'' ''ground_state''
       = Some ''/p/nwchem/ground_state_1''"
proof -
  from task_directories_distinct [of "[]" "''/p''" "[''ground_state'', ''ground_state'', ''rt_tddft'']"]
  obtain ds where "run_with_inputs [] ''/p'' [''ground_state'', ''ground_state'', ''rt_tddft''] = Some ds"
    and "distinct ds" by blast
  with example_run
  have 1: "distinct [''/p/nwchem/ground_state'', ''/p/nwchem/ground_state_1'', ''/p/nwchem/rt_tddft'']"
    by simp
  have 2: "assign_task_dir [''/p/nwchem/ground_state''] ''/p'' ''ground_state''
       = Some ''/p/nwchem/ground_state_1''"
    by code_simp
  from example_run 1 2 show ?thesis by (intro conjI)
qed

text \<open>
  The claim as worded (pairwise distinct directories for all instantiations of a run) fails
  when a task is instantiated twice before the input of the first is written: naming a
  directory does not create it, so both instantiations are assigned the canonical name.
\<close>

theorem task_directories_counterexample:
  "run_instantiate_only [] ''/p'' [''ground_state'', ''ground_state'']
     = Some [''/p/nwchem/ground_state'', ''/p/nwchem/ground_state'']"
  by code_simp


section \<open>The store of dictionaries and lists\<close>

text \<open>
  Dictionaries and lists are objects with an identity: two names may stand for one
  object, and a change made through one name is seen through the other. The store is the
  list of the objects allocated so far; the address of an object is its index, \<open>PyRef a\<close>
  is a reference to it, and a new object goes to the end. Dictionaries have string keys
  and keep them in insertion order.
\<close>

datatype pyobj = Dict items | PyList "pyval list"

type_synonym heap = "pyobj list"

text \<open>
  A computation takes the store and gives its result, a value or the exception raised,
  with the store as it is left; what was written before an exception stays written.
\<close>

type_synonym 'a prog = "heap \<Rightarrow> (error + 'a) \<times> heap"

definition ret :: "'a \<Rightarrow> 'a prog" where
  "ret x h = (Inr x, h)"

definition raise :: "error \<Rightarrow> 'a prog" where
  "raise e h = (Inl e, h)"

definition bnd :: "'a prog \<Rightarrow> ('a \<Rightarrow> 'b prog) \<Rightarrow> 'b prog" where
  "bnd m f h = (case m h of (Inl e, h') \<Rightarrow> (Inl e, h') | (Inr x, h') \<Rightarrow> f x h')"

definition alloc :: "pyobj \<Rightarrow> pyval prog" where
  "alloc ob h = (Inr (PyRef (length h)), h @ [ob])"

text \<open>
  The object a value refers to. A value that is no reference has none (\<open>err\<close> is the
  exception Python raises for the operation at hand); a reference to no object of the
  store cannot arise in Python and is reported as \<open>NoSuchObject\<close>.
\<close>

definition deref :: "error \<Rightarrow> pyval \<Rightarrow> pyobj prog" where
  "deref err v h =
     (case v of
        PyRef a \<Rightarrow> if a < length h then (Inr (h ! a), h) else (Inl NoSuchObject, h)
      | _ \<Rightarrow> (Inl err, h))"

definition as_dict :: "error \<Rightarrow> pyval \<Rightarrow> items prog" where
  "as_dict err v = bnd (deref err v) (\<lambda>ob. case ob of Dict d \<Rightarrow> ret d | PyList _ \<Rightarrow> raise err)"

definition store :: "pyval \<Rightarrow> pyobj \<Rightarrow> unit prog" where
  "store v ob h =
     (case v of
        PyRef a \<Rightarrow> if a < length h then (Inr (), h[a := ob]) else (Inl NoSuchObject, h)
      | _ \<Rightarrow> (Inl TypeError, h))"

text \<open>\<^verbatim>\<open>d.get(k, dflt)\<close>, \<^verbatim>\<open>d[k]\<close>, \<^verbatim>\<open>d[k] = x\<close>, \<^verbatim>\<open>d.pop(k)\<close>, \<^verbatim>\<open>d.pop(k, dflt)\<close>,
  \<^verbatim>\<open>d.update(other)\<close> and \<^verbatim>\<open>l.append(x)\<close>.\<close>

definition py_get :: "pyval \<Rightarrow> string \<Rightarrow> pyval \<Rightarrow> pyval prog" where
  "py_get v k dflt = bnd (as_dict AttributeError v) (\<lambda>d. ret (dict_get d k dflt))"

definition py_getitem :: "pyval \<Rightarrow> string \<Rightarrow> pyval prog" where
  "py_getitem v k =
     bnd (as_dict TypeError v)
       (\<lambda>d. case map_of d k of None \<Rightarrow> raise (KeyError k) | Some x \<Rightarrow> ret x)"

definition py_setitem :: "pyval \<Rightarrow> string \<Rightarrow> pyval \<Rightarrow> unit prog" where
  "py_setitem v k x =
     bnd (as_dict TypeError v) (\<lambda>d. store v (Dict (AList.update k x d)))"

definition py_pop :: "pyval \<Rightarrow> string \<Rightarrow> pyval option \<Rightarrow> pyval prog" where
  "py_pop v k dflt =
     bnd (as_dict AttributeError v)
       (\<lambda>d. case map_of d k of
               Some x \<Rightarrow> bnd (store v (Dict (AList.delete k d))) (\<lambda>_. ret x)
             | None \<Rightarrow> (case dflt of Some y \<Rightarrow> ret y | None \<Rightarrow> raise (KeyError k)))"

definition py_update :: "pyval \<Rightarrow> pyval \<Rightarrow> unit prog" where
  "py_update v other =
     bnd (as_dict AttributeError v)
       (\<lambda>d. bnd (as_dict TypeError other)
          (\<lambda>new. store v (Dict (foldl (\<lambda>acc (k, x). AList.update k x acc) d new))))"

definition py_append :: "pyval \<Rightarrow> pyval \<Rightarrow> unit prog" where
  "py_append v x =
     bnd (deref AttributeError v)
       (\<lambda>ob. case ob of PyList xs \<Rightarrow> store v (PyList (xs @ [x])) | Dict _ \<Rightarrow> raise AttributeError)"

text \<open>
  \<^verbatim>\<open>copy.deepcopy\<close>. Numbers, strings, \<^verbatim>\<open>None\<close> and booleans are returned as they are. A
  dictionary or list already copied is looked up in the memo; otherwise the empty copy is
  allocated and entered in the memo, then filled with the copies of the values, in
  order. The first argument bounds the depth of the recursion, as the interpreter's
  recursion limit does.
\<close>

type_synonym memo = "(addr \<times> addr) list"

fun deepcopy :: "nat \<Rightarrow> memo \<Rightarrow> pyval \<Rightarrow> (pyval \<times> memo) prog"
  and deepcopy_vals :: "nat \<Rightarrow> memo \<Rightarrow> pyval list \<Rightarrow> (pyval list \<times> memo) prog" where
  "deepcopy 0 memo v = raise RecursionError"
| "deepcopy (Suc n) memo v =
     (case v of
        PyRef a \<Rightarrow>
          (case map_of memo a of
             Some b \<Rightarrow> ret (PyRef b, memo)
           | None \<Rightarrow>
               bnd (deref TypeError v)
                 (\<lambda>ob. case ob of
                    Dict d \<Rightarrow>
                      bnd (alloc (Dict []))
                        (\<lambda>y. bnd (deepcopy_vals n ((a, case y of PyRef b \<Rightarrow> b | _ \<Rightarrow> 0) # memo) (map snd d))
                          (\<lambda>r. bnd (store y (Dict (zip (map fst d) (fst r))))
                            (\<lambda>_. ret (y, snd r))))
                  | PyList xs \<Rightarrow>
                      bnd (alloc (PyList []))
                        (\<lambda>y. bnd (deepcopy_vals n ((a, case y of PyRef b \<Rightarrow> b | _ \<Rightarrow> 0) # memo) xs)
                          (\<lambda>r. bnd (store y (PyList (fst r)))
                            (\<lambda>_. ret (y, snd r))))))
      | _ \<Rightarrow> ret (v, memo))"
| "deepcopy_vals n memo [] = ret ([], memo)"
| "deepcopy_vals n memo (v # vs) =
     bnd (deepcopy n memo v)
       (\<lambda>r. bnd (deepcopy_vals n (snd r) vs)
          (\<lambda>rs. ret (fst r # fst rs, snd rs)))"

text \<open>
  The value a name holds, read off the store as a tree, for comparing it at two moments.
  The reading gives up (\<open>None\<close>) at a reference to no object, at one of the addresses
  \<open>W\<close>, and beyond the given depth.
\<close>

datatype pytree = Atom pyval | DictT "(string \<times> pytree) list" | ListT "pytree list"

fun snapshot :: "nat \<Rightarrow> addr list \<Rightarrow> heap \<Rightarrow> pyval \<Rightarrow> pytree option"
  and snapshots :: "nat \<Rightarrow> addr list \<Rightarrow> heap \<Rightarrow> pyval list \<Rightarrow> pytree list option" where
  "snapshot 0 W h v = None"
| "snapshot (Suc n) W h v =
     (case v of
        PyRef a \<Rightarrow>
          if a \<in> set W \<or> length h \<le> a then None
          else (case h ! a of
                  Dict d \<Rightarrow> map_option (\<lambda>ts. DictT (zip (map fst d) ts)) (snapshots n W h (map snd d))
                | PyList xs \<Rightarrow> map_option ListT (snapshots n W h xs))
      | _ \<Rightarrow> Some (Atom v))"
| "snapshots n W h [] = Some []"
| "snapshots n W h (v # vs) =
     (case snapshot n W h v of
        None \<Rightarrow> None
      | Some t \<Rightarrow> map_option ((#) t) (snapshots n W h vs))"


section \<open>The NWChem task (\<^verbatim>\<open>BaseNwchemTask\<close>, engines/nwchem/nwchem_task.py)\<close>

text \<open>
  What the module takes from outside these sources is gathered in one record: the task
  type names of \<^verbatim>\<open>TaskTypes\<close>, the accepted names of \<^verbatim>\<open>nwchem_gs_param_data\<close>, the two
  rounded products with \<^verbatim>\<open>as_to_au\<close> in \<^verbatim>\<open>update_td_param\<close> (a float, or a \<^verbatim>\<open>TypeError\<close>
  when an operand is no number), the methods \<^verbatim>\<open>create_input\<close> and \<^verbatim>\<open>write_input\<close> of the
  engine class \<^verbatim>\<open>NWChem\<close> (they read the store and do not write it), and the
  interpreter's recursion limit.
\<close>

record task_types =
  GROUND_STATE :: string
  RT_TDDFT :: string
  COMPUTE_SPECTRUM :: string
  MO_POPULATION :: string

text \<open>\<^verbatim>\<open>NWChem(infile=.., outfile=.., label=.., directory=.., **param)\<close>\<close>

record nwchem_engine =
  eng_infile :: "string option"
  eng_outfile :: string
  eng_label :: string
  eng_directory :: string
  eng_kwargs :: items

record env =
  tt :: task_types
  xc_values :: "string list"
  basis_values :: "string list"
  tmax_of :: "pyval \<Rightarrow> pyval \<Rightarrow> (int \<times> int) option"
  dt_of :: "pyval \<Rightarrow> (int \<times> int) option"
  engine_create_input :: "nwchem_engine \<Rightarrow> heap \<Rightarrow> error + string"
  engine_write_input :: "nwchem_engine \<Rightarrow> string \<Rightarrow> error option"
  recursion_limit :: nat

record nwchem_task = task +
  task_data :: "nwchem_entry option"
  user_input :: pyval
  task_dir :: string
  network_done_file :: string
  infile :: "string option"
  outfile :: "string option"
  nwchem :: nwchem_engine
  job_script :: "string option"

definition lift :: "error + 'a \<Rightarrow> 'a prog" where
  "lift r h = (r, h)"

text \<open>
  Paths, as strings: \<^verbatim>\<open>p / s\<close>, \<^verbatim>\<open>p.parent\<close>, \<^verbatim>\<open>p.name\<close> and \<^verbatim>\<open>p.relative_to(base)\<close>, for
  absolute paths in \<^verbatim>\<open>pathlib\<close>'s normal form (no trailing or double slash, and not the
  root) and a relative \<open>s\<close>. On other paths \<^verbatim>\<open>pathlib\<close> normalises where these functions do
  not: it drops a trailing slash of a remote path, and takes the parent of a relative
  one-component path to be \<^verbatim>\<open>.\<close>, under which every relative path lies.
\<close>

definition path_join :: "string \<Rightarrow> string \<Rightarrow> string" where
  "path_join p s = p @ ''/'' @ s"

definition path_parent :: "string \<Rightarrow> string" where
  "path_parent p = rev (drop 1 (dropWhile (\<lambda>c. c \<noteq> CHR ''/'') (rev p)))"

definition path_name :: "string \<Rightarrow> string" where
  "path_name p = rev (takeWhile (\<lambda>c. c \<noteq> CHR ''/'') (rev p))"

definition relative_to :: "string \<Rightarrow> string \<Rightarrow> error + string" where
  "relative_to p base =
     (if prefix (base @ ''/'') p then Inr (drop (length base + 1) p) else Inl ValueError)"


text \<open>
  \<^verbatim>\<open>if x:\<close> and \<^verbatim>\<open>key in x\<close> for a string key. Membership in a string is the substring
  test, in a list the test for an equal element, in a dictionary the test for a key; on
  \<^verbatim>\<open>None\<close> and numbers it raises \<^verbatim>\<open>TypeError\<close>.
\<close>

definition py_truth :: "pyval \<Rightarrow> bool prog" where
  "py_truth v =
     (case v of
        PyNone \<Rightarrow> ret False
      | PyBool t \<Rightarrow> ret t
      | PyInt n \<Rightarrow> ret (n \<noteq> 0)
      | PyFloat m e \<Rightarrow> ret (m \<noteq> 0)
      | PyStr s \<Rightarrow> ret (s \<noteq> [])
      | PyRef a \<Rightarrow>
          bnd (deref TypeError v)
            (\<lambda>ob. case ob of Dict d \<Rightarrow> ret (d \<noteq> []) | PyList xs \<Rightarrow> ret (xs \<noteq> [])))"

definition py_contains :: "string \<Rightarrow> pyval \<Rightarrow> bool prog" where
  "py_contains k v =
     (case v of
        PyStr s \<Rightarrow> ret (sublist k s)
      | PyRef a \<Rightarrow>
          bnd (deref TypeError v)
            (\<lambda>ob. case ob of
               Dict d \<Rightarrow> ret (map_of d k \<noteq> None)
             | PyList xs \<Rightarrow> ret (PyStr k \<in> set xs))
      | _ \<Rightarrow> raise TypeError)"

text \<open>\<^verbatim>\<open>out_print\<close>: the new list \<^verbatim>\<open>p\<close>.\<close>

definition out_print :: "pyval \<Rightarrow> pyval prog" where
  "out_print property =
     bnd (py_contains ''spectrum'' property)
       (\<lambda>s. bnd (py_contains ''mo_population'' property)
          (\<lambda>m. alloc (PyList ((if s then [PyStr ''dipole''] else [])
                               @ (if m then [PyStr ''moocc''] else [])))))"

text \<open>
  \<^verbatim>\<open>read_pol_dir(pol)[1]\<close>: the letter of the axis when \<^verbatim>\<open>pol\<close> is a list equal to
  \<^verbatim>\<open>[1,0,0]\<close>, \<^verbatim>\<open>[0,1,0]\<close> or \<^verbatim>\<open>[0,0,1]\<close>; otherwise \<^verbatim>\<open>read_pol_dir\<close> returns \<^verbatim>\<open>None\<close> and
  the subscript raises \<^verbatim>\<open>TypeError\<close>. An element equals the integer \<open>k\<close> when it is that
  integer, the float of that value, or the boolean that counts as it.
\<close>

fun py_eq_int :: "pyval \<Rightarrow> int \<Rightarrow> bool" where
  "py_eq_int (PyInt n) k = (n = k)"
| "py_eq_int (PyBool t) k = ((if t then 1 else 0) = k)"
| "py_eq_int (PyFloat m e) k = (if 0 \<le> e then m * 10 ^ nat e = k else m = k * 10 ^ nat (- e))"
| "py_eq_int _ k = False"

fun list_eq_ints :: "pyval list \<Rightarrow> int list \<Rightarrow> bool" where
  "list_eq_ints [] [] = True"
| "list_eq_ints (v # vs) (k # ks) = (py_eq_int v k \<and> list_eq_ints vs ks)"
| "list_eq_ints _ _ = False"

definition read_pol_dir :: "pyval \<Rightarrow> string prog" where
  "read_pol_dir pol =
     (case pol of
        PyRef a \<Rightarrow>
          bnd (deref TypeError pol)
            (\<lambda>ob. case ob of
               PyList xs \<Rightarrow>
                 if list_eq_ints xs [1, 0, 0] then ret ''x''
                 else if list_eq_ints xs [0, 1, 0] then ret ''y''
                 else if list_eq_ints xs [0, 0, 1] then ret ''z''
                 else raise TypeError
             | Dict _ \<Rightarrow> raise TypeError)
      | _ \<Rightarrow> raise TypeError)"

text \<open>\<^verbatim>\<open>add_gaussian_laser\<close> and \<^verbatim>\<open>add_delta_laser\<close>: the new dictionary.\<close>

definition add_gaussian_laser :: "string \<Rightarrow> pyval \<Rightarrow> pyval prog" where
  "add_gaussian_laser nm laser =
     bnd (py_getitem laser ''polarization'') (\<lambda>p1.
     bnd (read_pol_dir p1) (\<lambda>d1.
     bnd (py_getitem laser ''frequency'') (\<lambda>fr.
     bnd (py_getitem laser ''time0'') (\<lambda>t0.
     bnd (py_getitem laser ''sigma'') (\<lambda>sg.
     bnd (py_getitem laser ''polarization'') (\<lambda>p2.
     bnd (read_pol_dir p2) (\<lambda>d2.
     bnd (py_getitem laser ''strength'') (\<lambda>st.
       alloc (Dict [(''name'', PyStr (nm @ ''_'' @ d1)), (''type'', PyStr ''gaussian''),
                    (''frequency'', fr), (''center'', t0), (''width'', sg),
                    (''polarization'', PyStr d2), (''max'', st)])))))))))"

definition add_delta_laser :: "string \<Rightarrow> pyval \<Rightarrow> pyval prog" where
  "add_delta_laser nm laser =
     bnd (py_getitem laser ''polarization'') (\<lambda>p1.
     bnd (read_pol_dir p1) (\<lambda>d1.
     bnd (py_getitem laser ''polarization'') (\<lambda>p2.
     bnd (read_pol_dir p2) (\<lambda>d2.
     bnd (py_getitem laser ''strength'') (\<lambda>st.
       alloc (Dict [(''name'', PyStr (nm @ ''_'' @ d1)), (''type'', PyStr ''delta''),
                    (''polarization'', PyStr d2), (''max'', st)]))))))"

text \<open>
  The loop of \<^verbatim>\<open>update_td_param\<close> over \<^verbatim>\<open>enumerate(laser_l)\<close>. \<open>prev\<close> is the value of
  \<^verbatim>\<open>laser_dict\<close> left by the rounds before: a laser whose type is neither \<^verbatim>\<open>'gaussian'\<close>
  nor \<^verbatim>\<open>'delta'\<close> appends that value again, and raises \<^verbatim>\<open>UnboundLocalError\<close> in the
  first round. A laser that is no dictionary ends in a \<^verbatim>\<open>TypeError\<close> on every path.
\<close>

fun laser_loop :: "pyval \<Rightarrow> pyval \<Rightarrow> nat \<Rightarrow> pyval option \<Rightarrow> pyval list \<Rightarrow> unit prog" where
  "laser_loop pol laser_list n prev [] = ret ()"
| "laser_loop pol laser_list n prev (laser # rest) =
     bnd (as_dict TypeError laser) (\<lambda>d.
     bnd (if map_of d ''polarization'' = None then py_setitem laser ''polarization'' pol
          else ret ()) (\<lambda>_.
     bnd (py_getitem laser ''type'') (\<lambda>ty.
     bnd (if ty = PyStr ''gaussian'' then bnd (add_gaussian_laser (dec n) laser) (\<lambda>x. ret (Some x))
          else if ty = PyStr ''delta'' then bnd (add_delta_laser (dec n) laser) (\<lambda>x. ret (Some x))
          else ret prev) (\<lambda>cur.
     (case cur of
        None \<Rightarrow> raise UnboundLocalError
      | Some laser_dict \<Rightarrow>
          bnd (py_append laser_list laser_dict)
            (\<lambda>_. laser_loop pol laser_list (Suc n) cur rest))))))"

text \<open>\<^verbatim>\<open>laser_l\<close>: the elements of \<^verbatim>\<open>lasers\<close> when it is a list, else \<^verbatim>\<open>lasers\<close> alone.\<close>

definition laser_l_of :: "pyval \<Rightarrow> pyval list prog" where
  "laser_l_of lasers =
     (case lasers of
        PyRef a \<Rightarrow>
          bnd (deref TypeError lasers)
            (\<lambda>ob. case ob of PyList xs \<Rightarrow> ret xs | Dict _ \<Rightarrow> ret [lasers])
      | _ \<Rightarrow> ret [lasers])"

definition float_or_raise :: "(int \<times> int) option \<Rightarrow> pyval prog" where
  "float_or_raise r = (case r of None \<Rightarrow> raise TypeError | Some me \<Rightarrow> ret (PyFloat (fst me) (snd me)))"

text \<open>\<^verbatim>\<open>update_td_param\<close>; its argument \<^verbatim>\<open>param\<close> is written \<open>prm\<close>.\<close>

definition update_td_param :: "env \<Rightarrow> pyval \<Rightarrow> unit prog" where
  "update_td_param ev prm =
     bnd (py_pop prm ''strength'' (Some PyNone)) (\<lambda>strength.
     bnd (py_pop prm ''polarization'' (Some PyNone)) (\<lambda>pol.
     bnd (py_pop prm ''time_step'' None) (\<lambda>time_step.
     bnd (py_pop prm ''number_of_steps'' None) (\<lambda>num_step.
     bnd (py_pop prm ''output_freq'' None) (\<lambda>out_freq.
     bnd (py_pop prm ''properties'' None) (\<lambda>properties.
     bnd (py_pop prm ''laser'' (Some PyNone)) (\<lambda>lasers.
     bnd (py_pop prm ''masking'' (Some PyNone)) (\<lambda>masking.
     bnd (float_or_raise (tmax_of ev num_step time_step)) (\<lambda>tmax.
     bnd (float_or_raise (dt_of ev time_step)) (\<lambda>dt.
     bnd (out_print properties) (\<lambda>pr.
     bnd (alloc (Dict [(''tmax'', tmax), (''dt'', dt), (''print'', pr)])) (\<lambda>rt.
     bnd (py_setitem prm ''rt_tddft'' rt) (\<lambda>_.
     bnd (py_truth lasers) (\<lambda>has_lasers.
       if has_lasers then
         bnd (laser_l_of lasers) (\<lambda>laser_l.
         bnd (py_pop prm ''delay'' (Some PyNone)) (\<lambda>delay.
         bnd (alloc (PyList [])) (\<lambda>laser_list.
         bnd (py_getitem prm ''rt_tddft'') (\<lambda>rt'.
         bnd (py_setitem rt' ''field'' laser_list) (\<lambda>_.
           laser_loop pol laser_list 0 None laser_l)))))
       else
         bnd (read_pol_dir pol) (\<lambda>d1.
         bnd (read_pol_dir pol) (\<lambda>d2.
         bnd (alloc (Dict [(''name'', PyStr (''kick_'' @ d1)), (''type'', PyStr ''delta''),
                           (''polarization'', PyStr d2), (''max'', strength)])) (\<lambda>field.
         bnd (py_getitem prm ''rt_tddft'') (\<lambda>rt'.
           py_setitem rt' ''field'' field))))))))))))))))))"

text \<open>A read of the store by code outside these sources.\<close>

definition reads :: "(heap \<Rightarrow> error + 'a) \<Rightarrow> 'a prog" where
  "reads g h = (g h, h)"

text \<open>
  \<^verbatim>\<open>self.task_data.get('file_name')\<close>: an \<^verbatim>\<open>AttributeError\<close> when the task name is not in
  the table (\<^verbatim>\<open>task_data\<close> is \<^verbatim>\<open>None\<close>) or names the plain entry \<^verbatim>\<open>'restart'\<close>.
\<close>

definition task_data_file_name :: "nwchem_entry option \<Rightarrow> error + string option" where
  "task_data_file_name tdata =
     (case tdata of Some (Entry d) \<Rightarrow> Inr (file_name d) | _ \<Rightarrow> Inl AttributeError)"

text \<open>
  \<^verbatim>\<open>self.dependent_tasks[k]\<close>: a \<^verbatim>\<open>TypeError\<close> when \<^verbatim>\<open>dependent_tasks\<close> is \<^verbatim>\<open>None\<close>, an
  \<^verbatim>\<open>IndexError\<close> when the list is too short.
\<close>

definition dependent_task :: "'a task_scheme \<Rightarrow> nat \<Rightarrow> error + TaskInfo" where
  "dependent_task self k =
     (case dependent_tasks self of
        None \<Rightarrow> Inl TypeError
      | Some ds \<Rightarrow> if k < length ds then Inr (ds ! k) else Inl IndexError)"

text \<open>\<^verbatim>\<open>str(self.project_dir / self.dependent_tasks[k].output.get('txt_out'))\<close>\<close>

definition dependent_txt_out :: "'a task_scheme \<Rightarrow> nat \<Rightarrow> string prog" where
  "dependent_txt_out self k =
     bnd (lift (dependent_task self k)) (\<lambda>dep.
     bnd (py_get (PyRef (ti_output dep)) ''txt_out'' PyNone) (\<lambda>v.
       case v of PyStr s \<Rightarrow> ret (path_join (project_dir self) s) | _ \<Rightarrow> raise TypeError))"

text \<open>\<^verbatim>\<open>self.dependent_tasks[0].engine_param.get('basis')\<close>\<close>

definition dependent_basis :: "'a task_scheme \<Rightarrow> pyval prog" where
  "dependent_basis self =
     bnd (lift (dependent_task self 0)) (\<lambda>dep.
       py_get (PyRef (engine_param dep)) ''basis'' PyNone)"

text \<open>
  \<^verbatim>\<open>create_engine\<close>, of \<^verbatim>\<open>BaseNwchemTask\<close> and as \<^verbatim>\<open>NwchemTask\<close> overrides it: the two bodies
  differ in the directory of the two file names they record, relative to the project
  directory in the first (\<^verbatim>\<open>relative_to\<close> raises \<^verbatim>\<open>ValueError\<close> outside it) and as it is in the
  second. \<open>fs\<close> lists the directories that exist. The task is returned with the attributes
  the method sets. The call \<^verbatim>\<open>NWChem(infile=.., outfile=.., label=.., directory=.., **param)\<close>
  raises \<^verbatim>\<open>TypeError\<close> when \<^verbatim>\<open>param\<close> is no dictionary or has one of the four keywords as a
  key. The methods \<^verbatim>\<open>create_template\<close>, \<^verbatim>\<open>write_input\<close> and \<^verbatim>\<open>create_job_script\<close>
  below have the same body in both classes.
\<close>

datatype nwchem_class = BaseNwchemTask | NwchemTask

definition engine_file_dir :: "nwchem_class \<Rightarrow> string \<Rightarrow> string \<Rightarrow> error + string" where
  "engine_file_dir cls tdir pdir =
     (case cls of BaseNwchemTask \<Rightarrow> relative_to tdir pdir | NwchemTask \<Rightarrow> Inr tdir)"

definition create_engine ::
  "nwchem_class \<Rightarrow> env \<Rightarrow> string list \<Rightarrow> task \<Rightarrow> nwchem_entry option \<Rightarrow> pyval
     \<Rightarrow> nwchem_task prog" where
  "create_engine cls ev fs self tdata prm =
     (case assign_task_dir fs (project_dir self) (task_name self) of
        None \<Rightarrow> raise (EngineError ''get_new_directory'')
      | Some tdir \<Rightarrow>
     bnd (lift (task_data_file_name tdata)) (\<lambda>fname_opt.
     bnd (alloc (Dict [])) (\<lambda>ei.
     bnd (py_setitem (PyRef (input (task_info self))) ''engine_input'' ei) (\<lambda>_.
       if task_name self \<in> set [COMPUTE_SPECTRUM (tt ev), MO_POPULATION (tt ev)] then
         bnd (dependent_txt_out self 0) (\<lambda>out0.
         bnd (if task_name self = MO_POPULATION (tt ev) then dependent_txt_out self 1
              else ret out0) (\<lambda>out1.
           ret (task.extend self
                  (nwchem_task.fields tdata prm tdir (path_join tdir ''Done'') None None
                     \<lparr>eng_infile = None, eng_outfile = out1,
                      eng_label = path_name (project_dir self), eng_directory = tdir,
                      eng_kwargs = []\<rparr>
                     None))))
       else
         bnd (py_setitem prm ''perm'' (PyStr (path_join (path_parent tdir) ''restart''))) (\<lambda>_.
         bnd (py_setitem prm ''geometry''
                (PyStr (path_join (project_dir self) ''coordinate.xyz''))) (\<lambda>_.
         bnd (if task_name self = RT_TDDFT (tt ev) then
                bnd (py_setitem prm ''restart_kw'' (PyStr ''restart'')) (\<lambda>_.
                bnd (dependent_basis self) (\<lambda>bs.
                bnd (py_setitem prm ''basis'' bs) (\<lambda>_.
                  update_td_param ev prm)))
              else ret ()) (\<lambda>_.
         (case fname_opt of
            None \<Rightarrow> raise TypeError
          | Some fname \<Rightarrow>
         bnd (lift (engine_file_dir cls tdir (project_dir self))) (\<lambda>rel.
         bnd (py_getitem (PyRef (input (task_info self))) ''engine_input'') (\<lambda>ei'.
         bnd (py_setitem ei' ''path'' (PyStr (path_join rel (fname @ ''.nwi'')))) (\<lambda>_.
         bnd (py_setitem (PyRef (ti_output (task_info self))) ''txt_out''
                (PyStr (path_join rel (fname @ ''.nwo'')))) (\<lambda>_.
         bnd (as_dict TypeError prm) (\<lambda>kw.
           if list_ex (\<lambda>k. map_of kw k \<noteq> None) [''infile'', ''outfile'', ''label'', ''directory'']
           then raise TypeError
           else
           ret (task.extend self
                  (nwchem_task.fields tdata prm tdir (path_join tdir ''Done'')
                     (Some (fname @ ''.nwi'')) (Some (fname @ ''.nwo''))
                     \<lparr>eng_infile = Some (fname @ ''.nwi''), eng_outfile = fname @ ''.nwo'',
                      eng_label = path_name (project_dir self), eng_directory = tdir,
                      eng_kwargs = kw\<rparr>
                     None)))))))))))))))"

text \<open>
  The ground-state branch of the constructor: \<^verbatim>\<open>format_gs_param(param)\<close> on the copy, and
  the dictionaries of \<^verbatim>\<open>gs_input\<close>.
\<close>

definition gs_user_input :: "env \<Rightarrow> pyval \<Rightarrow> pyval prog" where
  "gs_user_input ev prm =
     bnd (as_dict AttributeError prm) (\<lambda>d.
     bnd (lift (format_gs_param (xc_values ev) (basis_values ev) d)) (\<lambda>g.
     bnd (alloc (Dict [(''energy'', dft_convergence_energy g),
                       (''density'', dft_convergence_density g)])) (\<lambda>conv.
     bnd (alloc (Dict [(''xc'', dft_xc g), (''convergence'', conv),
                       (''iterations'', dft_iterations g)])) (\<lambda>dft.
       alloc (Dict [(''dft'', dft), (''basis'', basis g)])))))"

text \<open>\<^verbatim>\<open>BaseNwchemTask.__init__\<close>\<close>

definition BaseNwchemTask_init ::
  "nwchem_class \<Rightarrow> env \<Rightarrow> string list \<Rightarrow> lsconfig \<Rightarrow> TaskInfo \<Rightarrow> TaskInfo list option
     \<Rightarrow> nwchem_task prog" where
  "BaseNwchemTask_init cls ev fs cfg ti deps =
     bnd (lift (Task_init cfg ti deps)) (\<lambda>self.
     bnd (deepcopy (recursion_limit ev) [] (PyRef (param (task_info self)))) (\<lambda>r.
     bnd (if task_name self = GROUND_STATE (tt ev) then gs_user_input ev (fst r)
          else ret (fst r)) (\<lambda>ui.
       create_engine cls ev fs self (nwchem_data (task_name self)) ui)))"

text \<open>\<^verbatim>\<open>create_template\<close>\<close>

definition create_template :: "env \<Rightarrow> nwchem_task \<Rightarrow> unit prog" where
  "create_template ev self =
     bnd (reads (engine_create_input ev (nwchem self))) (\<lambda>template.
     bnd (py_update (PyRef (engine_param (task_info self))) (user_input self)) (\<lambda>_.
     bnd (py_getitem (PyRef (input (task_info self))) ''engine_input'') (\<lambda>ei.
       py_setitem ei ''data'' (PyStr template))))"

text \<open>
  \<^verbatim>\<open>write_input\<close>: the task directory is made first, when it is missing; the result is the
  list of directories after the call. The engine's \<^verbatim>\<open>write_input\<close> writes the template, a
  string, to the input file.
\<close>

definition write_input :: "env \<Rightarrow> nwchem_task \<Rightarrow> string list \<Rightarrow> string list prog" where
  "write_input ev self fs =
     (let fs' = write_input_dir fs (task_dir self) in
      bnd (py_getitem (PyRef (input (task_info self))) ''engine_input'') (\<lambda>ei.
      bnd (py_getitem ei ''data'') (\<lambda>template.
        case template of
          PyStr s \<Rightarrow>
            (case engine_write_input ev (nwchem self) s of
               Some e \<Rightarrow> raise e
             | None \<Rightarrow> ret fs')
        | _ \<Rightarrow> raise TypeError)))"

text \<open>\<^verbatim>\<open>get_engine_network_job_cmd\<close> and \<^verbatim>\<open>create_job_script\<close>\<close>

definition get_engine_network_job_cmd :: string where
  "get_engine_network_job_cmd =
     [newline]
     @ ''##### Please Provide the Excutable Path or environment of NWCHEM or load the module''
     @ [newline, newline]
     @ ''#eval '' @ [CHR 0x22] @ ''$(conda shell.bash hook)'' @ [CHR 0x22] @ [newline]
     @ ''#conda activate <environment name>'' @ [newline, newline]
     @ ''#module load nwchem''"

definition create_job_script ::
  "env \<Rightarrow> int \<Rightarrow> string option \<Rightarrow> nwchem_task \<Rightarrow> error + (string \<times> nwchem_task)" where
  "create_job_script ev np remote_path self0 =
     (let self = (if truthy remote_path then self0\<lparr>engine_path := ''nwchem''\<rparr> else self0) in
      if task_name self \<in> set [GROUND_STATE (tt ev), RT_TDDFT (tt ev)] then
        (case (infile self, outfile self) of
           (Some ifilename, Some ofilename) \<Rightarrow>
             (let engine_cmd = engine_path self @ '' '' @ ifilename @ '' '' @ ''>'' @ '' '' @ ofilename in
              case remote_path of
                Some rp \<Rightarrow>
                  if rp \<noteq> [] then
                    (case relative_to (task_dir self) (path_parent (path_parent (project_dir self))) of
                       Inl e \<Rightarrow> Inl e
                     | Inr rel \<Rightarrow>
                         (let js = assemable_job_cmd (Some engine_cmd) np (Some (path_join rp rel))
                                     None True None (Some get_engine_network_job_cmd) None
                          in Inr (js, self\<lparr>job_script := Some js\<rparr>)))
                  else
                    (let js = assemable_job_cmd (Some engine_cmd) np (Some (task_dir self))
                                (Some (mpi_path self)) False None None None
                     in Inr (js, self\<lparr>job_script := Some js\<rparr>))
              | None \<Rightarrow>
                  (let js = assemable_job_cmd (Some engine_cmd) np (Some (task_dir self))
                              (Some (mpi_path self)) False None None None
                   in Inr (js, self\<lparr>job_script := Some js\<rparr>)))
         | _ \<Rightarrow> Inl AttributeError)
      else Inl UnboundLocalError)"

text \<open>
  A task in use: the task is constructed, then methods are called on it, any of
  \<^verbatim>\<open>create_template\<close>, \<^verbatim>\<open>write_input\<close> and \<^verbatim>\<open>create_job_script(np, remote_path)\<close> in any
  order, each on the task, the directories and the store the call before left. An
  exception ends the run.
\<close>

datatype method_call = Create_template | Write_input | Create_job_script int "string option"

definition call_method ::
  "env \<Rightarrow> method_call \<Rightarrow> nwchem_task \<times> string list \<Rightarrow> (nwchem_task \<times> string list) prog" where
  "call_method ev c s =
     (case c of
        Create_template \<Rightarrow> bnd (create_template ev (fst s)) (\<lambda>_. ret s)
      | Write_input \<Rightarrow> bnd (write_input ev (fst s) (snd s)) (\<lambda>fs'. ret (fst s, fs'))
      | Create_job_script np remote_path \<Rightarrow>
          bnd (lift (create_job_script ev np remote_path (fst s))) (\<lambda>r. ret (snd r, snd s)))"

fun call_methods ::
  "env \<Rightarrow> method_call list \<Rightarrow> nwchem_task \<times> string list \<Rightarrow> (nwchem_task \<times> string list) prog" where
  "call_methods ev [] s = ret s"
| "call_methods ev (c # cs) s = bnd (call_method ev c s) (call_methods ev cs)"

definition lifecycle ::
  "nwchem_class \<Rightarrow> env \<Rightarrow> string list \<Rightarrow> lsconfig \<Rightarrow> TaskInfo \<Rightarrow> TaskInfo list option
     \<Rightarrow> method_call list \<Rightarrow> (nwchem_task \<times> string list) prog" where
  "lifecycle cls ev fs cfg ti deps calls =
     bnd (BaseNwchemTask_init cls ev fs cfg ti deps) (\<lambda>self. call_methods ev calls (self, fs))"


text \<open>An environment, and a store with the dictionaries of a ground-state task and of a
  time-propagation task with one laser.\<close>

definition example_env :: env where
  "example_env =
     \<lparr>tt = \<lparr>GROUND_STATE = ''ground_state'', RT_TDDFT = ''rt_tddft'',
             COMPUTE_SPECTRUM = ''spectrum'', MO_POPULATION = ''mo_population''\<rparr>,
      xc_values = [''PBE0'', ''B3LYP''], basis_values = [''6-31G''],
      tmax_of = (\<lambda>n t. Some (82683, - 2)), dt_of = (\<lambda>t. Some (41, - 2)),
      engine_create_input = (\<lambda>eng h. Inr ''echo''),
      engine_write_input = (\<lambda>eng s. None),
      recursion_limit = 100\<rparr>"

definition example_heap :: heap where
  "example_heap =
     [Dict example_gs_param,
      Dict [(''basis'', PyStr ''6-31G'')],
      Dict [],
      Dict [(''txt_out'', PyStr ''nwchem/ground_state/gs.nwo'')],
      Dict [(''strength'', PyFloat 1 (- 5)), (''polarization'', PyRef 8), (''time_step'', PyInt 10),
            (''number_of_steps'', PyInt 2000), (''output_freq'', PyInt 10),
            (''properties'', PyRef 9), (''laser'', PyRef 10)],
      Dict [],
      Dict [],
      Dict [],
      PyList [PyInt 1, PyInt 0, PyInt 0],
      PyList [PyStr ''spectrum''],
      PyList [PyRef 11],
      Dict [(''type'', PyStr ''gaussian''), (''frequency'', PyFloat 35 (- 1)), (''time0'', PyInt 10),
            (''sigma'', PyFloat 5 (- 1)), (''strength'', PyFloat 1 (- 3))]]"

definition example_calls :: "method_call list" where
  "example_calls = [Create_template, Write_input, Create_job_script 1 None]"

definition example_param_value :: pytree where
  "example_param_value =
     DictT
      [(''strength'', Atom (PyFloat 1 (- 5))),
       (''polarization'', ListT [Atom (PyInt 1), Atom (PyInt 0), Atom (PyInt 0)]),
       (''time_step'', Atom (PyInt 10)),
       (''number_of_steps'', Atom (PyInt 2000)),
       (''output_freq'', Atom (PyInt 10)),
       (''properties'', ListT [Atom (PyStr ''spectrum'')]),
       (''laser'',
        ListT
         [DictT
           [(''type'', Atom (PyStr ''gaussian'')),
            (''frequency'', Atom (PyFloat 35 (- 1))),
            (''time0'', Atom (PyInt 10)), (''sigma'', Atom (PyFloat 5 (- 1))),
            (''strength'', Atom (PyFloat 1 (- 3)))]])]"


section \<open>What a computation may write\<close>

text \<open>
  \<open>n0\<close> is the size of the store when the task is constructed: the objects below \<open>n0\<close>
  existed before, those from \<open>n0\<close> on are made by the task. A value is \<open>fresh\<close> when it is
  no reference to an object that existed before.
\<close>

fun fresh :: "nat \<Rightarrow> pyval \<Rightarrow> bool" where
  "fresh n0 (PyRef a) = (n0 \<le> a)"
| "fresh n0 _ = True"

text \<open>
  An object made by the task holds fresh values only, but for the key \<^verbatim>\<open>'basis'\<close> of a
  dictionary, under which \<^verbatim>\<open>create_engine\<close> stores a value of an earlier task.
\<close>

fun obj_ok :: "nat \<Rightarrow> pyobj \<Rightarrow> bool" where
  "obj_ok n0 (Dict d) = list_all (\<lambda>kv. fst kv = ''basis'' \<or> fresh n0 (snd kv)) d"
| "obj_ok n0 (PyList xs) = list_all (fresh n0) xs"

text \<open>
  The invariant of a store \<open>h\<close> with respect to the store \<open>h0\<close> at construction, the
  addresses \<open>W\<close> of the dictionaries of the task record that the task writes, and the
  address \<open>i\<close> of the record's \<^verbatim>\<open>input\<close> dictionary: every object that existed at
  construction and is not in \<open>W\<close> is as it was; every object made since holds fresh
  values; and, once \<open>b\<close> is set, the entry \<^verbatim>\<open>'engine_input'\<close> of the \<^verbatim>\<open>input\<close> dictionary is
  fresh.
\<close>

definition framed :: "nat \<Rightarrow> addr list \<Rightarrow> heap \<Rightarrow> heap \<Rightarrow> bool" where
  "framed n0 W h0 h = (n0 \<le> length h \<and> (\<forall>a<n0. a \<notin> set W \<longrightarrow> h ! a = h0 ! a))"

definition made_ok :: "nat \<Rightarrow> heap \<Rightarrow> bool" where
  "made_ok n0 h = (\<forall>a. n0 \<le> a \<and> a < length h \<longrightarrow> obj_ok n0 (h ! a))"

definition entry_ok :: "nat \<Rightarrow> addr \<Rightarrow> heap \<Rightarrow> bool" where
  "entry_ok n0 i h =
     (i < n0 \<and> i < length h \<longrightarrow>
        (case h ! i of Dict d \<Rightarrow> fresh n0 (dict_get d ''engine_input'' PyNone) | PyList _ \<Rightarrow> True))"

definition frame_inv :: "nat \<Rightarrow> addr list \<Rightarrow> heap \<Rightarrow> addr \<Rightarrow> bool \<Rightarrow> heap \<Rightarrow> bool" where
  "frame_inv n0 W h0 i b h = (framed n0 W h0 h \<and> made_ok n0 h \<and> (b \<longrightarrow> entry_ok n0 i h))"

text \<open>A value the task may write through: no reference to an old object outside \<open>W\<close>.\<close>

fun writable :: "nat \<Rightarrow> addr list \<Rightarrow> pyval \<Rightarrow> bool" where
  "writable n0 W (PyRef a) = (n0 \<le> a \<or> a \<in> set W)"
| "writable n0 W _ = True"

text \<open>
  \<open>tri P m Q E\<close>: from a store with \<open>P\<close>, the computation \<open>m\<close> ends with \<open>Q\<close> for its value
  and store, or raises with \<open>E\<close> for the store.
\<close>

definition tri :: "(heap \<Rightarrow> bool) \<Rightarrow> 'a prog \<Rightarrow> ('a \<Rightarrow> heap \<Rightarrow> bool) \<Rightarrow> (heap \<Rightarrow> bool) \<Rightarrow> bool" where
  "tri P m Q E = (\<forall>h. P h \<longrightarrow> (case m h of (Inl e, h') \<Rightarrow> E h' | (Inr x, h') \<Rightarrow> Q x h'))"

lemma triI:
  assumes "\<And>h e h'. P h \<Longrightarrow> m h = (Inl e, h') \<Longrightarrow> E h'"
    and "\<And>h x h'. P h \<Longrightarrow> m h = (Inr x, h') \<Longrightarrow> Q x h'"
  shows "tri P m Q E"
  unfolding tri_def using assms by (auto split: prod.splits sum.splits)

lemma triD_ok: "tri P m Q E \<Longrightarrow> P h \<Longrightarrow> m h = (Inr x, h') \<Longrightarrow> Q x h'"
  unfolding tri_def by fastforce

lemma triD_err: "tri P m Q E \<Longrightarrow> P h \<Longrightarrow> m h = (Inl e, h') \<Longrightarrow> E h'"
  unfolding tri_def by fastforce

lemma tri_ret: "(\<And>h. P h \<Longrightarrow> Q x h) \<Longrightarrow> tri P (ret x) Q E"
  by (rule triI) (auto simp: ret_def)

lemma tri_raise: "(\<And>h. P h \<Longrightarrow> E h) \<Longrightarrow> tri P (raise e) Q E"
  by (rule triI) (auto simp: raise_def)

lemma tri_bnd:
  assumes "tri P m R E" and "\<And>x. tri (R x) (f x) Q E"
  shows "tri P (bnd m f) Q E"
proof (rule triI)
  fix h e h' assume P: "P h" and r: "bnd m f h = (Inl e, h')"
  show "E h'"
  proof (cases "m h")
    case (Pair r1 h1)
    show ?thesis
    proof (cases r1)
      case (Inl e1)
      with Pair r have "h' = h1" by (simp add: bnd_def)
      with triD_err [OF assms(1) P] Pair Inl show ?thesis by simp
    next
      case (Inr x)
      with Pair r have "f x h1 = (Inl e, h')" by (simp add: bnd_def)
      moreover from triD_ok [OF assms(1) P] Pair Inr have "R x h1" by simp
      ultimately show ?thesis using triD_err [OF assms(2)] by blast
    qed
  qed
next
  fix h y h' assume P: "P h" and r: "bnd m f h = (Inr y, h')"
  show "Q y h'"
  proof (cases "m h")
    case (Pair r1 h1)
    show ?thesis
    proof (cases r1)
      case (Inl e1)
      with Pair r show ?thesis by (simp add: bnd_def)
    next
      case (Inr x)
      with Pair r have "f x h1 = (Inr y, h')" by (simp add: bnd_def)
      moreover from triD_ok [OF assms(1) P] Pair Inr have "R x h1" by simp
      ultimately show ?thesis using triD_ok [OF assms(2)] by blast
    qed
  qed
qed

lemma tri_weaken:
  assumes "tri P' m Q' E'" "\<And>h. P h \<Longrightarrow> P' h" "\<And>x h. Q' x h \<Longrightarrow> Q x h" "\<And>h. E' h \<Longrightarrow> E h"
  shows "tri P m Q E"
  using assms unfolding tri_def by (fastforce split: prod.splits sum.splits)

text \<open>
  The form the rules of the operations take: from the invariant, with a fact \<open>\<psi>\<close> about
  the value, to the invariant; on an exception the invariant without the entry.
\<close>

lemma tri_step:
  assumes "tri (frame_inv n0 W h0 i b) m (\<lambda>x h. frame_inv n0 W h0 i b' h \<and> \<psi> x) (frame_inv n0 W h0 i False)"
    and "\<And>x. \<psi> x \<Longrightarrow> tri (frame_inv n0 W h0 i b') (f x) Q (frame_inv n0 W h0 i False)"
  shows "tri (frame_inv n0 W h0 i b) (bnd m f) Q (frame_inv n0 W h0 i False)"
proof (rule tri_bnd [OF assms(1)])
  fix x
  show "tri (\<lambda>h. frame_inv n0 W h0 i b' h \<and> \<psi> x) (f x) Q (frame_inv n0 W h0 i False)"
  proof (cases "\<psi> x")
    case True
    from assms(2) [OF True] show ?thesis by (rule tri_weaken) auto
  next
    case False
    then show ?thesis by (simp add: tri_def)
  qed
qed

lemma inv_drop: "frame_inv n0 W h0 i b h \<Longrightarrow> frame_inv n0 W h0 i False h"
  by (simp add: frame_inv_def)

lemma tri_raise_inv: "tri (frame_inv n0 W h0 i b) (raise e) Q (frame_inv n0 W h0 i False)"
  by (rule tri_raise) (rule inv_drop)

lemma tri_ret_inv:
  "\<psi> x \<Longrightarrow> tri (frame_inv n0 W h0 i b) (ret x) (\<lambda>y h. frame_inv n0 W h0 i b h \<and> \<psi> y) (frame_inv n0 W h0 i False)"
  by (rule tri_ret) simp


subsection \<open>The invariant under the changes of the store\<close>

fun ob_entry_ok :: "nat \<Rightarrow> pyobj \<Rightarrow> bool" where
  "ob_entry_ok n0 (Dict d) = fresh n0 (dict_get d ''engine_input'' PyNone)"
| "ob_entry_ok n0 (PyList xs) = True"

lemma entry_ok_alt:
  "entry_ok n0 i h = (i < n0 \<and> i < length h \<longrightarrow> ob_entry_ok n0 (h ! i))"
  by (cases "h ! i") (auto simp: entry_ok_def)

lemma obj_ok_entry: "obj_ok n0 ob \<Longrightarrow> ob_entry_ok n0 ob"
proof (cases ob)
  case (Dict d)
  assume ok: "obj_ok n0 ob"
  show ?thesis
  proof (cases "map_of d ''engine_input''")
    case None
    with Dict show ?thesis by simp
  next
    case (Some x)
    then have "(''engine_input'', x) \<in> set d" by (rule map_of_SomeD)
    with ok Dict have "fresh n0 x" by (auto simp: list_all_iff)
    with Dict Some show ?thesis by simp
  qed
qed simp

lemma obj_ok_get:
  assumes "obj_ok n0 (Dict d)" "k \<noteq> ''basis''" "fresh n0 dflt"
  shows "fresh n0 (dict_get d k dflt)"
proof (cases "map_of d k")
  case None
  with assms(3) show ?thesis by simp
next
  case (Some x)
  then have "(k, x) \<in> set d" by (rule map_of_SomeD)
  with assms(1,2) have "fresh n0 x" by (auto simp: list_all_iff)
  with Some show ?thesis by simp
qed

lemma obj_ok_lookup:
  "obj_ok n0 (Dict d) \<Longrightarrow> k \<noteq> ''basis'' \<Longrightarrow> map_of d k = Some x \<Longrightarrow> fresh n0 x"
  using obj_ok_get [of n0 d k PyNone] by simp

lemma set_update_subset: "set (AList.update k x d) \<subseteq> insert (k, x) (set d)"
  by (induction d) auto

lemma set_delete_subset: "set (AList.delete k d) \<subseteq> set d"
  by (induction d) auto

lemma obj_ok_update:
  "obj_ok n0 (Dict d) \<Longrightarrow> k = ''basis'' \<or> fresh n0 x \<Longrightarrow> obj_ok n0 (Dict (AList.update k x d))"
  using set_update_subset [of k x d] by (auto simp: list_all_iff)

lemma obj_ok_delete: "obj_ok n0 (Dict d) \<Longrightarrow> obj_ok n0 (Dict (AList.delete k d))"
  using set_delete_subset [of k d] by (auto simp: list_all_iff)

lemma obj_ok_updates:
  "obj_ok n0 (Dict d) \<Longrightarrow> obj_ok n0 (Dict new)
     \<Longrightarrow> obj_ok n0 (Dict (foldl (\<lambda>acc (k, x). AList.update k x acc) d new))"
proof (induction new arbitrary: d)
  case Nil
  then show ?case by simp
next
  case (Cons kv new)
  obtain k x where kv: "kv = (k, x)" by (cases kv)
  from Cons.prems kv have "obj_ok n0 (Dict (AList.update k x d))"
    by (intro obj_ok_update) auto
  moreover from Cons.prems have "obj_ok n0 (Dict new)" by simp
  ultimately show ?case using Cons.IH kv by simp
qed

lemma entry_update:
  "ob_entry_ok n0 (Dict d) \<Longrightarrow> k = ''basis'' \<or> fresh n0 x
     \<Longrightarrow> ob_entry_ok n0 (Dict (AList.update k x d))"
  by (auto simp: update_conv')

lemma entry_delete: "ob_entry_ok n0 (Dict d) \<Longrightarrow> ob_entry_ok n0 (Dict (AList.delete k d))"
  by (auto simp: delete_conv')

lemma entry_updates:
  "ob_entry_ok n0 (Dict d) \<Longrightarrow> obj_ok n0 (Dict new)
     \<Longrightarrow> ob_entry_ok n0 (Dict (foldl (\<lambda>acc (k, x). AList.update k x acc) d new))"
proof (induction new arbitrary: d)
  case Nil
  then show ?case by simp
next
  case (Cons kv new)
  obtain k x where kv: "kv = (k, x)" by (cases kv)
  from Cons.prems kv have "ob_entry_ok n0 (Dict (AList.update k x d))"
    by (intro entry_update) auto
  moreover from Cons.prems have "obj_ok n0 (Dict new)" by simp
  ultimately show ?case using Cons.IH kv by simp
qed

lemma inv_store:
  assumes I: "frame_inv n0 W h0 i b h" and a: "a < length h" and w: "n0 \<le> a \<or> a \<in> set W"
    and ok: "n0 \<le> a \<Longrightarrow> obj_ok n0 ob"
    and en: "b \<Longrightarrow> a = i \<Longrightarrow> i < n0 \<Longrightarrow> ob_entry_ok n0 ob"
  shows "frame_inv n0 W h0 i b (h[a := ob])"
proof -
  from I have f: "framed n0 W h0 h" and m: "made_ok n0 h" and e: "b \<longrightarrow> entry_ok n0 i h"
    by (auto simp: frame_inv_def)
  have "framed n0 W h0 (h[a := ob])"
    unfolding framed_def
  proof (intro conjI allI impI)
    show "n0 \<le> length (h[a := ob])" using f by (simp add: framed_def)
  next
    fix c assume c: "c < n0" "c \<notin> set W"
    with w have "a \<noteq> c" by auto
    then have "h[a := ob] ! c = h ! c" by (rule nth_list_update_neq)
    with f c show "h[a := ob] ! c = h0 ! c" by (simp add: framed_def)
  qed
  moreover have "made_ok n0 (h[a := ob])"
    unfolding made_ok_def
  proof (intro allI impI)
    fix c assume c: "n0 \<le> c \<and> c < length (h[a := ob])"
    show "obj_ok n0 (h[a := ob] ! c)"
    proof (cases "c = a")
      case True
      with c ok a show ?thesis by simp
    next
      case False
      then have "h[a := ob] ! c = h ! c" by simp
      with m c show ?thesis by (simp add: made_ok_def)
    qed
  qed
  moreover have "b \<longrightarrow> entry_ok n0 i (h[a := ob])"
  proof
    assume b
    show "entry_ok n0 i (h[a := ob])"
    proof (cases "a = i")
      case True
      with en \<open>b\<close> a show ?thesis by (simp add: entry_ok_alt)
    next
      case False
      then have "h[a := ob] ! i = h ! i" by simp
      with e \<open>b\<close> show ?thesis by (simp add: entry_ok_alt)
    qed
  qed
  ultimately show ?thesis by (simp add: frame_inv_def)
qed

lemma inv_store_entry:
  assumes I: "frame_inv n0 W h0 i b h" and a: "i < length h" and w: "n0 \<le> i \<or> i \<in> set W"
    and ok: "n0 \<le> i \<Longrightarrow> obj_ok n0 ob"
    and en: "ob_entry_ok n0 ob"
  shows "frame_inv n0 W h0 i True (h[i := ob])"
proof -
  from inv_store [OF inv_drop [OF I] a w ok]
  have "frame_inv n0 W h0 i False (h[i := ob])" by simp
  moreover have "entry_ok n0 i (h[i := ob])"
    using en a by (simp add: entry_ok_alt)
  ultimately show ?thesis by (simp add: frame_inv_def)
qed

lemma inv_alloc:
  assumes I: "frame_inv n0 W h0 i b h" and ok: "obj_ok n0 ob"
  shows "frame_inv n0 W h0 i b (h @ [ob]) \<and> n0 \<le> length h"
proof -
  from I have f: "framed n0 W h0 h" and m: "made_ok n0 h" and e: "b \<longrightarrow> entry_ok n0 i h"
    by (auto simp: frame_inv_def)
  have "framed n0 W h0 (h @ [ob])"
    using f by (auto simp: framed_def nth_append)
  moreover have "made_ok n0 (h @ [ob])"
    using m ok by (auto simp: made_ok_def nth_append less_Suc_eq)
  moreover have "b \<longrightarrow> entry_ok n0 i (h @ [ob])"
    using e f by (auto simp: entry_ok_alt framed_def nth_append)
  moreover have "n0 \<le> length h" using f by (simp add: framed_def)
  ultimately show ?thesis by (simp add: frame_inv_def)
qed

lemma inv_made: "frame_inv n0 W h0 i b h \<Longrightarrow> n0 \<le> a \<Longrightarrow> a < length h \<Longrightarrow> obj_ok n0 (h ! a)"
  by (simp add: frame_inv_def made_ok_def)

lemma inv_entry:
  assumes "frame_inv n0 W h0 i True h" "i < length h"
  shows "ob_entry_ok n0 (h ! i)"
proof (cases "i < n0")
  case True
  with assms show ?thesis by (simp add: frame_inv_def entry_ok_alt)
next
  case False
  with assms have "obj_ok n0 (h ! i)" by (intro inv_made) auto
  then show ?thesis by (rule obj_ok_entry)
qed

lemma deref_heap: "deref err v h = (r, h') \<Longrightarrow> h' = h"
  by (cases v) (simp_all add: deref_def split: if_splits)

lemma deref_ok: "deref err v h = (Inr ob, h') \<Longrightarrow> \<exists>a. v = PyRef a \<and> a < length h \<and> ob = h ! a"
  by (cases v) (auto simp: deref_def split: if_splits)

lemma as_dict_heap: "as_dict err v h = (r, h') \<Longrightarrow> h' = h"
proof -
  assume a: "as_dict err v h = (r, h')"
  obtain r1 h1 where d: "deref err v h = (r1, h1)" by (cases "deref err v h")
  from deref_heap [OF d] have "h1 = h" .
  with a d show ?thesis
    by (cases r1) (auto simp: as_dict_def bnd_def ret_def raise_def split: pyobj.splits)
qed

lemma as_dict_ok:
  "as_dict err v h = (Inr d, h') \<Longrightarrow> \<exists>a. v = PyRef a \<and> a < length h \<and> h ! a = Dict d"
proof -
  assume a: "as_dict err v h = (Inr d, h')"
  obtain r1 h1 where d: "deref err v h = (r1, h1)" by (cases "deref err v h")
  show ?thesis
  proof (cases r1)
    case (Inl e)
    with a d show ?thesis by (simp add: as_dict_def bnd_def)
  next
    case (Inr ob)
    with d deref_ok obtain c where c: "v = PyRef c" "c < length h" "ob = h ! c" by blast
    from a d Inr have "ob = Dict d"
      by (cases ob) (auto simp: as_dict_def bnd_def ret_def raise_def)
    with c show ?thesis by auto
  qed
qed

lemma store_err: "store v ob h = (Inl e, h') \<Longrightarrow> h' = h"
  by (cases v) (simp_all add: store_def split: if_splits)

lemma store_ok: "store v ob h = (Inr x, h') \<Longrightarrow> \<exists>a. v = PyRef a \<and> a < length h \<and> h' = h[a := ob]"
  by (cases v) (auto simp: store_def split: if_splits)

lemma tri_alloc:
  assumes "obj_ok n0 ob"
  shows "tri (frame_inv n0 W h0 i b) (alloc ob) (\<lambda>y h. frame_inv n0 W h0 i b h \<and> (fresh n0 y \<and> (\<exists>a. y = PyRef a)))
           (frame_inv n0 W h0 i False)"
proof (rule triI)
  fix h e h' assume "alloc ob h = (Inl e, h')"
  then show "frame_inv n0 W h0 i False h'" by (simp add: alloc_def)
next
  fix h y h' assume I: "frame_inv n0 W h0 i b h" and r: "alloc ob h = (Inr y, h')"
  from r have "y = PyRef (length h)" "h' = h @ [ob]" by (auto simp: alloc_def)
  with inv_alloc [OF I assms]
  show "frame_inv n0 W h0 i b h' \<and> (fresh n0 y \<and> (\<exists>a. y = PyRef a))" by simp
qed

lemma tri_as_dict:
  "tri (frame_inv n0 W h0 i b) (as_dict err v)
     (\<lambda>d h. frame_inv n0 W h0 i b h \<and> ((fresh n0 v \<longrightarrow> obj_ok n0 (Dict d))
                \<and> (b \<and> v = PyRef i \<longrightarrow> ob_entry_ok n0 (Dict d))))
     (frame_inv n0 W h0 i False)"
proof (rule triI)
  fix h e h' assume "frame_inv n0 W h0 i b h" "as_dict err v h = (Inl e, h')"
  then show "frame_inv n0 W h0 i False h'"
    using as_dict_heap inv_drop by blast
next
  fix h d h' assume I: "frame_inv n0 W h0 i b h" and r: "as_dict err v h = (Inr d, h')"
  from as_dict_heap [OF r] have h': "h' = h" .
  from as_dict_ok [OF r] obtain a where a: "v = PyRef a" "a < length h" "h ! a = Dict d" by blast
  have "fresh n0 v \<longrightarrow> obj_ok n0 (Dict d)"
    using inv_made [OF I, of a] a by auto
  moreover have "b \<and> v = PyRef i \<longrightarrow> ob_entry_ok n0 (Dict d)"
    using inv_entry [of n0 W h0 i h] I a by auto
  ultimately show "frame_inv n0 W h0 i b h' \<and> ((fresh n0 v \<longrightarrow> obj_ok n0 (Dict d))
                \<and> (b \<and> v = PyRef i \<longrightarrow> ob_entry_ok n0 (Dict d)))"
    using I h' by simp
qed

lemma tri_deref:
  "tri (frame_inv n0 W h0 i b) (deref err v)
     (\<lambda>ob h. frame_inv n0 W h0 i b h \<and> (fresh n0 v \<longrightarrow> obj_ok n0 ob))
     (frame_inv n0 W h0 i False)"
proof (rule triI)
  fix h e h' assume "frame_inv n0 W h0 i b h" "deref err v h = (Inl e, h')"
  then show "frame_inv n0 W h0 i False h'"
    using deref_heap inv_drop by blast
next
  fix h ob h' assume I: "frame_inv n0 W h0 i b h" and r: "deref err v h = (Inr ob, h')"
  from deref_heap [OF r] have h': "h' = h" .
  from deref_ok [OF r] obtain a where a: "v = PyRef a" "a < length h" "ob = h ! a" by blast
  have "fresh n0 v \<longrightarrow> obj_ok n0 ob"
    using inv_made [OF I, of a] a by auto
  then show "frame_inv n0 W h0 i b h' \<and> (fresh n0 v \<longrightarrow> obj_ok n0 ob)"
    using I h' by simp
qed

lemma tri_store:
  assumes "writable n0 W v" "fresh n0 v \<Longrightarrow> obj_ok n0 ob" "b \<Longrightarrow> v = PyRef i \<Longrightarrow> ob_entry_ok n0 ob"
  shows "tri (frame_inv n0 W h0 i b) (store v ob) (\<lambda>_ h. frame_inv n0 W h0 i b h \<and> True) (frame_inv n0 W h0 i False)"
proof (rule triI)
  fix h e h' assume "frame_inv n0 W h0 i b h" "store v ob h = (Inl e, h')"
  then show "frame_inv n0 W h0 i False h'"
    using store_err inv_drop by blast
next
  fix h x h' assume I: "frame_inv n0 W h0 i b h" and r: "store v ob h = (Inr x, h')"
  from store_ok [OF r] obtain a where a: "v = PyRef a" "a < length h" "h' = h[a := ob]" by blast
  have "frame_inv n0 W h0 i b (h[a := ob])"
  proof (rule inv_store [OF I a(2)])
    show "n0 \<le> a \<or> a \<in> set W" using assms(1) a(1) by simp
    show "n0 \<le> a \<Longrightarrow> obj_ok n0 ob" using assms(2) a(1) by simp
    show "b \<Longrightarrow> a = i \<Longrightarrow> i < n0 \<Longrightarrow> ob_entry_ok n0 ob" using assms(3) a(1) by simp
  qed
  with a show "frame_inv n0 W h0 i b h' \<and> True" by simp
qed

lemma tri_store_entry:
  assumes "writable n0 W (PyRef i)" "n0 \<le> i \<Longrightarrow> obj_ok n0 ob" "ob_entry_ok n0 ob"
  shows "tri (frame_inv n0 W h0 i b) (store (PyRef i) ob) (\<lambda>_ h. frame_inv n0 W h0 i True h \<and> True)
           (frame_inv n0 W h0 i False)"
proof (rule triI)
  fix h e h' assume "frame_inv n0 W h0 i b h" "store (PyRef i) ob h = (Inl e, h')"
  then show "frame_inv n0 W h0 i False h'"
    using store_err inv_drop by blast
next
  fix h x h' assume I: "frame_inv n0 W h0 i b h" and r: "store (PyRef i) ob h = (Inr x, h')"
  from store_ok [OF r] have a: "i < length h" "h' = h[i := ob]" by auto
  have "frame_inv n0 W h0 i True (h[i := ob])"
  proof (rule inv_store_entry [OF I a(1)])
    show "n0 \<le> i \<or> i \<in> set W" using assms(1) by simp
    show "n0 \<le> i \<Longrightarrow> obj_ok n0 ob" using assms(2) by simp
    show "ob_entry_ok n0 ob" using assms(3) .
  qed
  with a show "frame_inv n0 W h0 i True h' \<and> True" by simp
qed


subsection \<open>The operations on dictionaries and lists\<close>

lemma tri_py_get:
  "tri (frame_inv n0 W h0 i b) (py_get v k dflt)
     (\<lambda>x h. frame_inv n0 W h0 i b h \<and> ((fresh n0 v \<and> k \<noteq> ''basis'' \<and> fresh n0 dflt \<longrightarrow> fresh n0 x)
                \<and> (b \<and> v = PyRef i \<and> k = ''engine_input'' \<and> dflt = PyNone \<longrightarrow> fresh n0 x)))
     (frame_inv n0 W h0 i False)"
  unfolding py_get_def
proof (rule tri_step [OF tri_as_dict])
  fix d
  assume d: "(fresh n0 v \<longrightarrow> obj_ok n0 (Dict d)) \<and> (b \<and> v = PyRef i \<longrightarrow> ob_entry_ok n0 (Dict d))"
  show "tri (frame_inv n0 W h0 i b) (ret (dict_get d k dflt))
     (\<lambda>x h. frame_inv n0 W h0 i b h \<and> ((fresh n0 v \<and> k \<noteq> ''basis'' \<and> fresh n0 dflt \<longrightarrow> fresh n0 x)
                \<and> (b \<and> v = PyRef i \<and> k = ''engine_input'' \<and> dflt = PyNone \<longrightarrow> fresh n0 x)))
     (frame_inv n0 W h0 i False)"
  proof (rule tri_ret_inv, intro conjI impI)
    assume "fresh n0 v \<and> k \<noteq> ''basis'' \<and> fresh n0 dflt"
    with d show "fresh n0 (dict_get d k dflt)" by (intro obj_ok_get) auto
  next
    assume "b \<and> v = PyRef i \<and> k = ''engine_input'' \<and> dflt = PyNone"
    with d show "fresh n0 (dict_get d k dflt)" by simp
  qed
qed

lemma tri_py_getitem:
  "tri (frame_inv n0 W h0 i b) (py_getitem v k)
     (\<lambda>x h. frame_inv n0 W h0 i b h \<and> ((fresh n0 v \<and> k \<noteq> ''basis'' \<longrightarrow> fresh n0 x)
                \<and> (b \<and> v = PyRef i \<and> k = ''engine_input'' \<longrightarrow> fresh n0 x)))
     (frame_inv n0 W h0 i False)"
  unfolding py_getitem_def
proof (rule tri_step [OF tri_as_dict])
  fix d
  assume d: "(fresh n0 v \<longrightarrow> obj_ok n0 (Dict d)) \<and> (b \<and> v = PyRef i \<longrightarrow> ob_entry_ok n0 (Dict d))"
  show "tri (frame_inv n0 W h0 i b) (case map_of d k of None \<Rightarrow> raise (KeyError k) | Some x \<Rightarrow> ret x)
     (\<lambda>x h. frame_inv n0 W h0 i b h \<and> ((fresh n0 v \<and> k \<noteq> ''basis'' \<longrightarrow> fresh n0 x)
                \<and> (b \<and> v = PyRef i \<and> k = ''engine_input'' \<longrightarrow> fresh n0 x)))
     (frame_inv n0 W h0 i False)"
  proof (cases "map_of d k")
    case None
    then show ?thesis by (simp add: tri_raise_inv)
  next
    case (Some x)
    have "tri (frame_inv n0 W h0 i b) (ret x)
     (\<lambda>x h. frame_inv n0 W h0 i b h \<and> ((fresh n0 v \<and> k \<noteq> ''basis'' \<longrightarrow> fresh n0 x)
                \<and> (b \<and> v = PyRef i \<and> k = ''engine_input'' \<longrightarrow> fresh n0 x)))
     (frame_inv n0 W h0 i False)"
    proof (rule tri_ret_inv, intro conjI impI)
      assume "fresh n0 v \<and> k \<noteq> ''basis''"
      with d Some show "fresh n0 x" using obj_ok_lookup [of n0 d k x] by auto
    next
      assume "b \<and> v = PyRef i \<and> k = ''engine_input''"
      with d Some show "fresh n0 x" by simp
    qed
    with Some show ?thesis by simp
  qed
qed

lemma tri_py_setitem:
  assumes "writable n0 W v" "k = ''basis'' \<or> fresh n0 x"
  shows "tri (frame_inv n0 W h0 i b) (py_setitem v k x) (\<lambda>_ h. frame_inv n0 W h0 i b h \<and> True) (frame_inv n0 W h0 i False)"
  unfolding py_setitem_def
proof (rule tri_step [OF tri_as_dict])
  fix d
  assume d: "(fresh n0 v \<longrightarrow> obj_ok n0 (Dict d)) \<and> (b \<and> v = PyRef i \<longrightarrow> ob_entry_ok n0 (Dict d))"
  show "tri (frame_inv n0 W h0 i b) (store v (Dict (AList.update k x d)))
          (\<lambda>_ h. frame_inv n0 W h0 i b h \<and> True) (frame_inv n0 W h0 i False)"
  proof (rule tri_store [OF assms(1)])
    assume "fresh n0 v"
    with d assms(2) show "obj_ok n0 (Dict (AList.update k x d))" by (intro obj_ok_update) auto
  next
    assume "b" "v = PyRef i"
    with d assms(2) show "ob_entry_ok n0 (Dict (AList.update k x d))" by (intro entry_update) auto
  qed
qed

lemma tri_py_setitem_entry:
  assumes "writable n0 W (PyRef i)" "fresh n0 x"
  shows "tri (frame_inv n0 W h0 i b) (py_setitem (PyRef i) ''engine_input'' x)
           (\<lambda>_ h. frame_inv n0 W h0 i True h \<and> True) (frame_inv n0 W h0 i False)"
  unfolding py_setitem_def
proof (rule tri_step [OF tri_as_dict])
  fix d
  assume d: "(fresh n0 (PyRef i) \<longrightarrow> obj_ok n0 (Dict d))
               \<and> (b \<and> PyRef i = PyRef i \<longrightarrow> ob_entry_ok n0 (Dict d))"
  show "tri (frame_inv n0 W h0 i b) (store (PyRef i) (Dict (AList.update ''engine_input'' x d)))
          (\<lambda>_ h. frame_inv n0 W h0 i True h \<and> True) (frame_inv n0 W h0 i False)"
  proof (rule tri_store_entry [OF assms(1)])
    assume "n0 \<le> i"
    with d assms(2) show "obj_ok n0 (Dict (AList.update ''engine_input'' x d))"
      by (intro obj_ok_update) auto
  next
    show "ob_entry_ok n0 (Dict (AList.update ''engine_input'' x d))"
      using assms(2) by (simp add: update_conv')
  qed
qed

lemma tri_py_pop:
  assumes "writable n0 W v"
  shows "tri (frame_inv n0 W h0 i b) (py_pop v k dflt)
     (\<lambda>x h. frame_inv n0 W h0 i b h
          \<and> (fresh n0 v \<and> k \<noteq> ''basis'' \<and> (\<forall>y. dflt = Some y \<longrightarrow> fresh n0 y) \<longrightarrow> fresh n0 x))
     (frame_inv n0 W h0 i False)"
  unfolding py_pop_def
proof (rule tri_step [OF tri_as_dict])
  fix d
  assume d: "(fresh n0 v \<longrightarrow> obj_ok n0 (Dict d)) \<and> (b \<and> v = PyRef i \<longrightarrow> ob_entry_ok n0 (Dict d))"
  let ?Q = "\<lambda>x h. frame_inv n0 W h0 i b h
          \<and> (fresh n0 v \<and> k \<noteq> ''basis'' \<and> (\<forall>y. dflt = Some y \<longrightarrow> fresh n0 y) \<longrightarrow> fresh n0 x)"
  show "tri (frame_inv n0 W h0 i b)
     (case map_of d k of
        Some x \<Rightarrow> bnd (store v (Dict (AList.delete k d))) (\<lambda>_. ret x)
      | None \<Rightarrow> (case dflt of Some y \<Rightarrow> ret y | None \<Rightarrow> raise (KeyError k)))
     ?Q (frame_inv n0 W h0 i False)"
  proof (cases "map_of d k")
    case None
    show ?thesis
    proof (cases dflt)
      case N: None
      with None show ?thesis by (simp add: tri_raise_inv)
    next
      case (Some y)
      have "tri (frame_inv n0 W h0 i b) (ret y) ?Q (frame_inv n0 W h0 i False)"
        by (rule tri_ret_inv) (simp add: Some)
      with None Some show ?thesis by simp
    qed
  next
    case (Some x)
    have "tri (frame_inv n0 W h0 i b) (bnd (store v (Dict (AList.delete k d))) (\<lambda>_. ret x))
            ?Q (frame_inv n0 W h0 i False)"
    proof (rule tri_step [OF tri_store [OF assms]])
      assume "fresh n0 v"
      with d show "obj_ok n0 (Dict (AList.delete k d))" by (intro obj_ok_delete) auto
    next
      assume "b" "v = PyRef i"
      with d show "ob_entry_ok n0 (Dict (AList.delete k d))" by (intro entry_delete) auto
    next
      fix u :: unit
      show "tri (frame_inv n0 W h0 i b) (ret x) ?Q (frame_inv n0 W h0 i False)"
      proof (rule tri_ret_inv, intro impI)
        assume "fresh n0 v \<and> k \<noteq> ''basis'' \<and> (\<forall>y. dflt = Some y \<longrightarrow> fresh n0 y)"
        with d Some show "fresh n0 x" using obj_ok_lookup [of n0 d k x] by auto
      qed
    qed
    with Some show ?thesis by simp
  qed
qed

lemma tri_py_update:
  assumes "writable n0 W v" "fresh n0 other"
  shows "tri (frame_inv n0 W h0 i b) (py_update v other) (\<lambda>_ h. frame_inv n0 W h0 i b h \<and> True)
           (frame_inv n0 W h0 i False)"
  unfolding py_update_def
proof (rule tri_step [OF tri_as_dict])
  fix d
  assume d: "(fresh n0 v \<longrightarrow> obj_ok n0 (Dict d)) \<and> (b \<and> v = PyRef i \<longrightarrow> ob_entry_ok n0 (Dict d))"
  show "tri (frame_inv n0 W h0 i b)
          (bnd (as_dict TypeError other)
             (\<lambda>new. store v (Dict (foldl (\<lambda>acc (k, x). AList.update k x acc) d new))))
          (\<lambda>_ h. frame_inv n0 W h0 i b h \<and> True) (frame_inv n0 W h0 i False)"
  proof (rule tri_step [OF tri_as_dict])
    fix new
    assume "(fresh n0 other \<longrightarrow> obj_ok n0 (Dict new))
              \<and> (b \<and> other = PyRef i \<longrightarrow> ob_entry_ok n0 (Dict new))"
    with assms(2) have new: "obj_ok n0 (Dict new)" by simp
    show "tri (frame_inv n0 W h0 i b) (store v (Dict (foldl (\<lambda>acc (k, x). AList.update k x acc) d new)))
            (\<lambda>_ h. frame_inv n0 W h0 i b h \<and> True) (frame_inv n0 W h0 i False)"
    proof (rule tri_store [OF assms(1)])
      assume "fresh n0 v"
      with d new show "obj_ok n0 (Dict (foldl (\<lambda>acc (k, x). AList.update k x acc) d new))"
        by (intro obj_ok_updates) auto
    next
      assume "b" "v = PyRef i"
      with d new show "ob_entry_ok n0 (Dict (foldl (\<lambda>acc (k, x). AList.update k x acc) d new))"
        by (intro entry_updates) auto
    qed
  qed
qed

lemma tri_py_append:
  assumes "writable n0 W v" "fresh n0 x"
  shows "tri (frame_inv n0 W h0 i b) (py_append v x) (\<lambda>_ h. frame_inv n0 W h0 i b h \<and> True)
           (frame_inv n0 W h0 i False)"
  unfolding py_append_def
proof (rule tri_step [OF tri_deref])
  fix ob
  assume ob: "fresh n0 v \<longrightarrow> obj_ok n0 ob"
  show "tri (frame_inv n0 W h0 i b)
          (case ob of PyList xs \<Rightarrow> store v (PyList (xs @ [x])) | Dict _ \<Rightarrow> raise AttributeError)
          (\<lambda>_ h. frame_inv n0 W h0 i b h \<and> True) (frame_inv n0 W h0 i False)"
  proof (cases ob)
    case (Dict d)
    then show ?thesis by (simp add: tri_raise_inv)
  next
    case (PyList xs)
    have "tri (frame_inv n0 W h0 i b) (store v (PyList (xs @ [x])))
            (\<lambda>_ h. frame_inv n0 W h0 i b h \<and> True) (frame_inv n0 W h0 i False)"
    proof (rule tri_store [OF assms(1)])
      assume "fresh n0 v"
      with ob PyList assms(2) show "obj_ok n0 (PyList (xs @ [x]))" by simp
    next
      show "ob_entry_ok n0 (PyList (xs @ [x]))" by simp
    qed
    with PyList show ?thesis by simp
  qed
qed


subsection \<open>\<^verbatim>\<open>deepcopy\<close> returns a new object\<close>

definition memo_ok :: "nat \<Rightarrow> memo \<Rightarrow> bool" where
  "memo_ok n0 memo = list_all (\<lambda>ab. n0 \<le> snd ab) memo"

lemma memo_ok_lookup: "memo_ok n0 memo \<Longrightarrow> map_of memo a = Some c \<Longrightarrow> n0 \<le> c"
  by (auto simp: memo_ok_def list_all_iff dest!: map_of_SomeD)

lemma obj_ok_zip: "list_all (fresh n0) vs \<Longrightarrow> obj_ok n0 (Dict (zip ks vs))"
  by (auto simp: list_all_iff dest: set_zip_rightD)

lemma tri_deepcopy_both:
  shows "memo_ok n0 memo \<longrightarrow>
      tri (frame_inv n0 W h0 i b) (deepcopy n memo v)
        (\<lambda>r h. frame_inv n0 W h0 i b h \<and> (fresh n0 (fst r) \<and> memo_ok n0 (snd r)))
        (frame_inv n0 W h0 i False)"
    and "memo_ok n0 memo' \<longrightarrow>
      tri (frame_inv n0 W h0 i b) (deepcopy_vals n' memo' vs)
        (\<lambda>r h. frame_inv n0 W h0 i b h \<and> (list_all (fresh n0) (fst r) \<and> memo_ok n0 (snd r)))
        (frame_inv n0 W h0 i False)"
proof (induction n memo v and n' memo' vs rule: deepcopy_deepcopy_vals.induct)
  case (1 memo v)
  show ?case by (simp add: tri_raise_inv)
next
  case (2 n memo v)
  show ?case
  proof
    assume mo: "memo_ok n0 memo"
    let ?Q = "\<lambda>r h. frame_inv n0 W h0 i b h \<and> (fresh n0 (fst r) \<and> memo_ok n0 (snd r))"
    show "tri (frame_inv n0 W h0 i b) (deepcopy (Suc n) memo v) ?Q (frame_inv n0 W h0 i False)"
    proof (cases "\<exists>a. v = PyRef a")
      case False
      then have "deepcopy (Suc n) memo v = ret (v, memo)" by (cases v) auto
      moreover from False have "fresh n0 v" by (cases v) auto
      ultimately show ?thesis using mo tri_ret_inv [of "\<lambda>r. fresh n0 (fst r) \<and> memo_ok n0 (snd r)" "(v, memo)"]
        by simp
    next
      case True
      then obtain a where v: "v = PyRef a" by blast
      show ?thesis
      proof (cases "map_of memo a")
        case (Some c)
        with v have "deepcopy (Suc n) memo v = ret (PyRef c, memo)" by simp
        moreover from memo_ok_lookup [OF mo Some] have "fresh n0 (PyRef c)" by simp
        ultimately show ?thesis
          using mo tri_ret_inv [of "\<lambda>r. fresh n0 (fst r) \<and> memo_ok n0 (snd r)" "(PyRef c, memo)"]
          by simp
      next
        case None
        have fill: "tri (frame_inv n0 W h0 i b)
              (bnd (alloc empty)
                 (\<lambda>y. bnd (deepcopy_vals n ((a, case y of PyRef c \<Rightarrow> c | _ \<Rightarrow> 0) # memo) xs)
                    (\<lambda>r. bnd (store y (mk (fst r))) (\<lambda>_. ret (y, snd r)))))
              ?Q (frame_inv n0 W h0 i False)"
          if emp: "obj_ok n0 empty"
            and mk: "\<And>ys. list_all (fresh n0) ys \<Longrightarrow> obj_ok n0 (mk ys)"
            and ih: "\<And>y. memo_ok n0 ((a, case y of PyRef c \<Rightarrow> c | _ \<Rightarrow> 0) # memo) \<longrightarrow>
                tri (frame_inv n0 W h0 i b)
                  (deepcopy_vals n ((a, case y of PyRef c \<Rightarrow> c | _ \<Rightarrow> 0) # memo) xs)
                  (\<lambda>r h. frame_inv n0 W h0 i b h \<and> (list_all (fresh n0) (fst r) \<and> memo_ok n0 (snd r)))
                  (frame_inv n0 W h0 i False)"
          for empty mk xs
        proof (rule tri_step [OF tri_alloc [OF emp]])
          fix y assume y: "fresh n0 y \<and> (\<exists>c. y = PyRef c)"
          then obtain c where c: "y = PyRef c" "n0 \<le> c" by auto
          with mo have "memo_ok n0 ((a, case y of PyRef c \<Rightarrow> c | _ \<Rightarrow> 0) # memo)"
            by (simp add: memo_ok_def)
          with ih [of y] have t: "tri (frame_inv n0 W h0 i b)
                  (deepcopy_vals n ((a, case y of PyRef c \<Rightarrow> c | _ \<Rightarrow> 0) # memo) xs)
                  (\<lambda>r h. frame_inv n0 W h0 i b h \<and> (list_all (fresh n0) (fst r) \<and> memo_ok n0 (snd r)))
                  (frame_inv n0 W h0 i False)" by simp
          show "tri (frame_inv n0 W h0 i b)
                 (bnd (deepcopy_vals n ((a, case y of PyRef c \<Rightarrow> c | _ \<Rightarrow> 0) # memo) xs)
                    (\<lambda>r. bnd (store y (mk (fst r))) (\<lambda>_. ret (y, snd r))))
                 ?Q (frame_inv n0 W h0 i False)"
          proof (rule tri_step [OF t])
            fix r assume r: "list_all (fresh n0) (fst r) \<and> memo_ok n0 (snd r)"
            show "tri (frame_inv n0 W h0 i b) (bnd (store y (mk (fst r))) (\<lambda>_. ret (y, snd r)))
                    ?Q (frame_inv n0 W h0 i False)"
            proof (rule tri_step [OF tri_store])
              show "writable n0 W y" using c by simp
              show "obj_ok n0 (mk (fst r))" using r mk by simp
              show "ob_entry_ok n0 (mk (fst r))" using r mk by (intro obj_ok_entry) simp
            next
              fix u :: unit
              show "tri (frame_inv n0 W h0 i b) (ret (y, snd r)) ?Q (frame_inv n0 W h0 i False)"
                by (rule tri_ret_inv) (use y r in simp)
            qed
          qed
        qed
        have "tri (frame_inv n0 W h0 i b)
                (bnd (deref TypeError v) (\<lambda>ob. case ob of
                    Dict d \<Rightarrow>
                      bnd (alloc (Dict []))
                        (\<lambda>y. bnd (deepcopy_vals n ((a, case y of PyRef b \<Rightarrow> b | _ \<Rightarrow> 0) # memo) (map snd d))
                          (\<lambda>r. bnd (store y (Dict (zip (map fst d) (fst r))))
                            (\<lambda>_. ret (y, snd r))))
                  | PyList xs \<Rightarrow>
                      bnd (alloc (PyList []))
                        (\<lambda>y. bnd (deepcopy_vals n ((a, case y of PyRef b \<Rightarrow> b | _ \<Rightarrow> 0) # memo) xs)
                          (\<lambda>r. bnd (store y (PyList (fst r)))
                            (\<lambda>_. ret (y, snd r))))))
                ?Q (frame_inv n0 W h0 i False)"
        proof (rule tri_step [OF tri_deref])
          fix ob
          show "tri (frame_inv n0 W h0 i b) (case ob of
                    Dict d \<Rightarrow>
                      bnd (alloc (Dict []))
                        (\<lambda>y. bnd (deepcopy_vals n ((a, case y of PyRef b \<Rightarrow> b | _ \<Rightarrow> 0) # memo) (map snd d))
                          (\<lambda>r. bnd (store y (Dict (zip (map fst d) (fst r))))
                            (\<lambda>_. ret (y, snd r))))
                  | PyList xs \<Rightarrow>
                      bnd (alloc (PyList []))
                        (\<lambda>y. bnd (deepcopy_vals n ((a, case y of PyRef b \<Rightarrow> b | _ \<Rightarrow> 0) # memo) xs)
                          (\<lambda>r. bnd (store y (PyList (fst r)))
                            (\<lambda>_. ret (y, snd r)))))
                ?Q (frame_inv n0 W h0 i False)"
          proof (cases ob)
            case (Dict d)
            have "tri (frame_inv n0 W h0 i b)
              (bnd (alloc (Dict []))
                 (\<lambda>y. bnd (deepcopy_vals n ((a, case y of PyRef c \<Rightarrow> c | _ \<Rightarrow> 0) # memo) (map snd d))
                    (\<lambda>r. bnd (store y (Dict (zip (map fst d) (fst r)))) (\<lambda>_. ret (y, snd r)))))
              ?Q (frame_inv n0 W h0 i False)"
              by (rule fill [where mk = "\<lambda>ys. Dict (zip (map fst d) ys)"])
                 (use "2.IH"(1) [OF v None] obj_ok_zip in auto)
            with Dict show ?thesis by simp
          next
            case (PyList xs)
            have "tri (frame_inv n0 W h0 i b)
              (bnd (alloc (PyList []))
                 (\<lambda>y. bnd (deepcopy_vals n ((a, case y of PyRef c \<Rightarrow> c | _ \<Rightarrow> 0) # memo) xs)
                    (\<lambda>r. bnd (store y (PyList (fst r))) (\<lambda>_. ret (y, snd r)))))
              ?Q (frame_inv n0 W h0 i False)"
              by (rule fill [where mk = PyList]) (use "2.IH"(2) [OF v None] in auto)
            with PyList show ?thesis by simp
          qed
        qed
        with v None show ?thesis by simp
      qed
    qed
  qed
next
  case (3 n memo)
  show ?case
    using tri_ret_inv [of "\<lambda>r. list_all (fresh n0) (fst r) \<and> memo_ok n0 (snd r)" "([], memo)"]
    by simp
next
  case (4 n memo v vs)
  show ?case
  proof
    assume mo: "memo_ok n0 memo"
    with 4(1) have t: "tri (frame_inv n0 W h0 i b) (deepcopy n memo v)
        (\<lambda>r h. frame_inv n0 W h0 i b h \<and> (fresh n0 (fst r) \<and> memo_ok n0 (snd r)))
        (frame_inv n0 W h0 i False)" by simp
    show "tri (frame_inv n0 W h0 i b) (deepcopy_vals n memo (v # vs))
        (\<lambda>r h. frame_inv n0 W h0 i b h \<and> (list_all (fresh n0) (fst r) \<and> memo_ok n0 (snd r)))
        (frame_inv n0 W h0 i False)"
      unfolding deepcopy_vals.simps
    proof (rule tri_step [OF t])
      fix r assume r: "fresh n0 (fst r) \<and> memo_ok n0 (snd r)"
      with 4(2) [of r] have t2: "tri (frame_inv n0 W h0 i b) (deepcopy_vals n (snd r) vs)
        (\<lambda>r h. frame_inv n0 W h0 i b h \<and> (list_all (fresh n0) (fst r) \<and> memo_ok n0 (snd r)))
        (frame_inv n0 W h0 i False)" by simp
      show "tri (frame_inv n0 W h0 i b)
              (bnd (deepcopy_vals n (snd r) vs) (\<lambda>rs. ret (fst r # fst rs, snd rs)))
              (\<lambda>r h. frame_inv n0 W h0 i b h \<and> (list_all (fresh n0) (fst r) \<and> memo_ok n0 (snd r)))
              (frame_inv n0 W h0 i False)"
      proof (rule tri_step [OF t2])
        fix rs assume "list_all (fresh n0) (fst rs) \<and> memo_ok n0 (snd rs)"
        with r show "tri (frame_inv n0 W h0 i b) (ret (fst r # fst rs, snd rs))
              (\<lambda>r h. frame_inv n0 W h0 i b h \<and> (list_all (fresh n0) (fst r) \<and> memo_ok n0 (snd r)))
              (frame_inv n0 W h0 i False)"
          by (intro tri_ret_inv) simp
      qed
    qed
  qed
qed

lemma tri_deepcopy:
  "tri (frame_inv n0 W h0 i b) (deepcopy n [] v)
     (\<lambda>r h. frame_inv n0 W h0 i b h \<and> fresh n0 (fst r)) (frame_inv n0 W h0 i False)"
proof -
  have "memo_ok n0 []" by (simp add: memo_ok_def)
  with tri_deepcopy_both(1) [of n0 "[]" W h0 i b n v]
  have "tri (frame_inv n0 W h0 i b) (deepcopy n [] v)
        (\<lambda>r h. frame_inv n0 W h0 i b h \<and> (fresh n0 (fst r) \<and> memo_ok n0 (snd r)))
        (frame_inv n0 W h0 i False)" by blast
  then show ?thesis by (rule tri_weaken) auto
qed


subsection \<open>The functions and methods of the NWChem task\<close>

lemma fresh_writable: "fresh n0 v \<Longrightarrow> writable n0 W v"
  by (cases v) auto

text \<open>Computations that leave the store as it is.\<close>

definition reads_only :: "'a prog \<Rightarrow> bool" where
  "reads_only m = (\<forall>h. snd (m h) = h)"

lemma reads_only_ret: "reads_only (ret x)"
  by (simp add: reads_only_def ret_def)

lemma reads_only_raise: "reads_only (raise e)"
  by (simp add: reads_only_def raise_def)

lemma reads_only_lift: "reads_only (lift r)"
  by (simp add: reads_only_def lift_def)

lemma reads_only_reads: "reads_only (reads g)"
  by (simp add: reads_only_def reads_def)

lemma reads_only_deref: "reads_only (deref err v)"
  unfolding reads_only_def
proof
  fix h
  obtain r h' where "deref err v h = (r, h')" by (cases "deref err v h")
  with deref_heap [OF this] show "snd (deref err v h) = h" by simp
qed

lemma reads_only_bnd:
  assumes "reads_only m" "\<And>x. reads_only (f x)"
  shows "reads_only (bnd m f)"
  unfolding reads_only_def
proof
  fix h
  obtain r h1 where m: "m h = (r, h1)" by (cases "m h")
  with assms(1) have h1: "h1 = h" by (auto simp: reads_only_def dest: spec [of _ h])
  show "snd (bnd m f h) = h"
  proof (cases r)
    case (Inl e)
    with m h1 show ?thesis by (simp add: bnd_def)
  next
    case (Inr x)
    with m h1 assms(2) [of x] show ?thesis by (simp add: bnd_def reads_only_def)
  qed
qed

lemma tri_reads_only:
  assumes "reads_only m"
  shows "tri (frame_inv n0 W h0 i b) m (\<lambda>_ h. frame_inv n0 W h0 i b h \<and> True)
           (frame_inv n0 W h0 i False)"
proof (rule triI)
  fix h e h' assume I: "frame_inv n0 W h0 i b h" and r: "m h = (Inl e, h')"
  from assms r have "h' = h" by (auto simp: reads_only_def dest: spec [of _ h])
  with I show "frame_inv n0 W h0 i False h'" by (simp add: inv_drop)
next
  fix h x h' assume I: "frame_inv n0 W h0 i b h" and r: "m h = (Inr x, h')"
  from assms r have "h' = h" by (auto simp: reads_only_def dest: spec [of _ h])
  with I show "frame_inv n0 W h0 i b h' \<and> True" by simp
qed

lemma reads_only_py_truth: "reads_only (py_truth v)"
  unfolding py_truth_def
  by (cases v) (auto intro!: reads_only_ret reads_only_bnd reads_only_deref split: pyobj.splits)

lemma reads_only_py_contains: "reads_only (py_contains k v)"
  unfolding py_contains_def
  by (cases v)
     (auto intro!: reads_only_ret reads_only_raise reads_only_bnd reads_only_deref
           split: pyobj.splits)

lemma reads_only_read_pol_dir: "reads_only (read_pol_dir pol)"
  unfolding read_pol_dir_def
  by (cases pol)
     (auto intro!: reads_only_ret reads_only_raise reads_only_bnd reads_only_deref
           split: pyobj.splits)

lemma tri_lift:
  "tri (frame_inv n0 W h0 i b) (lift r) (\<lambda>x h. frame_inv n0 W h0 i b h \<and> r = Inr x)
     (frame_inv n0 W h0 i False)"
  by (rule triI) (auto simp: lift_def intro: inv_drop)

lemma tri_float_or_raise:
  "tri (frame_inv n0 W h0 i b) (float_or_raise r) (\<lambda>x h. frame_inv n0 W h0 i b h \<and> fresh n0 x)
     (frame_inv n0 W h0 i False)"
  by (rule triI) (auto simp: float_or_raise_def ret_def raise_def intro: inv_drop split: option.splits)

lemma tri_laser_l_of:
  "tri (frame_inv n0 W h0 i b) (laser_l_of lasers)
     (\<lambda>xs h. frame_inv n0 W h0 i b h \<and> (fresh n0 lasers \<longrightarrow> list_all (fresh n0) xs))
     (frame_inv n0 W h0 i False)"
proof (cases "\<exists>a. lasers = PyRef a")
  case False
  then have "laser_l_of lasers = ret [lasers]" by (cases lasers) (auto simp: laser_l_of_def)
  then show ?thesis
    using tri_ret_inv [of "\<lambda>xs. fresh n0 lasers \<longrightarrow> list_all (fresh n0) xs" "[lasers]"] by simp
next
  case True
  then obtain a where a: "lasers = PyRef a" by blast
  have "tri (frame_inv n0 W h0 i b) (laser_l_of (PyRef a))
          (\<lambda>xs h. frame_inv n0 W h0 i b h \<and> (fresh n0 (PyRef a) \<longrightarrow> list_all (fresh n0) xs))
          (frame_inv n0 W h0 i False)"
    unfolding laser_l_of_def pyval.case
  proof (rule tri_step [OF tri_deref])
    fix ob assume ob: "fresh n0 (PyRef a) \<longrightarrow> obj_ok n0 ob"
    show "tri (frame_inv n0 W h0 i b) (case ob of PyList xs \<Rightarrow> ret xs | Dict _ \<Rightarrow> ret [PyRef a])
          (\<lambda>xs h. frame_inv n0 W h0 i b h \<and> (fresh n0 (PyRef a) \<longrightarrow> list_all (fresh n0) xs))
          (frame_inv n0 W h0 i False)"
      using ob by (cases ob) (auto intro!: tri_ret_inv)
  qed
  with a show ?thesis by simp
qed

lemma tri_out_print:
  "tri (frame_inv n0 W h0 i b) (out_print property)
     (\<lambda>x h. frame_inv n0 W h0 i b h \<and> fresh n0 x) (frame_inv n0 W h0 i False)"
  unfolding out_print_def
proof (rule tri_step [OF tri_reads_only [OF reads_only_py_contains]])
  fix s
  show "tri (frame_inv n0 W h0 i b)
          (bnd (py_contains ''mo_population'' property)
             (\<lambda>m. alloc (PyList ((if s then [PyStr ''dipole''] else [])
                                   @ (if m then [PyStr ''moocc''] else [])))))
          (\<lambda>x h. frame_inv n0 W h0 i b h \<and> fresh n0 x) (frame_inv n0 W h0 i False)"
  proof (rule tri_step [OF tri_reads_only [OF reads_only_py_contains]])
    fix m
    have "obj_ok n0 (PyList ((if s then [PyStr ''dipole''] else []) @ (if m then [PyStr ''moocc''] else [])))"
      by simp
    from tri_alloc [OF this]
    show "tri (frame_inv n0 W h0 i b)
            (alloc (PyList ((if s then [PyStr ''dipole''] else []) @ (if m then [PyStr ''moocc''] else []))))
            (\<lambda>x h. frame_inv n0 W h0 i b h \<and> fresh n0 x) (frame_inv n0 W h0 i False)"
      by (rule tri_weaken) auto
  qed
qed

lemma tri_alloc_fresh:
  assumes "obj_ok n0 ob"
  shows "tri (frame_inv n0 W h0 i b) (alloc ob) (\<lambda>x h. frame_inv n0 W h0 i b h \<and> fresh n0 x)
           (frame_inv n0 W h0 i False)"
  using tri_alloc [OF assms] by (rule tri_weaken) auto

lemma tri_if:
  assumes "c \<Longrightarrow> tri P m1 Q E" "\<not> c \<Longrightarrow> tri P m2 Q E"
  shows "tri P (if c then m1 else m2) Q E"
  using assms by simp

lemma tri_add_gaussian_laser:
  assumes "fresh n0 laser"
  shows "tri (frame_inv n0 W h0 i b) (add_gaussian_laser nm laser)
           (\<lambda>x h. frame_inv n0 W h0 i b h \<and> fresh n0 x) (frame_inv n0 W h0 i False)"
  unfolding add_gaussian_laser_def
  apply (rule tri_step [OF tri_py_getitem])
  apply (rule tri_step [OF tri_reads_only [OF reads_only_read_pol_dir]])
  apply (rule tri_step [OF tri_py_getitem])
  apply (rule tri_step [OF tri_py_getitem])
  apply (rule tri_step [OF tri_py_getitem])
  apply (rule tri_step [OF tri_py_getitem])
  apply (rule tri_step [OF tri_reads_only [OF reads_only_read_pol_dir]])
  apply (rule tri_step [OF tri_py_getitem])
  apply (rule tri_alloc_fresh)
  apply (simp add: assms)
  done

lemma tri_add_delta_laser:
  assumes "fresh n0 laser"
  shows "tri (frame_inv n0 W h0 i b) (add_delta_laser nm laser)
           (\<lambda>x h. frame_inv n0 W h0 i b h \<and> fresh n0 x) (frame_inv n0 W h0 i False)"
  unfolding add_delta_laser_def
  apply (rule tri_step [OF tri_py_getitem])
  apply (rule tri_step [OF tri_reads_only [OF reads_only_read_pol_dir]])
  apply (rule tri_step [OF tri_py_getitem])
  apply (rule tri_step [OF tri_reads_only [OF reads_only_read_pol_dir]])
  apply (rule tri_step [OF tri_py_getitem])
  apply (rule tri_alloc_fresh)
  apply (simp add: assms)
  done

lemma tri_laser_loop:
  assumes "fresh n0 pol" "fresh n0 laser_list"
  shows "list_all (fresh n0) ls \<Longrightarrow> (\<forall>x. prev = Some x \<longrightarrow> fresh n0 x) \<Longrightarrow>
         tri (frame_inv n0 W h0 i b) (laser_loop pol laser_list n prev ls)
           (\<lambda>_ h. frame_inv n0 W h0 i b h \<and> True) (frame_inv n0 W h0 i False)"
proof (induction ls arbitrary: n prev)
  case Nil
  show ?case unfolding laser_loop.simps by (rule tri_ret_inv) simp
next
  case (Cons laser rest)
  from Cons.prems have fl: "fresh n0 laser" and fr: "list_all (fresh n0) rest" by auto
  let ?I = "frame_inv n0 W h0 i b"
  let ?E = "frame_inv n0 W h0 i False"
  have setpol: "tri ?I (if map_of d ''polarization'' = None then py_setitem laser ''polarization'' pol
                 else ret ()) (\<lambda>_ h. ?I h \<and> True) ?E" for d
  proof (rule tri_if)
    show "tri ?I (py_setitem laser ''polarization'' pol) (\<lambda>_ h. ?I h \<and> True) ?E"
      by (rule tri_py_setitem) (simp_all add: fresh_writable fl assms)
    show "tri ?I (ret ()) (\<lambda>_ h. ?I h \<and> True) ?E"
      by (rule tri_ret_inv) simp
  qed
  have pick: "tri ?I
        (if ty = PyStr ''gaussian'' then bnd (add_gaussian_laser (dec n) laser) (\<lambda>x. ret (Some x))
         else if ty = PyStr ''delta'' then bnd (add_delta_laser (dec n) laser) (\<lambda>x. ret (Some x))
         else ret prev)
        (\<lambda>cur h. ?I h \<and> (\<forall>x. cur = Some x \<longrightarrow> fresh n0 x)) ?E" for ty
  proof (intro tri_if)
    show "tri ?I (bnd (add_gaussian_laser (dec n) laser) (\<lambda>x. ret (Some x)))
            (\<lambda>cur h. ?I h \<and> (\<forall>x. cur = Some x \<longrightarrow> fresh n0 x)) ?E"
      by (rule tri_step [OF tri_add_gaussian_laser [OF fl]]) (auto intro!: tri_ret_inv)
    show "tri ?I (bnd (add_delta_laser (dec n) laser) (\<lambda>x. ret (Some x)))
            (\<lambda>cur h. ?I h \<and> (\<forall>x. cur = Some x \<longrightarrow> fresh n0 x)) ?E"
      by (rule tri_step [OF tri_add_delta_laser [OF fl]]) (auto intro!: tri_ret_inv)
    show "tri ?I (ret prev) (\<lambda>cur h. ?I h \<and> (\<forall>x. cur = Some x \<longrightarrow> fresh n0 x)) ?E"
      using Cons.prems(2) by (intro tri_ret_inv) simp
  qed
  show ?case
    unfolding laser_loop.simps
  proof (rule tri_step [OF tri_as_dict])
    fix d
    show "tri ?I
       (bnd (if map_of d ''polarization'' = None then py_setitem laser ''polarization'' pol else ret ())
         (\<lambda>_. bnd (py_getitem laser ''type'')
           (\<lambda>ty. bnd (if ty = PyStr ''gaussian''
                       then bnd (add_gaussian_laser (dec n) laser) (\<lambda>x. ret (Some x))
                       else if ty = PyStr ''delta''
                       then bnd (add_delta_laser (dec n) laser) (\<lambda>x. ret (Some x))
                       else ret prev)
             (\<lambda>cur. case cur of None \<Rightarrow> raise UnboundLocalError
                | Some laser_dict \<Rightarrow>
                    bnd (py_append laser_list laser_dict)
                      (\<lambda>_. laser_loop pol laser_list (Suc n) cur rest)))))
       (\<lambda>_ h. ?I h \<and> True) ?E"
    proof (rule tri_step [OF setpol])
      show "tri ?I (bnd (py_getitem laser ''type'')
           (\<lambda>ty. bnd (if ty = PyStr ''gaussian''
                       then bnd (add_gaussian_laser (dec n) laser) (\<lambda>x. ret (Some x))
                       else if ty = PyStr ''delta''
                       then bnd (add_delta_laser (dec n) laser) (\<lambda>x. ret (Some x))
                       else ret prev)
             (\<lambda>cur. case cur of None \<Rightarrow> raise UnboundLocalError
                | Some laser_dict \<Rightarrow>
                    bnd (py_append laser_list laser_dict)
                      (\<lambda>_. laser_loop pol laser_list (Suc n) cur rest))))
       (\<lambda>_ h. ?I h \<and> True) ?E"
      proof (rule tri_step [OF tri_py_getitem])
        fix ty
        show "tri ?I (bnd (if ty = PyStr ''gaussian''
                       then bnd (add_gaussian_laser (dec n) laser) (\<lambda>x. ret (Some x))
                       else if ty = PyStr ''delta''
                       then bnd (add_delta_laser (dec n) laser) (\<lambda>x. ret (Some x))
                       else ret prev)
             (\<lambda>cur. case cur of None \<Rightarrow> raise UnboundLocalError
                | Some laser_dict \<Rightarrow>
                    bnd (py_append laser_list laser_dict)
                      (\<lambda>_. laser_loop pol laser_list (Suc n) cur rest)))
           (\<lambda>_ h. ?I h \<and> True) ?E"
        proof (rule tri_step [OF pick])
          fix cur assume cur: "\<forall>x. cur = Some x \<longrightarrow> fresh n0 x"
          show "tri ?I (case cur of None \<Rightarrow> raise UnboundLocalError
                | Some laser_dict \<Rightarrow>
                    bnd (py_append laser_list laser_dict)
                      (\<lambda>_. laser_loop pol laser_list (Suc n) cur rest))
                 (\<lambda>_ h. ?I h \<and> True) ?E"
          proof (cases cur)
            case None
            then show ?thesis by (simp add: tri_raise_inv)
          next
            case (Some laser_dict)
            with cur have fd: "fresh n0 laser_dict" by simp
            have "tri ?I (bnd (py_append laser_list laser_dict)
                      (\<lambda>_. laser_loop pol laser_list (Suc n) cur rest))
                   (\<lambda>_ h. ?I h \<and> True) ?E"
            proof (rule tri_step [OF tri_py_append])
              show "writable n0 W laser_list" using assms(2) by (rule fresh_writable)
              show "fresh n0 laser_dict" by (rule fd)
              show "tri ?I (laser_loop pol laser_list (Suc n) cur rest) (\<lambda>_ h. ?I h \<and> True) ?E"
                by (rule Cons.IH [OF fr cur])
            qed
            with Some show ?thesis by simp
          qed
        qed
      qed
    qed
  qed
qed

lemma tri_ret_plain:
  "tri (frame_inv n0 W h0 i b) (ret x) (\<lambda>_. frame_inv n0 W h0 i b) (frame_inv n0 W h0 i False)"
  by (rule tri_ret) simp

lemma tri_update_td_param:
  assumes "fresh n0 prm"
  shows "tri (frame_inv n0 W h0 i b) (update_td_param ev prm)
           (\<lambda>_ h. frame_inv n0 W h0 i b h \<and> True) (frame_inv n0 W h0 i False)"
proof -
  have w: "writable n0 W prm" using assms by (rule fresh_writable)
  note pop = tri_py_pop [OF w]
  show ?thesis
    unfolding update_td_param_def
    apply (rule tri_step [OF pop])
    apply (rule tri_step [OF pop])
    apply (rule tri_step [OF pop])
    apply (rule tri_step [OF pop])
    apply (rule tri_step [OF pop])
    apply (rule tri_step [OF pop])
    apply (rule tri_step [OF pop])
    apply (rule tri_step [OF pop])
    apply (rule tri_step [OF tri_float_or_raise])
    apply (rule tri_step [OF tri_float_or_raise])
    apply (rule tri_step [OF tri_out_print])
    apply (rule tri_step [OF tri_alloc_fresh])
     apply simp
    apply (rule tri_step [OF tri_py_setitem])
      apply (rule w)
     apply simp
    apply (rule tri_step [OF tri_reads_only [OF reads_only_py_truth]])
    apply (rule tri_if)
     apply (rule tri_step [OF tri_laser_l_of])
     apply (rule tri_step [OF pop])
     apply (rule tri_step [OF tri_alloc_fresh])
      apply simp
     apply (rule tri_step [OF tri_py_getitem])
     apply (rule tri_step [OF tri_py_setitem])
       apply (simp add: assms fresh_writable)
      apply simp
     apply (rule tri_laser_loop)
        apply (simp add: assms)
       apply simp
      apply (simp add: assms)
     apply simp
    apply (rule tri_step [OF tri_reads_only [OF reads_only_read_pol_dir]])
    apply (rule tri_step [OF tri_reads_only [OF reads_only_read_pol_dir]])
    apply (rule tri_step [OF tri_alloc_fresh])
     apply (simp add: assms)
    apply (rule tri_step [OF tri_py_getitem])
    apply (rule tri_py_setitem)
     apply (simp add: assms fresh_writable)
    apply simp
    done
qed

lemma tri_dependent_txt_out:
  "tri (frame_inv n0 W h0 i b) (dependent_txt_out self k)
     (\<lambda>_ h. frame_inv n0 W h0 i b h \<and> True) (frame_inv n0 W h0 i False)"
  unfolding dependent_txt_out_def
  apply (rule tri_step [OF tri_lift])
  apply (rule tri_step [OF tri_py_get])
  subgoal for dep v by (cases v) (simp_all add: tri_raise_inv tri_ret_plain)
  done

lemma tri_dependent_basis:
  "tri (frame_inv n0 W h0 i b) (dependent_basis self)
     (\<lambda>_ h. frame_inv n0 W h0 i b h \<and> True) (frame_inv n0 W h0 i False)"
  unfolding dependent_basis_def
  apply (rule tri_step [OF tri_lift])
  apply (rule tri_weaken [OF tri_py_get])
    apply simp_all
  done

lemma format_gs_param_fresh:
  assumes "format_gs_param xv bv d = Inr g" "obj_ok n0 (Dict d)"
  shows "fresh n0 (dft_xc g) \<and> fresh n0 (dft_convergence_energy g)
           \<and> fresh n0 (dft_convergence_density g) \<and> fresh n0 (dft_iterations g)"
proof -
  have "fresh n0 (dict_get d ''xc'' PyNone)" "fresh n0 (dict_get d ''energy_conv'' (PyFloat 1 (- 5)))"
    "fresh n0 (dict_get d ''density_conv'' (PyFloat 1 (- 7)))" "fresh n0 (dict_get d ''max_iter'' PyNone)"
    by (rule obj_ok_get [OF assms(2)]; simp)+
  with assms(1) show ?thesis
    by (auto simp: format_gs_param_def Let_def split: if_splits)
qed

lemma tri_gs_user_input:
  assumes "fresh n0 prm"
  shows "tri (frame_inv n0 W h0 i b) (gs_user_input ev prm)
           (\<lambda>x h. frame_inv n0 W h0 i b h \<and> fresh n0 x) (frame_inv n0 W h0 i False)"
  unfolding gs_user_input_def
  apply (rule tri_step [OF tri_as_dict])
  apply (rule tri_step [OF tri_lift])
  apply (rule tri_step [OF tri_alloc_fresh])
   apply (simp add: assms format_gs_param_fresh)
  apply (rule tri_step [OF tri_alloc_fresh])
   apply (simp add: assms format_gs_param_fresh)
  apply (rule tri_alloc_fresh)
  apply simp
  done

lemma tri_create_engine:
  assumes prm: "fresh n0 prm"
    and iw: "input (task_info self) \<in> set W" and ow: "ti_output (task_info self) \<in> set W"
  shows "tri (frame_inv n0 W h0 (input (task_info self)) b) (create_engine cls ev fs self tdata prm)
     (\<lambda>t h. frame_inv n0 W h0 (input (task_info self)) True h
              \<and> (user_input t = prm \<and> task_info t = task_info self))
     (frame_inv n0 W h0 (input (task_info self)) False)"
proof (cases "assign_task_dir fs (project_dir self) (task_name self)")
  case None
  then show ?thesis by (simp add: create_engine_def tri_raise_inv)
next
  case (Some tdir)
  let ?i = "input (task_info self)"
  let ?I = "frame_inv n0 W h0 ?i True"
  let ?E = "frame_inv n0 W h0 ?i False"
  have w: "writable n0 W prm" using prm by (rule fresh_writable)
  have A: "tri ?I (if c then dependent_txt_out self 1 else ret out0) (\<lambda>_ h. ?I h \<and> True) ?E"
    for c out0
    by (rule tri_if) (rule tri_dependent_txt_out, rule tri_ret_inv, simp)
  have B: "tri ?I
      (if c then
         bnd (py_setitem prm ''restart_kw'' (PyStr ''restart'')) (\<lambda>_.
         bnd (dependent_basis self) (\<lambda>bs.
         bnd (py_setitem prm ''basis'' bs) (\<lambda>_.
           update_td_param ev prm)))
       else ret ()) (\<lambda>_ h. ?I h \<and> True) ?E" for c
    apply (rule tri_if)
     apply (rule tri_step [OF tri_py_setitem [OF w]])
      apply simp
     apply (rule tri_step [OF tri_dependent_basis])
     apply (rule tri_step [OF tri_py_setitem [OF w]])
      apply simp
     apply (rule tri_update_td_param [OF prm])
    apply (rule tri_ret_inv)
    apply simp
    done
  show ?thesis
    unfolding create_engine_def Some option.case
    apply (rule tri_step [OF tri_lift])
    apply (rule tri_step [OF tri_alloc_fresh])
     apply simp
    apply (rule tri_step [OF tri_py_setitem_entry])
      apply (simp add: iw)
     apply simp
    apply (rule tri_if)
     apply (rule tri_step [OF tri_dependent_txt_out])
     apply (rule tri_step [OF A])
     apply (rule tri_ret_inv)
     apply (simp add: task.defs nwchem_task.defs)
    apply (rule tri_step [OF tri_py_setitem [OF w]])
     apply simp
    apply (rule tri_step [OF tri_py_setitem [OF w]])
     apply simp
    apply (rule tri_step [OF B])
    apply (split option.split)
    apply (intro conjI impI allI)
     apply (rule tri_raise_inv)
    apply (rule tri_step [OF tri_lift])
    apply (rule tri_step [OF tri_py_getitem])
    apply (rule tri_step [OF tri_py_setitem])
      apply (simp add: fresh_writable)
     apply simp
    apply (rule tri_step [OF tri_py_setitem])
      apply (simp add: ow)
     apply simp
    apply (rule tri_step [OF tri_as_dict])
    apply (rule tri_if)
     apply (rule tri_raise_inv)
    apply (rule tri_ret_inv)
    apply (simp add: task.defs nwchem_task.defs)
    done
qed

lemma Task_init_info: "Task_init cfg ti deps = Inr self \<Longrightarrow> task_info self = ti"
  by (auto simp: Task_init_def split: sum.splits)

lemma tri_BaseNwchemTask_init:
  assumes iw: "input ti \<in> set W" and ow: "ti_output ti \<in> set W"
  shows "tri (frame_inv n0 W h0 (input ti) b) (BaseNwchemTask_init cls ev fs cfg ti deps)
     (\<lambda>t h. frame_inv n0 W h0 (input ti) True h \<and> (fresh n0 (user_input t) \<and> task_info t = ti))
     (frame_inv n0 W h0 (input ti) False)"
  unfolding BaseNwchemTask_init_def
proof (rule tri_step [OF tri_lift])
  fix self assume "Task_init cfg ti deps = Inr self"
  then have ti: "task_info self = ti" by (rule Task_init_info)
  let ?I = "frame_inv n0 W h0 (input ti) b"
  let ?E = "frame_inv n0 W h0 (input ti) False"
  have C: "tri ?I (if c then gs_user_input ev x else ret x) (\<lambda>ui h. ?I h \<and> fresh n0 ui) ?E"
    if "fresh n0 x" for c x
    by (rule tri_if) (rule tri_gs_user_input [OF that], rule tri_ret_inv, rule that)
  have D: "tri ?I (create_engine cls ev fs self tdata ui)
             (\<lambda>t h. frame_inv n0 W h0 (input ti) True h \<and> (fresh n0 (user_input t) \<and> task_info t = ti)) ?E"
    if ui: "fresh n0 ui" for tdata ui
  proof -
    from iw ow have "input (task_info self) \<in> set W" "ti_output (task_info self) \<in> set W"
      by (simp_all add: ti)
    from tri_create_engine [OF ui this, of h0 b cls ev fs tdata]
    show ?thesis unfolding ti by (rule tri_weaken) (auto simp: ui)
  qed
  show "tri ?I
          (bnd (deepcopy (recursion_limit ev) [] (PyRef (param (task_info self))))
             (\<lambda>r. bnd (if task_name self = GROUND_STATE (tt ev) then gs_user_input ev (fst r)
                        else ret (fst r))
                    (\<lambda>ui. create_engine cls ev fs self (nwchem_data (task_name self)) ui)))
          (\<lambda>t h. frame_inv n0 W h0 (input ti) True h \<and> (fresh n0 (user_input t) \<and> task_info t = ti)) ?E"
    apply (rule tri_step [OF tri_deepcopy])
    apply (rule tri_step [OF C])
     apply assumption
    apply (rule D)
    apply assumption
    done
qed

lemma tri_create_template:
  assumes ui: "fresh n0 (user_input self)" and ew: "engine_param (task_info self) \<in> set W"
  shows "tri (frame_inv n0 W h0 (input (task_info self)) True) (create_template ev self)
     (\<lambda>_ h. frame_inv n0 W h0 (input (task_info self)) True h \<and> True)
     (frame_inv n0 W h0 (input (task_info self)) False)"
  unfolding create_template_def
  apply (rule tri_step [OF tri_reads_only [OF reads_only_reads]])
  apply (rule tri_step [OF tri_py_update])
    apply (simp add: ew)
   apply (rule ui)
  apply (rule tri_step [OF tri_py_getitem])
  apply (rule tri_py_setitem)
   apply (simp add: fresh_writable)
  apply simp
  done

lemma tri_write_input:
  "tri (frame_inv n0 W h0 i b) (write_input ev self fs)
     (\<lambda>_ h. frame_inv n0 W h0 i b h \<and> True) (frame_inv n0 W h0 i False)"
  unfolding write_input_def Let_def
  apply (rule tri_step [OF tri_py_getitem])
  apply (rule tri_step [OF tri_py_getitem])
  subgoal for ei template
    by (cases template; cases "engine_write_input ev (nwchem self) (case template of PyStr s \<Rightarrow> s | _ \<Rightarrow> [])")
       (simp_all add: tri_raise_inv tri_ret_plain)
  done

lemma create_job_script_info:
  "create_job_script ev np rp self = Inr r
     \<Longrightarrow> task_info (snd r) = task_info self \<and> user_input (snd r) = user_input self"
  by (auto simp: create_job_script_def Let_def split: if_splits option.splits sum.splits)

lemma tri_call_method:
  assumes ui: "fresh n0 (user_input (fst s))" and ti: "task_info (fst s) = ti"
    and ew: "engine_param ti \<in> set W"
  shows "tri (frame_inv n0 W h0 (input ti) True) (call_method ev c s)
     (\<lambda>s' h. frame_inv n0 W h0 (input ti) True h
               \<and> (fresh n0 (user_input (fst s')) \<and> task_info (fst s') = ti))
     (frame_inv n0 W h0 (input ti) False)"
proof (cases c)
  case Create_template
  from ew have "engine_param (task_info (fst s)) \<in> set W" by (simp add: ti)
  from tri_create_template [OF ui this, of h0 ev]
  have "tri (frame_inv n0 W h0 (input ti) True) (create_template ev (fst s))
          (\<lambda>_ h. frame_inv n0 W h0 (input ti) True h \<and> True) (frame_inv n0 W h0 (input ti) False)"
    by (simp add: ti)
  then have "tri (frame_inv n0 W h0 (input ti) True) (bnd (create_template ev (fst s)) (\<lambda>_. ret s))
     (\<lambda>s' h. frame_inv n0 W h0 (input ti) True h
               \<and> (fresh n0 (user_input (fst s')) \<and> task_info (fst s') = ti))
     (frame_inv n0 W h0 (input ti) False)"
    by (rule tri_step) (rule tri_ret_inv, simp add: ui ti)
  with Create_template show ?thesis by (simp add: call_method_def)
next
  case Write_input
  have "tri (frame_inv n0 W h0 (input ti) True)
     (bnd (write_input ev (fst s) (snd s)) (\<lambda>fs'. ret (fst s, fs')))
     (\<lambda>s' h. frame_inv n0 W h0 (input ti) True h
               \<and> (fresh n0 (user_input (fst s')) \<and> task_info (fst s') = ti))
     (frame_inv n0 W h0 (input ti) False)"
    by (rule tri_step [OF tri_write_input]) (rule tri_ret_inv, simp add: ui ti)
  with Write_input show ?thesis by (simp add: call_method_def)
next
  case (Create_job_script np rp)
  have "tri (frame_inv n0 W h0 (input ti) True)
     (bnd (lift (create_job_script ev np rp (fst s))) (\<lambda>r. ret (snd r, snd s)))
     (\<lambda>s' h. frame_inv n0 W h0 (input ti) True h
               \<and> (fresh n0 (user_input (fst s')) \<and> task_info (fst s') = ti))
     (frame_inv n0 W h0 (input ti) False)"
  proof (rule tri_step [OF tri_lift])
    fix r assume "create_job_script ev np rp (fst s) = Inr r"
    from create_job_script_info [OF this] ui ti
    show "tri (frame_inv n0 W h0 (input ti) True) (ret (snd r, snd s))
     (\<lambda>s' h. frame_inv n0 W h0 (input ti) True h
               \<and> (fresh n0 (user_input (fst s')) \<and> task_info (fst s') = ti))
     (frame_inv n0 W h0 (input ti) False)"
      by (intro tri_ret_inv) simp
  qed
  with Create_job_script show ?thesis by (simp add: call_method_def)
qed

lemma tri_call_methods:
  assumes ew: "engine_param ti \<in> set W"
  shows "fresh n0 (user_input (fst s)) \<Longrightarrow> task_info (fst s) = ti \<Longrightarrow>
     tri (frame_inv n0 W h0 (input ti) True) (call_methods ev cs s)
       (\<lambda>_ h. frame_inv n0 W h0 (input ti) True h \<and> True)
       (frame_inv n0 W h0 (input ti) False)"
proof (induction cs arbitrary: s)
  case Nil
  show ?case unfolding call_methods.simps by (rule tri_ret_inv) simp
next
  case (Cons c cs)
  show ?case
    unfolding call_methods.simps
  proof (rule tri_step [OF tri_call_method [OF Cons.prems ew]])
    fix s' :: "nwchem_task \<times> string list"
    assume "fresh n0 (user_input (fst s')) \<and> task_info (fst s') = ti"
    then show "tri (frame_inv n0 W h0 (input ti) True) (call_methods ev cs s')
       (\<lambda>_ h. frame_inv n0 W h0 (input ti) True h \<and> True) (frame_inv n0 W h0 (input ti) False)"
      using Cons.IH by blast
  qed
qed

lemma tri_lifecycle:
  assumes "engine_param ti \<in> set W" "input ti \<in> set W" "ti_output ti \<in> set W"
  shows "tri (frame_inv n0 W h0 (input ti) False) (lifecycle cls ev fs cfg ti deps calls)
       (\<lambda>_ h. frame_inv n0 W h0 (input ti) True h \<and> True)
       (frame_inv n0 W h0 (input ti) False)"
  unfolding lifecycle_def
  apply (rule tri_step [OF tri_BaseNwchemTask_init [OF assms(2,3)]])
  apply (rule tri_call_methods [OF assms(1)])
   apply simp_all
  done

text \<open>The frame of a run.\<close>

lemma frame_inv_init: "frame_inv (length h0) W h0 i False h0"
  by (auto simp: frame_inv_def framed_def made_ok_def)

lemma lifecycle_framed:
  assumes "lifecycle cls ev fs cfg ti deps calls h0 = (r, h')"
  shows "framed (length h0) [engine_param ti, input ti, ti_output ti] h0 h'"
proof -
  let ?W = "[engine_param ti, input ti, ti_output ti]"
  have t: "tri (frame_inv (length h0) ?W h0 (input ti) False) (lifecycle cls ev fs cfg ti deps calls)
       (\<lambda>_ h. frame_inv (length h0) ?W h0 (input ti) True h \<and> True)
       (frame_inv (length h0) ?W h0 (input ti) False)"
    by (rule tri_lifecycle) simp_all
  have "frame_inv (length h0) ?W h0 (input ti) False h'"
  proof (cases r)
    case (Inl e)
    with assms triD_err [OF t frame_inv_init] show ?thesis by blast
  next
    case (Inr x)
    with assms triD_ok [OF t frame_inv_init] have "frame_inv (length h0) ?W h0 (input ti) True h'"
      by blast
    then show ?thesis by (rule inv_drop)
  qed
  then show ?thesis by (simp add: frame_inv_def)
qed

lemma snapshots_stable:
  assumes "\<And>v t. snapshot n W h0 v = Some t \<Longrightarrow> snapshot n W h' v = Some t"
  shows "snapshots n W h0 vs = Some ts \<Longrightarrow> snapshots n W h' vs = Some ts"
proof (induction vs arbitrary: ts)
  case Nil
  then show ?case by simp
next
  case (Cons v vs)
  from Cons.prems obtain t ts' where t: "snapshot n W h0 v = Some t"
    and ts': "snapshots n W h0 vs = Some ts'" and ts: "ts = t # ts'"
    by (auto split: option.splits)
  from assms [OF t] Cons.IH [OF ts'] ts show ?case by simp
qed

lemma snapshot_stable:
  assumes fr: "framed (length h0) W h0 h'"
  shows "snapshot n W h0 v = Some t \<Longrightarrow> snapshot n W h' v = Some t"
proof (induction n arbitrary: v t)
  case 0
  then show ?case by simp
next
  case (Suc n)
  have lists: "snapshots n W h0 vs = Some ts \<Longrightarrow> snapshots n W h' vs = Some ts" for vs ts
    using Suc.IH by (rule snapshots_stable)
  show ?case
  proof (cases v)
    case (PyRef a)
    with Suc.prems have a: "a \<notin> set W" "a < length h0"
      by (auto split: if_splits)
    with fr have same: "h' ! a = h0 ! a" and len: "a < length h'"
      by (auto simp: framed_def)
    show ?thesis
    proof (cases "h0 ! a")
      case (Dict d)
      with Suc.prems PyRef a obtain ts where ts: "snapshots n W h0 (map snd d) = Some ts"
        and t: "t = DictT (zip (map fst d) ts)" by auto
      from lists [OF ts] t PyRef a same len Dict show ?thesis by simp
    next
      case (PyList xs)
      with Suc.prems PyRef a obtain ts where ts: "snapshots n W h0 xs = Some ts"
        and t: "t = ListT ts" by auto
      from lists [OF ts] t PyRef a same len PyList show ?thesis by simp
    qed
  qed (use Suc.prems in auto)
qed

section \<open>The declared parameters of a task are left as they are\<close>

text \<open>
  The run of the example: the time-propagation task is constructed and its three methods
  are called; the run returns, and it has written the record's \<^verbatim>\<open>engine_param\<close>.
\<close>

lemma example_lifecycle_returns:
  "isl (fst (lifecycle BaseNwchemTask example_env [] example_lsconfig example_td_info
               (Some [example_gs_info]) example_calls example_heap)) = False"
  by code_simp

lemma example_lifecycle_writes:
  "snd (lifecycle BaseNwchemTask example_env [] example_lsconfig example_td_info
               (Some [example_gs_info]) example_calls example_heap) ! 5 \<noteq> example_heap ! 5"
  by code_simp

text \<open>
  Claim C9. A task is constructed from a task record and any of \<^verbatim>\<open>create_template\<close>,
  \<^verbatim>\<open>write_input\<close> and \<^verbatim>\<open>create_job_script\<close> are called on it, in any order and number; the
  run ends in the store \<open>h'\<close>, with a result or with an exception. Then the declared
  parameters \<^verbatim>\<open>task_info.param\<close> have in \<open>h'\<close> the value \<open>v\<close> they had when the task was
  created: the translation to engine parameters works on the copy \<^verbatim>\<open>user_input\<close>, and of
  the objects that existed before, the run writes only the dictionaries \<^verbatim>\<open>engine_param\<close>,
  \<^verbatim>\<open>input\<close> and \<^verbatim>\<open>output\<close> of the record. The value is the one read off the store down
  from \<^verbatim>\<open>param\<close>; that it is read without passing through one of these three
  dictionaries says that \<^verbatim>\<open>param\<close> is an object of its own, distinct from them.
\<close>

theorem task_param_immutable:
  assumes "lifecycle cls ev fs cfg ti deps calls h0 = (r, h')"
    and "snapshot n [engine_param ti, input ti, ti_output ti] h0 (PyRef (param ti)) = Some v"
  shows "snapshot n [engine_param ti, input ti, ti_output ti] h' (PyRef (param ti)) = Some v"
  using snapshot_stable [OF lifecycle_framed [OF assms(1)] assms(2)] .

text \<open>
  The example: the parameters of the time-propagation task, with their nested lists and
  the laser dictionary, after the run.
\<close>

theorem task_param_immutable_witness:
  "snapshot 4 [5, 6, 7] example_heap (PyRef 4) = Some example_param_value
   \<and> snapshot 4 [5, 6, 7]
        (snd (lifecycle BaseNwchemTask example_env [] example_lsconfig example_td_info
               (Some [example_gs_info]) example_calls example_heap))
        (PyRef 4) = Some example_param_value"
proof -
  have i: "[engine_param example_td_info, input example_td_info, ti_output example_td_info] = [5, 6, 7]"
    "param example_td_info = 4"
    by (simp_all add: example_td_info_def)
  have s: "snapshot 4 [5, 6, 7] example_heap (PyRef 4) = Some example_param_value"
    by code_simp
  have r: "lifecycle BaseNwchemTask example_env [] example_lsconfig example_td_info
             (Some [example_gs_info]) example_calls example_heap
           = (fst (lifecycle BaseNwchemTask example_env [] example_lsconfig example_td_info
                     (Some [example_gs_info]) example_calls example_heap),
              snd (lifecycle BaseNwchemTask example_env [] example_lsconfig example_td_info
                     (Some [example_gs_info]) example_calls example_heap))"
    by simp
  from task_param_immutable [OF r, of 4 example_param_value] s i show ?thesis by simp
qed

end
